theory Spec2Isabelle
  imports Complex_Main "HOL-Library.Multiset"
begin

section \<open>The layouter of \<open>rio/debug/layouter.py\<close>\<close>

text \<open>
  The layouter computes, on the server side, the position and the size of every component of
  a tree and keeps the layout reported by the client beside it. Python's floats are read as
  real numbers throughout: rounding, infinities and NaN are outside this development.
\<close>

subsection \<open>Errors\<close>

text \<open>
  Every exception the modelled code can raise is a value: \<open>NotImplementedError\<close> for the
  proportions of a linear container, \<open>KeyError\<close> for a dictionary read at a missing key,
  \<open>AssertionError\<close> with the set of ids the failing \<open>assert\<close> carries as its message, and
  \<open>AttributeError\<close> for a component that has not the attribute read.
\<close>

datatype error =
    NotImplementedError
  | KeyError int
  | AssertionError "int set"
  | AttributeError

definition and_then :: "error + 'a \<Rightarrow> ('a \<Rightarrow> error + 'b) \<Rightarrow> error + 'b" where
  "and_then m f = (case m of Inl e \<Rightarrow> Inl e | Inr x \<Rightarrow> f x)"

text \<open>A \<open>for\<close> loop whose body can raise: the first error ends the loop.\<close>

fun for_each :: "'a list \<Rightarrow> ('s \<Rightarrow> 'a \<Rightarrow> error + 's) \<Rightarrow> 's \<Rightarrow> error + 's" where
  "for_each [] body s = Inr s"
| "for_each (x # xs) body s =
     (case body s x of Inl e \<Rightarrow> Inl e | Inr s' \<Rightarrow> for_each xs body s')"

text \<open>A loop that appends one computed value per element to a list.\<close>

fun collect :: "('a \<Rightarrow> error + 'b) \<Rightarrow> 'a list \<Rightarrow> error + 'b list" where
  "collect f [] = Inr []"
| "collect f (x # xs) =
     (case f x of Inl e \<Rightarrow> Inl e
      | Inr y \<Rightarrow> (case collect f xs of Inl e \<Rightarrow> Inl e | Inr ys \<Rightarrow> Inr (y # ys)))"

definition getitem :: "(int \<rightharpoonup> 'v) \<Rightarrow> int \<Rightarrow> error + 'v" where
  "getitem d key = (case d key of None \<Rightarrow> Inl (KeyError key) | Some v \<Rightarrow> Inr v)"

subsection \<open>The linear containers and the alignment\<close>

datatype proportions = Homogeneous | Proportions "real list"

fun natural_size_loop :: "real \<Rightarrow> real list \<Rightarrow> real" where
  "natural_size_loop result [] = result"
| "natural_size_loop result (child_requested_size # rest) =
     natural_size_loop (result + child_requested_size) rest"

definition linear_container_get_major_axis_natural_size :: "real list \<Rightarrow> real \<Rightarrow> real" where
  "linear_container_get_major_axis_natural_size child_requested_sizes spacing =
     natural_size_loop
       (spacing * of_int (int (length child_requested_sizes) - 1))
       child_requested_sizes"

fun allocated_sizes_loop ::
  "real \<Rightarrow> (real \<times> real) list \<Rightarrow> real \<Rightarrow> real list \<Rightarrow> (real \<times> real) list" where
  "allocated_sizes_loop spacing starts_and_sizes cur_x [] = starts_and_sizes"
| "allocated_sizes_loop spacing starts_and_sizes cur_x (child_requested_size # rest) =
     allocated_sizes_loop spacing
       (starts_and_sizes @ [(cur_x, child_requested_size)])
       (cur_x + (child_requested_size + spacing)) rest"

definition linear_container_get_major_axis_allocated_sizes ::
  "real \<Rightarrow> real list \<Rightarrow> real \<Rightarrow> proportions option \<Rightarrow> error + (real \<times> real) list" where
  "linear_container_get_major_axis_allocated_sizes
     container_allocated_size child_requested_sizes spacing proportions =
     (case proportions of
        None \<Rightarrow> Inr (allocated_sizes_loop spacing [] 0 child_requested_sizes)
      | Some _ \<Rightarrow> Inl NotImplementedError)"

definition calculate_alignment ::
  "real \<Rightarrow> real \<Rightarrow> real \<Rightarrow> real \<Rightarrow> real option \<Rightarrow> real \<times> real" where
  "calculate_alignment allocated_outer_size requested_inner_size margin_start margin_end align =
     (case align of
        None \<Rightarrow> (margin_start, allocated_outer_size - margin_start - margin_end)
      | Some a \<Rightarrow>
          (let additional_space =
                 allocated_outer_size - requested_inner_size - margin_start - margin_end
           in (margin_start + additional_space * a, requested_inner_size)))"

text \<open>
  The alignment calculator as section 4.4 of the specification words it: an alignment is
  either fill or a fraction; fill gives the offset \<open>margin_start\<close> and the size
  \<open>outer - margin_start - margin_end\<close>, a fraction \<open>f\<close> gives the size \<open>requested_inner\<close>
  and the offset \<open>margin_start + f * (outer - requested_inner - margin_start - margin_end)\<close>.
\<close>

datatype alignment = Fill | Fraction real

fun spec_alignment_offset :: "real \<Rightarrow> real \<Rightarrow> real \<Rightarrow> real \<Rightarrow> alignment \<Rightarrow> real" where
  "spec_alignment_offset outer requested_inner margin_start margin_end Fill = margin_start"
| "spec_alignment_offset outer requested_inner margin_start margin_end (Fraction f) =
     margin_start + f * (outer - requested_inner - margin_start - margin_end)"

fun spec_alignment_size :: "real \<Rightarrow> real \<Rightarrow> real \<Rightarrow> real \<Rightarrow> alignment \<Rightarrow> real" where
  "spec_alignment_size outer requested_inner margin_start margin_end Fill =
     outer - margin_start - margin_end"
| "spec_alignment_size outer requested_inner margin_start margin_end (Fraction f) =
     requested_inner"

fun align_of :: "alignment \<Rightarrow> real option" where
  "align_of Fill = None"
| "align_of (Fraction f) = Some f"

subsection \<open>Components\<close>

text \<open>
  The class of a component. The thirteen classes of \<open>FULL_SIZE_SINGLE_CONTAINERS\<close>, the
  three classes a function of the layouter is named after, and \<open>OtherComponent\<close> for every
  other class: one that is in no list and after whose name no function is named.
\<close>

datatype component_type =
    Button | Card | HighLevelRootComponent | Container | CustomListItem
  | KeyEventListener | Link | MouseEventListener | PageView | Rectangle
  | Slideshow | Stack | Switcher
  | Row | Column | Overlay
  | OtherComponent

text \<open>
  What the layouter reads of a component: its \<open>_id\<close>, its class, \<open>width\<close> and \<open>height\<close>
  (\<open>None\<close> when the attribute is not a number), the four effective margins, the two
  alignments, and the \<open>spacing\<close> and \<open>proportions\<close> of a linear container.
\<close>

record attributes =
  id' :: int
  type' :: component_type
  width :: "real option"
  height :: "real option"
  effective_margin_left :: real
  effective_margin_right :: real
  effective_margin_top :: real
  effective_margin_bottom :: real
  align_x :: "real option"
  align_y :: "real option"
  spacing :: real
  proportions :: "proportions option"

text \<open>
  A component with the children it has in the component tree, in their declared order: the
  direct children of a fundamental component, the build result of a high level one. The
  two are given with the tree, so \<open>iter_direct_tree_children\<close> reads them off. Rows,
  columns and overlays are fundamental components: their \<open>_iter_direct_children()\<close> are
  these children too.
\<close>

datatype component = Component (attrs: attributes) (tree_children: "component list")

definition iter_direct_tree_children :: "component \<Rightarrow> component list" where
  "iter_direct_tree_children component = tree_children component"

definition iter_direct_children :: "component \<Rightarrow> component list" where
  "iter_direct_children component = tree_children component"

text \<open>The \<open>content\<close> of an overlay is its only child.\<close>

definition content :: "component \<Rightarrow> error + component" where
  "content component =
     (case tree_children component of [child] \<Rightarrow> Inr child | _ \<Rightarrow> Inl AttributeError)"

abbreviation cid :: "component \<Rightarrow> int" where
  "cid component \<equiv> id' (attrs component)"

abbreviation ctype :: "component \<Rightarrow> component_type" where
  "ctype component \<equiv> type' (attrs component)"

definition FULL_SIZE_SINGLE_CONTAINERS :: "component_type list" where
  "FULL_SIZE_SINGLE_CONTAINERS =
     [Button, Card, HighLevelRootComponent, Container, CustomListItem, KeyEventListener,
      Link, MouseEventListener, PageView, Rectangle, Slideshow, Stack, Switcher]"

text \<open>
  The decorator \<open>specialized\<close> picks the function a call is delegated to: the one for the
  single containers when the class is in \<open>FULL_SIZE_SINGLE_CONTAINERS\<close>, else the one
  named after the class when there is one, else the decorated function itself.
\<close>

datatype delegate = For_SingleContainer | For_Row | For_Column | For_Overlay | Original

definition specialized :: "component \<Rightarrow> delegate" where
  "specialized component =
     (if ctype component \<in> set FULL_SIZE_SINGLE_CONTAINERS then For_SingleContainer
      else (case ctype component of
              Row \<Rightarrow> For_Row
            | Column \<Rightarrow> For_Column
            | Overlay \<Rightarrow> For_Overlay
            | _ \<Rightarrow> Original))"

subsection \<open>The tree walker\<close>

text \<open>
  \<open>_get_toposorted\<close>: \<open>to_do.pop()\<close> takes the last element of the list and \<open>extend\<close>
  appends the children behind the rest.
\<close>

fun subtree :: "component \<Rightarrow> component list" where
  "subtree (Component a cs) = Component a cs # concat (map subtree cs)"

function get_toposorted_loop :: "component list \<Rightarrow> component list" where
  "get_toposorted_loop to_do =
     (if to_do = [] then []
      else (let current = last to_do; to_do' = butlast to_do
            in current # get_toposorted_loop (to_do' @ iter_direct_tree_children current)))"
  by pat_completeness auto

termination get_toposorted_loop
proof (relation "measure (\<lambda>to_do. sum_list (map (\<lambda>x. length (subtree x)) to_do))")
  show "wf (measure (\<lambda>to_do. sum_list (map (\<lambda>x. length (subtree x)) to_do)))"
    by simp
next
  fix to_do :: "component list" and x xa
  assume ne: "to_do \<noteq> []" and x: "x = last to_do" and xa: "xa = butlast to_do"
  have split: "to_do = xa @ [x]"
    using ne x xa by simp
  have size_x:
    "length (subtree x) = Suc (sum_list (map (\<lambda>x. length (subtree x)) (tree_children x)))"
    by (cases x) (simp add: length_concat comp_def)
  have "sum_list (map (\<lambda>x. length (subtree x)) (xa @ iter_direct_tree_children x))
      < sum_list (map (\<lambda>x. length (subtree x)) (xa @ [x]))"
    by (simp add: iter_direct_tree_children_def size_x)
  then show "(xa @ iter_direct_tree_children x, to_do)
      \<in> measure (\<lambda>to_do. sum_list (map (\<lambda>x. length (subtree x)) to_do))"
    using split by simp
qed

definition get_toposorted :: "component \<Rightarrow> component list" where
  "get_toposorted root' = get_toposorted_loop [root']"

subsection \<open>The layouter\<close>

record UnittestComponentLayout =
  natural_width :: real
  natural_height :: real
  requested_inner_width :: real
  requested_inner_height :: real
  requested_outer_width :: real
  requested_outer_height :: real
  allocated_outer_width :: real
  allocated_outer_height :: real
  allocated_inner_width :: real
  allocated_inner_height :: real
  left_in_viewport_outer :: real
  top_in_viewport_outer :: real
  left_in_viewport_inner :: real
  top_in_viewport_inner :: real
  aux :: "(string \<times> string) list"

text \<open>The session, as far as the layouter reads it, and what the client reports.\<close>

record session =
  root_component :: component

record UnittestClientLayoutInfo =
  client_window_width :: real
  client_window_height :: real
  component_layouts :: "(int \<times> UnittestComponentLayout) list"

text \<open>
  The layouter itself. The two dictionaries map the id of a component to its layout;
  a layout object is only ever reached through the dictionary entry of its id.
\<close>

record Layouter =
  session :: session
  window_width :: real
  window_height :: real
  layouts_should :: "int \<rightharpoonup> UnittestComponentLayout"
  layouts_are :: "int \<rightharpoonup> UnittestComponentLayout"

text \<open>
  Fetching the layout object stored under a key and assigning to attributes of it:
  \<open>KeyError\<close> when the key is missing.
\<close>

definition update_layout ::
  "Layouter \<Rightarrow> int \<Rightarrow> (UnittestComponentLayout \<Rightarrow> UnittestComponentLayout)
     \<Rightarrow> error + Layouter" where
  "update_layout self key f =
     (case layouts_should self key of
        None \<Rightarrow> Inl (KeyError key)
      | Some layout \<Rightarrow> Inr (self\<lparr>layouts_should := (layouts_should self)(key \<mapsto> f layout)\<rparr>))"

text \<open>The requested outer sizes of the children, collected into a list.\<close>

definition child_requested_outer_widths :: "Layouter \<Rightarrow> component \<Rightarrow> error + real list" where
  "child_requested_outer_widths self component =
     collect (\<lambda>child. and_then (getitem (layouts_should self) (cid child))
                (\<lambda>child_layout. Inr (requested_outer_width child_layout)))
       (iter_direct_children component)"

definition child_requested_outer_heights :: "Layouter \<Rightarrow> component \<Rightarrow> error + real list" where
  "child_requested_outer_heights self component =
     collect (\<lambda>child. and_then (getitem (layouts_should self) (cid child))
                (\<lambda>child_layout. Inr (requested_outer_height child_layout)))
       (iter_direct_children component)"

subsubsection \<open>Natural width\<close>

definition update_natural_width_default :: "Layouter \<Rightarrow> component \<Rightarrow> error + Layouter" where
  "update_natural_width_default self component =
     and_then (getitem (layouts_should self) (cid component)) (\<lambda>layout_should.
     and_then (getitem (layouts_are self) (cid component)) (\<lambda>layout_is.
     update_layout self (cid component)
       (\<lambda>layout_should. layout_should\<lparr>natural_width := natural_width layout_is\<rparr>)))"

definition update_natural_width_Row :: "Layouter \<Rightarrow> component \<Rightarrow> error + Layouter" where
  "update_natural_width_Row self component =
     and_then (getitem (layouts_should self) (cid component)) (\<lambda>layout.
     and_then (child_requested_outer_widths self component) (\<lambda>child_widths.
     update_layout self (cid component)
       (\<lambda>layout. layout\<lparr>natural_width :=
          linear_container_get_major_axis_natural_size child_widths (spacing (attrs component))\<rparr>)))"

text \<open>
  The loop of the column and of the single containers: the natural width of the component
  becomes the larger of itself and the requested outer width of the child.
\<close>

definition max_natural_width_step :: "component \<Rightarrow> Layouter \<Rightarrow> component \<Rightarrow> error + Layouter" where
  "max_natural_width_step component self child =
     and_then (getitem (layouts_should self) (cid child)) (\<lambda>child_layout.
     update_layout self (cid component)
       (\<lambda>layout. layout\<lparr>natural_width :=
          max (natural_width layout) (requested_outer_width child_layout)\<rparr>))"

definition update_natural_width_Column :: "Layouter \<Rightarrow> component \<Rightarrow> error + Layouter" where
  "update_natural_width_Column self component =
     and_then (update_layout self (cid component) (\<lambda>layout. layout\<lparr>natural_width := 0\<rparr>))
       (for_each (iter_direct_children component) (max_natural_width_step component))"

definition update_natural_width_Overlay :: "Layouter \<Rightarrow> component \<Rightarrow> error + Layouter" where
  "update_natural_width_Overlay self component =
     update_layout self (cid component) (\<lambda>layout. layout\<lparr>natural_width := 0\<rparr>)"

definition update_natural_width_SingleContainer :: "Layouter \<Rightarrow> component \<Rightarrow> error + Layouter" where
  "update_natural_width_SingleContainer self component =
     and_then (update_layout self (cid component) (\<lambda>layout. layout\<lparr>natural_width := 0\<rparr>))
       (for_each (iter_direct_tree_children component) (max_natural_width_step component))"

definition update_natural_width :: "Layouter \<Rightarrow> component \<Rightarrow> error + Layouter" where
  "update_natural_width self component =
     (case specialized component of
        For_SingleContainer \<Rightarrow> update_natural_width_SingleContainer self component
      | For_Row \<Rightarrow> update_natural_width_Row self component
      | For_Column \<Rightarrow> update_natural_width_Column self component
      | For_Overlay \<Rightarrow> update_natural_width_Overlay self component
      | Original \<Rightarrow> update_natural_width_default self component)"

subsubsection \<open>Allocated width\<close>

text \<open>The loop of the default implementation: trust the client.\<close>

definition trust_client_width_step :: "Layouter \<Rightarrow> component \<Rightarrow> error + Layouter" where
  "trust_client_width_step self child =
     and_then (getitem (layouts_should self) (cid child)) (\<lambda>child_layout_should.
     and_then (getitem (layouts_are self) (cid child)) (\<lambda>child_layout_is.
     update_layout self (cid child)
       (\<lambda>child_layout_should. child_layout_should
          \<lparr>allocated_outer_width := allocated_outer_width child_layout_is\<rparr>)))"

definition update_allocated_width_default :: "Layouter \<Rightarrow> component \<Rightarrow> error + Layouter" where
  "update_allocated_width_default self component =
     for_each (iter_direct_tree_children component) trust_client_width_step self"

text \<open>The loop of the row over the children zipped with their starts and sizes.\<close>

definition place_width_step ::
  "component \<Rightarrow> Layouter \<Rightarrow> component \<times> real \<times> real \<Rightarrow> error + Layouter" where
  "place_width_step component self item =
     (case item of (child, (left, width')) \<Rightarrow>
        and_then (getitem (layouts_should self) (cid child)) (\<lambda>child_layout.
        and_then (getitem (layouts_should self) (cid component)) (\<lambda>layout.
        update_layout self (cid child)
          (\<lambda>child_layout. child_layout
             \<lparr>left_in_viewport_outer := left_in_viewport_inner layout + left,
              allocated_outer_width := width'\<rparr>))))"

definition update_allocated_width_Row :: "Layouter \<Rightarrow> component \<Rightarrow> error + Layouter" where
  "update_allocated_width_Row self component =
     and_then (getitem (layouts_should self) (cid component)) (\<lambda>layout.
     and_then (child_requested_outer_widths self component) (\<lambda>child_widths.
     and_then (linear_container_get_major_axis_allocated_sizes
                 (allocated_inner_width layout) child_widths
                 (spacing (attrs component)) (proportions (attrs component)))
       (\<lambda>starts_and_sizes.
     for_each (zip (iter_direct_children component) starts_and_sizes)
       (place_width_step component) self)))"

text \<open>
  The loop of the column and of the single containers: the child gets the inner left edge
  and the inner width of the component.
\<close>

definition pass_on_width_step :: "component \<Rightarrow> Layouter \<Rightarrow> component \<Rightarrow> error + Layouter" where
  "pass_on_width_step component self child =
     and_then (getitem (layouts_should self) (cid child)) (\<lambda>child_layout.
     and_then (getitem (layouts_should self) (cid component)) (\<lambda>layout.
     update_layout self (cid child)
       (\<lambda>child_layout. child_layout
          \<lparr>left_in_viewport_outer := left_in_viewport_inner layout,
           allocated_outer_width := allocated_inner_width layout\<rparr>)))"

definition update_allocated_width_Column :: "Layouter \<Rightarrow> component \<Rightarrow> error + Layouter" where
  "update_allocated_width_Column self component =
     and_then (getitem (layouts_should self) (cid component)) (\<lambda>layout.
     for_each (iter_direct_children component) (pass_on_width_step component) self)"

definition update_allocated_width_Overlay :: "Layouter \<Rightarrow> component \<Rightarrow> error + Layouter" where
  "update_allocated_width_Overlay self component =
     and_then (content component) (\<lambda>child.
     update_layout self (cid child)
       (\<lambda>child_layout. child_layout
          \<lparr>left_in_viewport_outer := 0, allocated_outer_width := window_width self\<rparr>))"

definition update_allocated_width_SingleContainer :: "Layouter \<Rightarrow> component \<Rightarrow> error + Layouter" where
  "update_allocated_width_SingleContainer self component =
     and_then (getitem (layouts_should self) (cid component)) (\<lambda>layout.
     for_each (iter_direct_tree_children component) (pass_on_width_step component) self)"

definition update_allocated_width :: "Layouter \<Rightarrow> component \<Rightarrow> error + Layouter" where
  "update_allocated_width self component =
     (case specialized component of
        For_SingleContainer \<Rightarrow> update_allocated_width_SingleContainer self component
      | For_Row \<Rightarrow> update_allocated_width_Row self component
      | For_Column \<Rightarrow> update_allocated_width_Column self component
      | For_Overlay \<Rightarrow> update_allocated_width_Overlay self component
      | Original \<Rightarrow> update_allocated_width_default self component)"

subsubsection \<open>Natural height\<close>

definition update_natural_height_default :: "Layouter \<Rightarrow> component \<Rightarrow> error + Layouter" where
  "update_natural_height_default self component =
     and_then (getitem (layouts_should self) (cid component)) (\<lambda>layout_should.
     and_then (getitem (layouts_are self) (cid component)) (\<lambda>layout_is.
     update_layout self (cid component)
       (\<lambda>layout_should. layout_should\<lparr>natural_height := natural_height layout_is\<rparr>)))"

definition max_natural_height_step :: "component \<Rightarrow> Layouter \<Rightarrow> component \<Rightarrow> error + Layouter" where
  "max_natural_height_step component self child =
     and_then (getitem (layouts_should self) (cid child)) (\<lambda>child_layout.
     update_layout self (cid component)
       (\<lambda>layout. layout\<lparr>natural_height :=
          max (natural_height layout) (requested_outer_height child_layout)\<rparr>))"

definition update_natural_height_Row :: "Layouter \<Rightarrow> component \<Rightarrow> error + Layouter" where
  "update_natural_height_Row self component =
     and_then (update_layout self (cid component) (\<lambda>layout. layout\<lparr>natural_height := 0\<rparr>))
       (for_each (iter_direct_children component) (max_natural_height_step component))"

definition update_natural_height_Column :: "Layouter \<Rightarrow> component \<Rightarrow> error + Layouter" where
  "update_natural_height_Column self component =
     and_then (getitem (layouts_should self) (cid component)) (\<lambda>layout.
     and_then (child_requested_outer_heights self component) (\<lambda>child_heights.
     update_layout self (cid component)
       (\<lambda>layout. layout\<lparr>natural_height :=
          linear_container_get_major_axis_natural_size child_heights (spacing (attrs component))\<rparr>)))"

definition update_natural_height_Overlay :: "Layouter \<Rightarrow> component \<Rightarrow> error + Layouter" where
  "update_natural_height_Overlay self component =
     update_layout self (cid component) (\<lambda>layout. layout\<lparr>natural_height := 0\<rparr>)"

definition update_natural_height_SingleContainer :: "Layouter \<Rightarrow> component \<Rightarrow> error + Layouter" where
  "update_natural_height_SingleContainer self component =
     and_then (update_layout self (cid component) (\<lambda>layout. layout\<lparr>natural_height := 0\<rparr>))
       (for_each (iter_direct_tree_children component) (max_natural_height_step component))"

definition update_natural_height :: "Layouter \<Rightarrow> component \<Rightarrow> error + Layouter" where
  "update_natural_height self component =
     (case specialized component of
        For_SingleContainer \<Rightarrow> update_natural_height_SingleContainer self component
      | For_Row \<Rightarrow> update_natural_height_Row self component
      | For_Column \<Rightarrow> update_natural_height_Column self component
      | For_Overlay \<Rightarrow> update_natural_height_Overlay self component
      | Original \<Rightarrow> update_natural_height_default self component)"

subsubsection \<open>Allocated height\<close>

definition trust_client_height_step :: "Layouter \<Rightarrow> component \<Rightarrow> error + Layouter" where
  "trust_client_height_step self child =
     and_then (getitem (layouts_should self) (cid child)) (\<lambda>child_layout_should.
     and_then (getitem (layouts_are self) (cid child)) (\<lambda>child_layout_is.
     update_layout self (cid child)
       (\<lambda>child_layout_should. child_layout_should
          \<lparr>allocated_outer_height := allocated_outer_height child_layout_is,
           left_in_viewport_outer := left_in_viewport_outer child_layout_is,
           top_in_viewport_outer := top_in_viewport_outer child_layout_is\<rparr>)))"

definition update_allocated_height_default :: "Layouter \<Rightarrow> component \<Rightarrow> error + Layouter" where
  "update_allocated_height_default self component =
     for_each (iter_direct_tree_children component) trust_client_height_step self"

definition pass_on_height_step :: "component \<Rightarrow> Layouter \<Rightarrow> component \<Rightarrow> error + Layouter" where
  "pass_on_height_step component self child =
     and_then (getitem (layouts_should self) (cid child)) (\<lambda>child_layout.
     and_then (getitem (layouts_should self) (cid component)) (\<lambda>layout.
     update_layout self (cid child)
       (\<lambda>child_layout. child_layout
          \<lparr>top_in_viewport_outer := top_in_viewport_inner layout,
           allocated_outer_height := allocated_inner_height layout\<rparr>)))"

definition update_allocated_height_Row :: "Layouter \<Rightarrow> component \<Rightarrow> error + Layouter" where
  "update_allocated_height_Row self component =
     and_then (getitem (layouts_should self) (cid component)) (\<lambda>layout.
     for_each (iter_direct_children component) (pass_on_height_step component) self)"

definition place_height_step ::
  "component \<Rightarrow> Layouter \<Rightarrow> component \<times> real \<times> real \<Rightarrow> error + Layouter" where
  "place_height_step component self item =
     (case item of (child, (top', height')) \<Rightarrow>
        and_then (getitem (layouts_should self) (cid child)) (\<lambda>child_layout.
        and_then (getitem (layouts_should self) (cid component)) (\<lambda>layout.
        update_layout self (cid child)
          (\<lambda>child_layout. child_layout
             \<lparr>top_in_viewport_outer := top_in_viewport_inner layout + top',
              allocated_outer_height := height'\<rparr>))))"

definition update_allocated_height_Column :: "Layouter \<Rightarrow> component \<Rightarrow> error + Layouter" where
  "update_allocated_height_Column self component =
     and_then (getitem (layouts_should self) (cid component)) (\<lambda>layout.
     and_then (child_requested_outer_heights self component) (\<lambda>child_heights.
     and_then (linear_container_get_major_axis_allocated_sizes
                 (allocated_inner_height layout) child_heights
                 (spacing (attrs component)) (proportions (attrs component)))
       (\<lambda>starts_and_sizes.
     for_each (zip (iter_direct_children component) starts_and_sizes)
       (place_height_step component) self)))"

definition update_allocated_height_Overlay :: "Layouter \<Rightarrow> component \<Rightarrow> error + Layouter" where
  "update_allocated_height_Overlay self component =
     and_then (content component) (\<lambda>child.
     update_layout self (cid child)
       (\<lambda>child_layout. child_layout
          \<lparr>top_in_viewport_outer := 0, allocated_outer_height := window_height self\<rparr>))"

definition update_allocated_height_SingleContainer :: "Layouter \<Rightarrow> component \<Rightarrow> error + Layouter" where
  "update_allocated_height_SingleContainer self component =
     and_then (getitem (layouts_should self) (cid component)) (\<lambda>layout.
     for_each (iter_direct_tree_children component) (pass_on_height_step component) self)"

definition update_allocated_height :: "Layouter \<Rightarrow> component \<Rightarrow> error + Layouter" where
  "update_allocated_height self component =
     (case specialized component of
        For_SingleContainer \<Rightarrow> update_allocated_height_SingleContainer self component
      | For_Row \<Rightarrow> update_allocated_height_Row self component
      | For_Column \<Rightarrow> update_allocated_height_Column self component
      | For_Overlay \<Rightarrow> update_allocated_height_Overlay self component
      | Original \<Rightarrow> update_allocated_height_default self component)"

subsubsection \<open>The four passes\<close>

definition new_layout :: UnittestComponentLayout where
  "new_layout =
     \<lparr>natural_width = -1, natural_height = -1,
      requested_inner_width = -1, requested_inner_height = -1,
      requested_outer_width = -1, requested_outer_height = -1,
      allocated_outer_width = -1, allocated_outer_height = -1,
      allocated_inner_width = -1, allocated_inner_height = -1,
      left_in_viewport_outer = -1, top_in_viewport_outer = -1,
      left_in_viewport_inner = -1, top_in_viewport_inner = -1,
      aux = []\<rparr>"

text \<open>1. The body of the first loop: a fresh layout, the natural and the requested width.\<close>

definition natural_width_pass :: "Layouter \<Rightarrow> component \<Rightarrow> error + Layouter" where
  "natural_width_pass self component =
     (let self = self\<lparr>layouts_should := (layouts_should self)(cid component \<mapsto> new_layout)\<rparr>
      in and_then (update_natural_width self component) (\<lambda>self.
         let min_width = (case width (attrs component) of Some w \<Rightarrow> w | None \<Rightarrow> 0)
         in and_then (update_layout self (cid component)
              (\<lambda>layout_should. layout_should\<lparr>requested_inner_width :=
                 max (natural_width layout_should) min_width\<rparr>)) (\<lambda>self.
            update_layout self (cid component)
              (\<lambda>layout_should. layout_should\<lparr>requested_outer_width :=
                 requested_inner_width layout_should
                 + effective_margin_left (attrs component)
                 + effective_margin_right (attrs component)\<rparr>))))"

text \<open>2. The body of the second loop: the alignment of the component, then its children.\<close>

definition allocated_width_pass :: "Layouter \<Rightarrow> component \<Rightarrow> error + Layouter" where
  "allocated_width_pass self component =
     and_then (update_layout self (cid component)
       (\<lambda>layout.
          let (left, width') = calculate_alignment
                (allocated_outer_width layout) (requested_inner_width layout)
                (effective_margin_left (attrs component))
                (effective_margin_right (attrs component))
                (align_x (attrs component))
          in layout\<lparr>left_in_viewport_inner := left_in_viewport_outer layout + left,
                    allocated_inner_width := width'\<rparr>))
       (\<lambda>self. update_allocated_width self component)"

text \<open>3. The body of the third loop: the natural and the requested height.\<close>

definition natural_height_pass :: "Layouter \<Rightarrow> component \<Rightarrow> error + Layouter" where
  "natural_height_pass self component =
     and_then (getitem (layouts_should self) (cid component)) (\<lambda>layout_should.
     and_then (update_natural_height self component) (\<lambda>self.
     let min_height = (case height (attrs component) of Some h \<Rightarrow> h | None \<Rightarrow> 0)
     in and_then (update_layout self (cid component)
          (\<lambda>layout_should. layout_should\<lparr>requested_inner_height :=
             max (natural_height layout_should) min_height\<rparr>)) (\<lambda>self.
        update_layout self (cid component)
          (\<lambda>layout_should. layout_should\<lparr>requested_outer_height :=
             requested_inner_height layout_should
             + effective_margin_top (attrs component)
             + effective_margin_bottom (attrs component)\<rparr>))))"

text \<open>4. The body of the fourth loop.\<close>

definition allocated_height_pass :: "Layouter \<Rightarrow> component \<Rightarrow> error + Layouter" where
  "allocated_height_pass self component =
     and_then (update_layout self (cid component)
       (\<lambda>layout.
          let (top', height') = calculate_alignment
                (allocated_outer_height layout) (requested_inner_height layout)
                (effective_margin_top (attrs component))
                (effective_margin_bottom (attrs component))
                (align_y (attrs component))
          in layout\<lparr>top_in_viewport_inner := top_in_viewport_outer layout + top',
                    allocated_inner_height := height'\<rparr>))
       (\<lambda>self. update_allocated_height self component)"

definition seed_root_width :: "Layouter \<Rightarrow> error + Layouter" where
  "seed_root_width self =
     update_layout self (cid (root_component (session self)))
       (\<lambda>root_layout. root_layout
          \<lparr>left_in_viewport_outer := 0,
           allocated_outer_width := max (window_width self) (requested_outer_width root_layout)\<rparr>)"

definition seed_root_height :: "Layouter \<Rightarrow> error + Layouter" where
  "seed_root_height self =
     update_layout self (cid (root_component (session self)))
       (\<lambda>root_layout. root_layout
          \<lparr>top_in_viewport_outer := 0,
           allocated_outer_height := max (window_height self) (requested_outer_height root_layout)\<rparr>)"

definition compute_layouts_should :: "Layouter \<Rightarrow> component list \<Rightarrow> error + Layouter" where
  "compute_layouts_should self ordered_components =
     and_then (for_each (rev ordered_components) natural_width_pass self) (\<lambda>self.
     and_then (seed_root_width self) (\<lambda>self.
     and_then (for_each ordered_components allocated_width_pass self) (\<lambda>self.
     and_then (for_each (rev ordered_components) natural_height_pass self) (\<lambda>self.
     and_then (seed_root_height self) (\<lambda>self.
     for_each ordered_components allocated_height_pass self)))))"

text \<open>
  \<open>Layouter.create\<close>, given what the client answers. Each of the two \<open>assert\<close>
  statements carries the set it found not empty.
\<close>

definition create :: "session \<Rightarrow> UnittestClientLayoutInfo \<Rightarrow> error + Layouter" where
  "create session' client_info =
     (let ordered_components = get_toposorted (root_component session');
          self = \<lparr>session = session',
                  window_width = client_window_width client_info,
                  window_height = client_window_height client_info,
                  layouts_should = Map.empty,
                  layouts_are = map_of (component_layouts client_info)\<rparr>;
          component_ids_client = set (map fst (component_layouts client_info));
          component_ids_server = set (map cid ordered_components);
          missing_component_ids = component_ids_server - component_ids_client
      in if missing_component_ids \<noteq> {} then Inl (AssertionError missing_component_ids)
         else (let superfluous_component_ids = component_ids_client - component_ids_server
               in if superfluous_component_ids \<noteq> {}
                  then Inl (AssertionError superfluous_component_ids)
                  else compute_layouts_should self ordered_components))"

subsection \<open>Notions for stating the properties\<close>

text \<open>
  The walk of a tree that takes the root first and then the subtrees of the children from
  the last child to the first.
\<close>

fun walk :: "component \<Rightarrow> component list" where
  "walk (Component a cs) = Component a cs # concat (map walk (rev cs))"

text \<open>\<open>appears_before xs x y\<close>: \<open>y\<close> occurs in \<open>xs\<close> behind the first \<open>x\<close>.\<close>

fun appears_before :: "'a list \<Rightarrow> 'a \<Rightarrow> 'a \<Rightarrow> bool" where
  "appears_before [] x y = False"
| "appears_before (z # zs) x y = (if z = x then y \<in> set zs else appears_before zs x y)"

declare get_toposorted_loop.simps [simp del]

text \<open>What no function of the layouter assigns to: the session, the window and the reported layouts.\<close>

definition env ::
  "Layouter \<Rightarrow> session \<times> real \<times> real \<times> (int \<rightharpoonup> UnittestComponentLayout)" where
  "env self = (session self, window_width self, window_height self, layouts_are self)"

text \<open>
  \<open>frame i proj s s'\<close>: from \<open>s\<close> to \<open>s'\<close> the layout stored under the id \<open>i\<close> has kept what
  \<open>proj\<close> reads of it. \<open>unaffected proj upd\<close>: what \<open>proj\<close> reads does not depend on the
  field that \<open>upd\<close> assigns.
\<close>

definition frame ::
  "int \<Rightarrow> (UnittestComponentLayout \<Rightarrow> 'a) \<Rightarrow> Layouter \<Rightarrow> Layouter \<Rightarrow> bool" where
  "frame i proj s s' \<longleftrightarrow>
     env s' = env s
     \<and> map_option proj (layouts_should s' i) = map_option proj (layouts_should s i)"

definition unaffected ::
  "(UnittestComponentLayout \<Rightarrow> 'a)
     \<Rightarrow> ((real \<Rightarrow> real) \<Rightarrow> UnittestComponentLayout \<Rightarrow> UnittestComponentLayout) \<Rightarrow> bool" where
  "unaffected proj upd \<longleftrightarrow> (\<forall>g r. proj (upd g r) = proj r)"

subsection \<open>Example trees\<close>

definition plain :: "int \<Rightarrow> component_type \<Rightarrow> component list \<Rightarrow> component" where
  "plain i t cs =
     Component \<lparr>id' = i, type' = t, width = None, height = None,
       effective_margin_left = 0, effective_margin_right = 0,
       effective_margin_top = 0, effective_margin_bottom = 0,
       align_x = None, align_y = None, spacing = 0, proportions = None\<rparr> cs"

text \<open>A row, and a column, of two children with the spacing 5.\<close>

definition example_row :: component where
  "example_row =
     Component \<lparr>id' = 1, type' = Row, width = None, height = None,
       effective_margin_left = 0, effective_margin_right = 0,
       effective_margin_top = 0, effective_margin_bottom = 0,
       align_x = None, align_y = None, spacing = 5, proportions = None\<rparr>
       [plain 2 OtherComponent [], plain 3 OtherComponent []]"

definition example_column :: component where
  "example_column =
     Component \<lparr>id' = 1, type' = Column, width = None, height = None,
       effective_margin_left = 0, effective_margin_right = 0,
       effective_margin_top = 0, effective_margin_bottom = 0,
       align_x = None, align_y = None, spacing = 5, proportions = None\<rparr>
       [plain 2 OtherComponent [], plain 3 OtherComponent []]"

text \<open>
  A layouter in which the two children request the outer sizes 10 and 20 on both axes and
  the container has been allocated the inner size 35 at the inner position 7.
\<close>

definition example_layouter :: "component \<Rightarrow> Layouter" where
  "example_layouter root' =
     \<lparr>session = \<lparr>root_component = root'\<rparr>,
      window_width = 100, window_height = 100,
      layouts_should =
        [1 \<mapsto> new_layout\<lparr>allocated_inner_width := 35, allocated_inner_height := 35,
                          left_in_viewport_inner := 7, top_in_viewport_inner := 7\<rparr>,
         2 \<mapsto> new_layout\<lparr>requested_outer_width := 10, requested_outer_height := 10\<rparr>,
         3 \<mapsto> new_layout\<lparr>requested_outer_width := 20, requested_outer_height := 20\<rparr>],
      layouts_are = Map.empty\<rparr>"

text \<open>
  A root with one child that has one child of its own, the class of the middle component
  being left open, and a client that reports the same layout for all three.
\<close>

definition example_tree :: "component_type \<Rightarrow> component" where
  "example_tree t = plain 1 HighLevelRootComponent [plain 2 t [plain 3 OtherComponent []]]"

definition example_reported :: UnittestComponentLayout where
  "example_reported =
     \<lparr>natural_width = 10, natural_height = 4,
      requested_inner_width = 10, requested_inner_height = 4,
      requested_outer_width = 10, requested_outer_height = 4,
      allocated_outer_width = 30, allocated_outer_height = 8,
      allocated_inner_width = 30, allocated_inner_height = 8,
      left_in_viewport_outer = 5, top_in_viewport_outer = 6,
      left_in_viewport_inner = 5, top_in_viewport_inner = 6,
      aux = []\<rparr>"

definition example_client_info :: UnittestClientLayoutInfo where
  "example_client_info =
     \<lparr>client_window_width = 100, client_window_height = 50,
      component_layouts = [(1, example_reported), (2, example_reported), (3, example_reported)]\<rparr>"

text \<open>An overlay with a left margin of 10 and a top margin of 5 between a root and a leaf.\<close>

definition example_overlay_tree :: component where
  "example_overlay_tree =
     plain 1 HighLevelRootComponent
       [Component \<lparr>id' = 2, type' = Overlay, width = None, height = None,
          effective_margin_left = 10, effective_margin_right = 0,
          effective_margin_top = 5, effective_margin_bottom = 0,
          align_x = None, align_y = None, spacing = 0, proportions = None\<rparr>
          [plain 3 OtherComponent []]]"

text \<open>The errors that an \<open>assert\<close> statement raises.\<close>

fun is_AssertionError :: "error \<Rightarrow> bool" where
  "is_AssertionError (AssertionError ids) = True"
| "is_AssertionError e = False"

text \<open>A client that knows nothing of the component 3 and reports a component 4 instead.\<close>

definition example_desync_info :: UnittestClientLayoutInfo where
  "example_desync_info =
     \<lparr>client_window_width = 100, client_window_height = 50,
      component_layouts = [(1, example_reported), (2, example_reported), (4, example_reported)]\<rparr>"

text \<open>A root with two children, of which the second has a child of its own.\<close>

definition example_nested :: component where
  "example_nested =
     plain 1 HighLevelRootComponent
       [plain 2 OtherComponent [], plain 3 OtherComponent [plain 4 OtherComponent []]]"

section \<open>Properties\<close>

subsection \<open>The linear containers\<close>

lemma natural_size_loop_sum: "natural_size_loop r xs = r + sum_list xs"
  by (induction xs arbitrary: r) simp_all

lemma natural_size_closed:
  "linear_container_get_major_axis_natural_size sizes sp
     = sum_list sizes + sp * (real (length sizes) - 1)"
  by (simp add: linear_container_get_major_axis_natural_size_def natural_size_loop_sum)

lemma allocated_sizes_loop_append:
  "allocated_sizes_loop sp acc x sizes = acc @ allocated_sizes_loop sp [] x sizes"
proof (induction sizes arbitrary: acc x)
  case Nil
  show ?case by simp
next
  case (Cons s sizes)
  show ?case
    using Cons.IH [of "acc @ [(x, s)]" "x + (s + sp)"] Cons.IH [of "[(x, s)]" "x + (s + sp)"]
    by simp
qed

lemma allocated_sizes_loop_Cons:
  "allocated_sizes_loop sp [] x (s # sizes) = (x, s) # allocated_sizes_loop sp [] (x + (s + sp)) sizes"
  using allocated_sizes_loop_append [of sp "[(x, s)]" "x + (s + sp)" sizes] by simp

lemma allocated_sizes_loop_length: "length (allocated_sizes_loop sp [] x sizes) = length sizes"
  by (induction sizes arbitrary: x) (simp_all add: allocated_sizes_loop_Cons del: allocated_sizes_loop.simps(2))

lemma allocated_sizes_loop_snd: "map snd (allocated_sizes_loop sp [] x sizes) = sizes"
  by (induction sizes arbitrary: x) (simp_all add: allocated_sizes_loop_Cons del: allocated_sizes_loop.simps(2))

lemma allocated_sizes_loop_first:
  "sizes \<noteq> [] \<Longrightarrow> fst (allocated_sizes_loop sp [] x sizes ! 0) = x"
  by (cases sizes) (simp_all add: allocated_sizes_loop_Cons del: allocated_sizes_loop.simps(2))

lemma allocated_sizes_loop_next:
  "Suc i < length sizes \<Longrightarrow>
     fst (allocated_sizes_loop sp [] x sizes ! Suc i)
       = fst (allocated_sizes_loop sp [] x sizes ! i) + (sizes ! i + sp)"
proof (induction sizes arbitrary: x i)
  case Nil
  then show ?case by simp
next
  case (Cons s sizes)
  show ?case
  proof (cases i)
    case 0
    with Cons.prems have "sizes \<noteq> []" by auto
    then show ?thesis
      using 0 allocated_sizes_loop_first [of sizes sp "x + (s + sp)"]
      by (simp add: allocated_sizes_loop_Cons del: allocated_sizes_loop.simps(2))
  next
    case (Suc j)
    with Cons.prems have "Suc j < length sizes" by simp
    from Cons.IH [OF this, of "x + (s + sp)"] show ?thesis
      using Suc by (simp add: allocated_sizes_loop_Cons del: allocated_sizes_loop.simps(2))
  qed
qed

subsection \<open>The tree walker\<close>

lemma walk_unfold: "walk c = c # concat (map walk (rev (tree_children c)))"
  by (cases c) simp

lemma get_toposorted_loop_walk:
  "get_toposorted_loop to_do = concat (map walk (rev to_do))"
proof (induction to_do rule: get_toposorted_loop.induct)
  case (1 to_do)
  show ?case
  proof (cases "to_do = []")
    case True
    then show ?thesis by (simp add: get_toposorted_loop.simps)
  next
    case False
    then obtain rest current where split: "to_do = rest @ [current]"
      by (metis append_butlast_last_id)
    have l: "current = last to_do" and b: "rest = butlast to_do"
      using split by simp_all
    have IH: "get_toposorted_loop (rest @ iter_direct_tree_children current)
        = concat (map walk (rev (rest @ iter_direct_tree_children current)))"
      by (rule "1.IH" [OF False l b])
    have "get_toposorted_loop (rest @ [current])
        = current # get_toposorted_loop (rest @ iter_direct_tree_children current)"
      by (subst get_toposorted_loop.simps) simp
    also have "\<dots> = walk current @ concat (map walk (rev rest))"
      unfolding IH walk_unfold [of current] by (simp add: iter_direct_tree_children_def)
    finally show ?thesis
      using split by simp
  qed
qed

lemma get_toposorted_walk: "get_toposorted r = walk r"
  by (simp add: get_toposorted_def get_toposorted_loop_walk)

lemma mset_concat_rev: "mset (concat (map f (rev xs))) = mset (concat (map f xs))"
  by (induction xs) simp_all

lemma mset_walk: "mset (walk c) = mset (subtree c)"
proof (induction c)
  case (Component a cs)
  have "mset (concat (map walk cs)) = mset (concat (map subtree cs))"
    using Component.IH by (induction cs) simp_all
  then show ?case by (simp add: mset_concat_rev)
qed

lemma appears_beforeI: "L = A @ x # B @ y # C \<Longrightarrow> appears_before L x y"
proof (induction A arbitrary: L)
  case Nil
  then show ?case by simp
next
  case (Cons z A)
  then show ?case by (cases "z = x") auto
qed

lemma walk_segment:
  "p \<in> set (walk r) \<Longrightarrow> \<exists>A C. walk r = A @ walk p @ C"
proof (induction r)
  case (Component a cs)
  show ?case
  proof (cases "p = Component a cs")
    case True
    have "walk (Component a cs) = [] @ walk p @ []" using True by simp
    then show ?thesis by blast
  next
    case False
    with Component.prems obtain x where x: "x \<in> set cs" "p \<in> set (walk x)"
      by auto
    from Component.IH [OF x] obtain A C where seg: "walk x = A @ walk p @ C" by blast
    from x(1) have "x \<in> set (rev cs)" by simp
    then obtain us vs where "rev cs = us @ x # vs" by (meson split_list)
    then have "walk (Component a cs)
        = (Component a cs # concat (map walk us) @ A) @ walk p @ (C @ concat (map walk vs))"
      using seg by simp
    then show ?thesis by blast
  qed
qed

lemma before_lift:
  assumes "L = A @ M @ C" "M = A' @ x # B' @ y # C'"
  shows "appears_before L x y"
proof -
  have "L = (A @ A') @ x # B' @ y # (C' @ C)" using assms by simp
  then show ?thesis by (rule appears_beforeI)
qed

lemma parent_before_child:
  assumes "p \<in> set (walk r)" "c \<in> set (tree_children p)"
  shows "appears_before (walk r) p c"
proof -
  from walk_segment [OF assms(1)] obtain A C where seg: "walk r = A @ walk p @ C" by blast
  from assms(2) have "c \<in> set (rev (tree_children p))" by simp
  then obtain us vs where "rev (tree_children p) = us @ c # vs" by (meson split_list)
  then have "walk p = [] @ p # concat (map walk us) @ c # (concat (map walk (rev (tree_children c))) @ concat (map walk vs))"
    using walk_unfold [of p] walk_unfold [of c] by simp
  with seg show ?thesis by (rule before_lift)
qed

lemma later_sibling_first:
  assumes "p \<in> set (walk r)" "tree_children p = xs @ a # ys @ b # zs"
  shows "appears_before (walk r) b a"
proof -
  from walk_segment [OF assms(1)] obtain A C where seg: "walk r = A @ walk p @ C" by blast
  have "walk p = (p # concat (map walk (rev zs))) @ b
      # (concat (map walk (rev (tree_children b))) @ concat (map walk (rev ys))) @ a
      # (concat (map walk (rev (tree_children a))) @ concat (map walk (rev xs)))"
    using walk_unfold [of p] walk_unfold [of a] walk_unfold [of b] assms(2) by simp
  with seg show ?thesis by (rule before_lift)
qed

lemma distinct_walk:
  "distinct (map cid (subtree r)) \<Longrightarrow> distinct (map cid (walk r))"
proof -
  have "mset (map cid (walk r)) = mset (map cid (subtree r))"
    using mset_walk [of r] by (metis mset_map)
  then show "distinct (map cid (subtree r)) \<Longrightarrow> distinct (map cid (walk r))"
    by (metis mset_eq_imp_distinct_iff)
qed

lemma appears_before_mem: "appears_before L x y \<Longrightarrow> x \<in> set L \<and> y \<in> set L"
  by (induction L) (auto split: if_splits)

lemma appears_before_distinct:
  "distinct L \<Longrightarrow> appears_before L x y \<Longrightarrow> \<not> appears_before L y x"
proof (induction L)
  case Nil
  then show ?case by simp
next
  case (Cons z zs)
  show ?case
  proof (cases "z = x")
    case True
    with Cons.prems have y: "y \<in> set zs" "x \<notin> set zs" by auto
    then have "z \<noteq> y" using True by auto
    moreover have "\<not> appears_before zs y x"
      using y(2) appears_before_mem [of zs y x] by blast
    ultimately show ?thesis by simp
  next
    case False
    with Cons.prems have b: "appears_before zs x y" by simp
    show ?thesis
    proof (cases "z = y")
      case True
      from b have "y \<in> set zs" using appears_before_mem by fastforce
      with Cons.prems(1) True show ?thesis by simp
    next
      case False
      with \<open>z \<noteq> x\<close> Cons.IH b Cons.prems(1) show ?thesis by simp
    qed
  qed
qed

lemma distinct_cid_distinct: "distinct (map cid L) \<Longrightarrow> distinct L"
  by (simp add: distinct_map)

lemma example_row_toposorted:
  "get_toposorted example_row = [example_row, plain 3 OtherComponent [], plain 2 OtherComponent []]"
  by (simp add: get_toposorted_walk example_row_def plain_def)

lemma set_walk: "set (walk c) = set (subtree c)"
  using mset_walk [of c] by (metis set_mset_mset)

lemma later_subtree_first:
  assumes "p \<in> set (walk r)" "tree_children p = xs @ a # ys @ b # zs" "d \<in> set (subtree b)"
  shows "appears_before (walk r) d a"
proof -
  from walk_segment [OF assms(1)] obtain A C where seg: "walk r = A @ walk p @ C" by blast
  from assms(3) have "d \<in> set (walk b)" by (simp add: set_walk)
  then obtain U V where b: "walk b = U @ d # V" by (meson split_list)
  have "walk p = p # concat (map walk (rev zs)) @ walk b @ concat (map walk (rev ys))
      @ walk a @ concat (map walk (rev xs))"
    using walk_unfold [of p] assms(2) by simp
  then have "walk p = (p # concat (map walk (rev zs)) @ U) @ d
      # (V @ concat (map walk (rev ys))) @ a
      # (concat (map walk (rev (tree_children a))) @ concat (map walk (rev xs)))"
    using b walk_unfold [of a] by simp
  with seg show ?thesis by (rule before_lift)
qed

lemma example_nested_toposorted:
  "get_toposorted example_nested
     = [example_nested, plain 3 OtherComponent [plain 4 OtherComponent []],
        plain 4 OtherComponent [], plain 2 OtherComponent []]"
  by (simp add: get_toposorted_walk example_nested_def plain_def)

subsection \<open>What a step leaves unchanged\<close>

lemma and_then_Inr:
  "and_then m f = Inr y \<Longrightarrow> \<exists>x. m = Inr x \<and> f x = Inr y"
  by (cases m) (simp_all add: and_then_def)

lemma and_then_InrE:
  assumes "and_then m f = Inr y"
  obtains x where "m = Inr x" "f x = Inr y"
  using and_then_Inr [OF assms] by blast

lemma for_each_append:
  "for_each (xs @ ys) body s = and_then (for_each xs body s) (for_each ys body)"
  by (induction xs arbitrary: s) (simp_all add: and_then_def split: sum.splits)

lemma for_each_invariant:
  assumes "for_each xs body s = Inr s'" and "P s"
    and step: "\<And>x t t'. x \<in> set xs \<Longrightarrow> P t \<Longrightarrow> body t x = Inr t' \<Longrightarrow> P t'"
  shows "P s'"
proof -
  have "for_each ys body s = Inr s' \<Longrightarrow> P s \<Longrightarrow> set ys \<subseteq> set xs \<Longrightarrow> P s'" for ys
  proof (induction ys arbitrary: s)
    case Nil
    then show ?case by simp
  next
    case (Cons y ys)
    from Cons.prems(1) obtain t where t: "body s y = Inr t" "for_each ys body t = Inr s'"
      by (auto split: sum.splits)
    have "P t" using step [of y s t] Cons.prems(2,3) t(1) by simp
    then show ?case
      using Cons.IH [OF t(2)] Cons.prems(3) by simp
  qed
  then show ?thesis using assms(1,2) by blast
qed

lemma frame_refl: "frame i proj s s"
  by (simp add: frame_def)

lemma frame_trans: "frame i proj s t \<Longrightarrow> frame i proj t u \<Longrightarrow> frame i proj s u"
  by (simp add: frame_def)

lemma update_layout_Inr:
  "update_layout s k f = Inr s' \<Longrightarrow>
     \<exists>r. layouts_should s k = Some r \<and> s' = s\<lparr>layouts_should := (layouts_should s)(k \<mapsto> f r)\<rparr>"
  by (auto simp: update_layout_def split: option.splits)

lemma update_layout_frame:
  assumes "update_layout s k f = Inr s'" and "i \<noteq> k \<or> (\<forall>r. proj (f r) = proj r)"
  shows "frame i proj s s'"
  using update_layout_Inr [OF assms(1)] assms(2)
  by (auto simp: frame_def env_def)

lemma for_each_frame:
  assumes "for_each xs body s = Inr s'"
    and "\<And>x t t'. x \<in> set xs \<Longrightarrow> body t x = Inr t' \<Longrightarrow> frame i proj t t'"
  shows "frame i proj s s'"
proof (rule for_each_invariant [OF assms(1), where P = "frame i proj s"])
  show "frame i proj s s" by (rule frame_refl)
next
  fix x t t'
  assume "x \<in> set xs" "frame i proj s t" "body t x = Inr t'"
  then show "frame i proj s t'"
    using assms(2) frame_trans by blast
qed

lemma trust_client_width_step_frame:
  assumes "trust_client_width_step t x = Inr t'"
    and "i \<noteq> cid x \<or> unaffected proj allocated_outer_width_update"
  shows "frame i proj t t'"
proof -
  from assms(1) obtain a :: UnittestComponentLayout where "update_layout t (cid x)
       (\<lambda>child_layout_should. child_layout_should
          \<lparr>allocated_outer_width := allocated_outer_width a\<rparr>) = Inr t'"
    unfolding trust_client_width_step_def by (auto elim!: and_then_InrE)
  then show ?thesis
    using assms(2) by (rule_tac update_layout_frame) (auto simp: unaffected_def)
qed

lemma update_allocated_width_default_frame:
  assumes "update_allocated_width_default s q = Inr s'"
    and "i \<notin> cid ` set (tree_children q) \<or> unaffected proj allocated_outer_width_update"
  shows "frame i proj s s'"
  using assms(1) unfolding update_allocated_width_default_def
proof (rule for_each_frame)
  fix x t t'
  assume "x \<in> set (iter_direct_tree_children q)" "trust_client_width_step t x = Inr t'"
  then show "frame i proj t t'"
    using assms(2) by (intro trust_client_width_step_frame) (auto simp: iter_direct_tree_children_def)
qed

lemma pass_on_width_step_frame:
  assumes "pass_on_width_step q t x = Inr t'"
    and "i \<noteq> cid x \<or> (unaffected proj allocated_outer_width_update
           \<and> unaffected proj left_in_viewport_outer_update)"
  shows "frame i proj t t'"
proof -
  from assms(1) obtain l :: UnittestComponentLayout where "update_layout t (cid x)
       (\<lambda>child_layout. child_layout
          \<lparr>left_in_viewport_outer := left_in_viewport_inner l,
           allocated_outer_width := allocated_inner_width l\<rparr>) = Inr t'"
    unfolding pass_on_width_step_def by (auto elim!: and_then_InrE)
  then show ?thesis
    using assms(2) by (rule_tac update_layout_frame) (auto simp: unaffected_def)
qed

lemma place_width_step_frame:
  assumes "place_width_step q t (x, a, b) = Inr t'"
    and "i \<noteq> cid x \<or> (unaffected proj allocated_outer_width_update
           \<and> unaffected proj left_in_viewport_outer_update)"
  shows "frame i proj t t'"
proof -
  from assms(1) obtain l :: UnittestComponentLayout where "update_layout t (cid x)
       (\<lambda>child_layout. child_layout
          \<lparr>left_in_viewport_outer := left_in_viewport_inner l + a,
           allocated_outer_width := b\<rparr>) = Inr t'"
    unfolding place_width_step_def by (auto elim!: and_then_InrE)
  then show ?thesis
    using assms(2) by (rule_tac update_layout_frame) (auto simp: unaffected_def)
qed

lemma update_allocated_width_Column_frame:
  assumes "update_allocated_width_Column s q = Inr s'"
    and "i \<notin> cid ` set (tree_children q) \<or> (unaffected proj allocated_outer_width_update
           \<and> unaffected proj left_in_viewport_outer_update)"
  shows "frame i proj s s'"
proof -
  from assms(1) have "for_each (iter_direct_children q) (pass_on_width_step q) s = Inr s'"
    unfolding update_allocated_width_Column_def by (auto elim!: and_then_InrE)
  then show ?thesis
  proof (rule for_each_frame)
    fix x t t'
    assume "x \<in> set (iter_direct_children q)" "pass_on_width_step q t x = Inr t'"
    then show "frame i proj t t'"
      using assms(2) by (intro pass_on_width_step_frame) (auto simp: iter_direct_children_def)
  qed
qed

lemma update_allocated_width_SingleContainer_frame:
  assumes "update_allocated_width_SingleContainer s q = Inr s'"
    and "i \<notin> cid ` set (tree_children q) \<or> (unaffected proj allocated_outer_width_update
           \<and> unaffected proj left_in_viewport_outer_update)"
  shows "frame i proj s s'"
proof -
  from assms(1) have "for_each (iter_direct_tree_children q) (pass_on_width_step q) s = Inr s'"
    unfolding update_allocated_width_SingleContainer_def by (auto elim!: and_then_InrE)
  then show ?thesis
  proof (rule for_each_frame)
    fix x t t'
    assume "x \<in> set (iter_direct_tree_children q)" "pass_on_width_step q t x = Inr t'"
    then show "frame i proj t t'"
      using assms(2) by (intro pass_on_width_step_frame) (auto simp: iter_direct_tree_children_def)
  qed
qed

lemma update_allocated_width_Overlay_frame:
  assumes "update_allocated_width_Overlay s q = Inr s'"
    and "i \<notin> cid ` set (tree_children q) \<or> (unaffected proj allocated_outer_width_update
           \<and> unaffected proj left_in_viewport_outer_update)"
  shows "frame i proj s s'"
proof -
  from assms(1) obtain c where c: "content q = Inr c" and u: "update_layout s (cid c)
       (\<lambda>child_layout. child_layout
          \<lparr>left_in_viewport_outer := 0, allocated_outer_width := window_width s\<rparr>) = Inr s'"
    unfolding update_allocated_width_Overlay_def by (auto elim!: and_then_InrE)
  from c have "c \<in> set (tree_children q)"
    by (auto simp: content_def split: list.splits)
  with u show ?thesis
    using assms(2) by (rule_tac update_layout_frame) (auto simp: unaffected_def)
qed

lemma update_allocated_width_Row_frame:
  assumes "update_allocated_width_Row s q = Inr s'"
    and "i \<notin> cid ` set (tree_children q) \<or> (unaffected proj allocated_outer_width_update
           \<and> unaffected proj left_in_viewport_outer_update)"
  shows "frame i proj s s'"
proof -
  from assms(1) obtain ss where
    "for_each (zip (iter_direct_children q) ss) (place_width_step q) s = Inr s'"
    unfolding update_allocated_width_Row_def by (auto elim!: and_then_InrE)
  then show ?thesis
  proof (rule for_each_frame)
    fix x t t'
    assume x: "x \<in> set (zip (iter_direct_children q) ss)"
      and step: "place_width_step q t x = Inr t'"
    obtain child a b where xe: "x = (child, a, b)" by (cases x) auto
    from x xe have "child \<in> set (tree_children q)"
      by (auto simp: iter_direct_children_def dest: set_zip_leftD)
    then show "frame i proj t t'"
      using assms(2) step xe by (intro place_width_step_frame [of q t child a b]) auto
  qed
qed

lemma update_allocated_width_frame:
  assumes "update_allocated_width s q = Inr s'"
    and "i \<notin> cid ` set (tree_children q) \<or> (unaffected proj allocated_outer_width_update
           \<and> (specialized q = Original \<or> unaffected proj left_in_viewport_outer_update))"
  shows "frame i proj s s'"
proof (cases "specialized q")
  case For_SingleContainer
  then show ?thesis
    using assms update_allocated_width_SingleContainer_frame [of s q s' i proj]
    by (auto simp: update_allocated_width_def)
next
  case For_Row
  then show ?thesis
    using assms update_allocated_width_Row_frame [of s q s' i proj]
    by (auto simp: update_allocated_width_def)
next
  case For_Column
  then show ?thesis
    using assms update_allocated_width_Column_frame [of s q s' i proj]
    by (auto simp: update_allocated_width_def)
next
  case For_Overlay
  then show ?thesis
    using assms update_allocated_width_Overlay_frame [of s q s' i proj]
    by (auto simp: update_allocated_width_def)
next
  case Original
  then show ?thesis
    using assms update_allocated_width_default_frame [of s q s' i proj]
    by (auto simp: update_allocated_width_def)
qed

lemma allocated_width_pass_split:
  assumes "allocated_width_pass s q = Inr s'"
  obtains r t where "layouts_should s (cid q) = Some r"
    and "t = s\<lparr>layouts_should := (layouts_should s)(cid q \<mapsto>
           r\<lparr>left_in_viewport_inner := left_in_viewport_outer r
                + fst (calculate_alignment (allocated_outer_width r) (requested_inner_width r)
                    (effective_margin_left (attrs q)) (effective_margin_right (attrs q))
                    (align_x (attrs q))),
              allocated_inner_width :=
                snd (calculate_alignment (allocated_outer_width r) (requested_inner_width r)
                    (effective_margin_left (attrs q)) (effective_margin_right (attrs q))
                    (align_x (attrs q)))\<rparr>)\<rparr>"
    and "update_allocated_width t q = Inr s'"
proof -
  from assms obtain t where t: "update_layout s (cid q)
       (\<lambda>layout.
          let (left, width') = calculate_alignment
                (allocated_outer_width layout) (requested_inner_width layout)
                (effective_margin_left (attrs q))
                (effective_margin_right (attrs q))
                (align_x (attrs q))
          in layout\<lparr>left_in_viewport_inner := left_in_viewport_outer layout + left,
                    allocated_inner_width := width'\<rparr>) = Inr t"
    and u: "update_allocated_width t q = Inr s'"
    unfolding allocated_width_pass_def by (auto elim!: and_then_InrE)
  from update_layout_Inr [OF t] obtain r where "layouts_should s (cid q) = Some r"
    and "t = s\<lparr>layouts_should := (layouts_should s)(cid q \<mapsto>
           (let (left, width') = calculate_alignment
                (allocated_outer_width r) (requested_inner_width r)
                (effective_margin_left (attrs q))
                (effective_margin_right (attrs q))
                (align_x (attrs q))
          in r\<lparr>left_in_viewport_inner := left_in_viewport_outer r + left,
                    allocated_inner_width := width'\<rparr>))\<rparr>"
    by blast
  then show ?thesis
    using u by (intro that [of r t]) (simp_all add: case_prod_unfold Let_def)
qed

lemma allocated_width_pass_frame:
  assumes "allocated_width_pass s q = Inr s'"
    and "i \<noteq> cid q \<or> (unaffected proj left_in_viewport_inner_update
           \<and> unaffected proj allocated_inner_width_update)"
    and "i \<notin> cid ` set (tree_children q) \<or> (unaffected proj allocated_outer_width_update
           \<and> (specialized q = Original \<or> unaffected proj left_in_viewport_outer_update))"
  shows "frame i proj s s'"
proof -
  from assms(1) obtain r t where r: "layouts_should s (cid q) = Some r"
    and t: "t = s\<lparr>layouts_should := (layouts_should s)(cid q \<mapsto>
           r\<lparr>left_in_viewport_inner := left_in_viewport_outer r
                + fst (calculate_alignment (allocated_outer_width r) (requested_inner_width r)
                    (effective_margin_left (attrs q)) (effective_margin_right (attrs q))
                    (align_x (attrs q))),
              allocated_inner_width :=
                snd (calculate_alignment (allocated_outer_width r) (requested_inner_width r)
                    (effective_margin_left (attrs q)) (effective_margin_right (attrs q))
                    (align_x (attrs q)))\<rparr>)\<rparr>"
    and u: "update_allocated_width t q = Inr s'"
    by (rule allocated_width_pass_split)
  have "frame i proj s t"
    using r t assms(2) by (auto simp: frame_def env_def unaffected_def)
  moreover have "frame i proj t s'"
    using u assms(3) by (rule update_allocated_width_frame)
  ultimately show ?thesis by (rule frame_trans)
qed

lemma trust_client_height_step_frame:
  assumes "trust_client_height_step t x = Inr t'"
    and "i \<noteq> cid x \<or> (unaffected proj allocated_outer_height_update
           \<and> unaffected proj left_in_viewport_outer_update
           \<and> unaffected proj top_in_viewport_outer_update)"
  shows "frame i proj t t'"
proof -
  from assms(1) obtain a :: UnittestComponentLayout where "update_layout t (cid x)
       (\<lambda>child_layout_should. child_layout_should
          \<lparr>allocated_outer_height := allocated_outer_height a,
           left_in_viewport_outer := left_in_viewport_outer a,
           top_in_viewport_outer := top_in_viewport_outer a\<rparr>) = Inr t'"
    unfolding trust_client_height_step_def by (auto elim!: and_then_InrE)
  then show ?thesis
    using assms(2) by (rule_tac update_layout_frame) (auto simp: unaffected_def)
qed

lemma update_allocated_height_default_frame:
  assumes "update_allocated_height_default s q = Inr s'"
    and "i \<notin> cid ` set (tree_children q) \<or> (unaffected proj allocated_outer_height_update
           \<and> unaffected proj left_in_viewport_outer_update
           \<and> unaffected proj top_in_viewport_outer_update)"
  shows "frame i proj s s'"
  using assms(1) unfolding update_allocated_height_default_def
proof (rule for_each_frame)
  fix x t t'
  assume "x \<in> set (iter_direct_tree_children q)" "trust_client_height_step t x = Inr t'"
  then show "frame i proj t t'"
    using assms(2) by (intro trust_client_height_step_frame) (auto simp: iter_direct_tree_children_def)
qed

lemma pass_on_height_step_frame:
  assumes "pass_on_height_step q t x = Inr t'"
    and "i \<noteq> cid x \<or> (unaffected proj allocated_outer_height_update
           \<and> unaffected proj top_in_viewport_outer_update)"
  shows "frame i proj t t'"
proof -
  from assms(1) obtain l :: UnittestComponentLayout where "update_layout t (cid x)
       (\<lambda>child_layout. child_layout
          \<lparr>top_in_viewport_outer := top_in_viewport_inner l,
           allocated_outer_height := allocated_inner_height l\<rparr>) = Inr t'"
    unfolding pass_on_height_step_def by (auto elim!: and_then_InrE)
  then show ?thesis
    using assms(2) by (rule_tac update_layout_frame) (auto simp: unaffected_def)
qed

lemma place_height_step_frame:
  assumes "place_height_step q t (x, a, b) = Inr t'"
    and "i \<noteq> cid x \<or> (unaffected proj allocated_outer_height_update
           \<and> unaffected proj top_in_viewport_outer_update)"
  shows "frame i proj t t'"
proof -
  from assms(1) obtain l :: UnittestComponentLayout where "update_layout t (cid x)
       (\<lambda>child_layout. child_layout
          \<lparr>top_in_viewport_outer := top_in_viewport_inner l + a,
           allocated_outer_height := b\<rparr>) = Inr t'"
    unfolding place_height_step_def by (auto elim!: and_then_InrE)
  then show ?thesis
    using assms(2) by (rule_tac update_layout_frame) (auto simp: unaffected_def)
qed

lemma update_allocated_height_Row_frame:
  assumes "update_allocated_height_Row s q = Inr s'"
    and "i \<notin> cid ` set (tree_children q) \<or> (unaffected proj allocated_outer_height_update
           \<and> unaffected proj top_in_viewport_outer_update)"
  shows "frame i proj s s'"
proof -
  from assms(1) have "for_each (iter_direct_children q) (pass_on_height_step q) s = Inr s'"
    unfolding update_allocated_height_Row_def by (auto elim!: and_then_InrE)
  then show ?thesis
  proof (rule for_each_frame)
    fix x t t'
    assume "x \<in> set (iter_direct_children q)" "pass_on_height_step q t x = Inr t'"
    then show "frame i proj t t'"
      using assms(2) by (intro pass_on_height_step_frame) (auto simp: iter_direct_children_def)
  qed
qed

lemma update_allocated_height_SingleContainer_frame:
  assumes "update_allocated_height_SingleContainer s q = Inr s'"
    and "i \<notin> cid ` set (tree_children q) \<or> (unaffected proj allocated_outer_height_update
           \<and> unaffected proj top_in_viewport_outer_update)"
  shows "frame i proj s s'"
proof -
  from assms(1) have "for_each (iter_direct_tree_children q) (pass_on_height_step q) s = Inr s'"
    unfolding update_allocated_height_SingleContainer_def by (auto elim!: and_then_InrE)
  then show ?thesis
  proof (rule for_each_frame)
    fix x t t'
    assume "x \<in> set (iter_direct_tree_children q)" "pass_on_height_step q t x = Inr t'"
    then show "frame i proj t t'"
      using assms(2) by (intro pass_on_height_step_frame) (auto simp: iter_direct_tree_children_def)
  qed
qed

lemma update_allocated_height_Overlay_frame:
  assumes "update_allocated_height_Overlay s q = Inr s'"
    and "i \<notin> cid ` set (tree_children q) \<or> (unaffected proj allocated_outer_height_update
           \<and> unaffected proj top_in_viewport_outer_update)"
  shows "frame i proj s s'"
proof -
  from assms(1) obtain c where c: "content q = Inr c" and u: "update_layout s (cid c)
       (\<lambda>child_layout. child_layout
          \<lparr>top_in_viewport_outer := 0, allocated_outer_height := window_height s\<rparr>) = Inr s'"
    unfolding update_allocated_height_Overlay_def by (auto elim!: and_then_InrE)
  from c have "c \<in> set (tree_children q)"
    by (auto simp: content_def split: list.splits)
  with u show ?thesis
    using assms(2) by (rule_tac update_layout_frame) (auto simp: unaffected_def)
qed

lemma update_allocated_height_Column_frame:
  assumes "update_allocated_height_Column s q = Inr s'"
    and "i \<notin> cid ` set (tree_children q) \<or> (unaffected proj allocated_outer_height_update
           \<and> unaffected proj top_in_viewport_outer_update)"
  shows "frame i proj s s'"
proof -
  from assms(1) obtain ss where
    "for_each (zip (iter_direct_children q) ss) (place_height_step q) s = Inr s'"
    unfolding update_allocated_height_Column_def by (auto elim!: and_then_InrE)
  then show ?thesis
  proof (rule for_each_frame)
    fix x t t'
    assume x: "x \<in> set (zip (iter_direct_children q) ss)"
      and step: "place_height_step q t x = Inr t'"
    obtain child a b where xe: "x = (child, a, b)" by (cases x) auto
    from x xe have "child \<in> set (tree_children q)"
      by (auto simp: iter_direct_children_def dest: set_zip_leftD)
    then show "frame i proj t t'"
      using assms(2) step xe by (intro place_height_step_frame [of q t child a b]) auto
  qed
qed

lemma update_allocated_height_frame:
  assumes "update_allocated_height s q = Inr s'"
    and "i \<notin> cid ` set (tree_children q) \<or> (unaffected proj allocated_outer_height_update
           \<and> unaffected proj top_in_viewport_outer_update
           \<and> (specialized q \<noteq> Original \<or> unaffected proj left_in_viewport_outer_update))"
  shows "frame i proj s s'"
proof (cases "specialized q")
  case For_SingleContainer
  then show ?thesis
    using assms update_allocated_height_SingleContainer_frame [of s q s' i proj]
    by (auto simp: update_allocated_height_def)
next
  case For_Column
  then show ?thesis
    using assms update_allocated_height_Column_frame [of s q s' i proj]
    by (auto simp: update_allocated_height_def)
next
  case For_Row
  then show ?thesis
    using assms update_allocated_height_Row_frame [of s q s' i proj]
    by (auto simp: update_allocated_height_def)
next
  case For_Overlay
  then show ?thesis
    using assms update_allocated_height_Overlay_frame [of s q s' i proj]
    by (auto simp: update_allocated_height_def)
next
  case Original
  then show ?thesis
    using assms update_allocated_height_default_frame [of s q s' i proj]
    by (auto simp: update_allocated_height_def)
qed

lemma allocated_height_pass_split:
  assumes "allocated_height_pass s q = Inr s'"
  obtains r t where "layouts_should s (cid q) = Some r"
    and "t = s\<lparr>layouts_should := (layouts_should s)(cid q \<mapsto>
           r\<lparr>top_in_viewport_inner := top_in_viewport_outer r
                + fst (calculate_alignment (allocated_outer_height r) (requested_inner_height r)
                    (effective_margin_top (attrs q)) (effective_margin_bottom (attrs q))
                    (align_y (attrs q))),
              allocated_inner_height :=
                snd (calculate_alignment (allocated_outer_height r) (requested_inner_height r)
                    (effective_margin_top (attrs q)) (effective_margin_bottom (attrs q))
                    (align_y (attrs q)))\<rparr>)\<rparr>"
    and "update_allocated_height t q = Inr s'"
proof -
  from assms obtain t where t: "update_layout s (cid q)
       (\<lambda>layout.
          let (top', height') = calculate_alignment
                (allocated_outer_height layout) (requested_inner_height layout)
                (effective_margin_top (attrs q))
                (effective_margin_bottom (attrs q))
                (align_y (attrs q))
          in layout\<lparr>top_in_viewport_inner := top_in_viewport_outer layout + top',
                    allocated_inner_height := height'\<rparr>) = Inr t"
    and u: "update_allocated_height t q = Inr s'"
    unfolding allocated_height_pass_def by (auto elim!: and_then_InrE)
  from update_layout_Inr [OF t] obtain r where "layouts_should s (cid q) = Some r"
    and "t = s\<lparr>layouts_should := (layouts_should s)(cid q \<mapsto>
           (let (top', height') = calculate_alignment
                (allocated_outer_height r) (requested_inner_height r)
                (effective_margin_top (attrs q))
                (effective_margin_bottom (attrs q))
                (align_y (attrs q))
          in r\<lparr>top_in_viewport_inner := top_in_viewport_outer r + top',
                    allocated_inner_height := height'\<rparr>))\<rparr>"
    by blast
  then show ?thesis
    using u by (intro that [of r t]) (simp_all add: case_prod_unfold Let_def)
qed

lemma allocated_height_pass_frame:
  assumes "allocated_height_pass s q = Inr s'"
    and "i \<noteq> cid q \<or> (unaffected proj top_in_viewport_inner_update
           \<and> unaffected proj allocated_inner_height_update)"
    and "i \<notin> cid ` set (tree_children q) \<or> (unaffected proj allocated_outer_height_update
           \<and> unaffected proj top_in_viewport_outer_update
           \<and> (specialized q \<noteq> Original \<or> unaffected proj left_in_viewport_outer_update))"
  shows "frame i proj s s'"
proof -
  from assms(1) obtain r t where r: "layouts_should s (cid q) = Some r"
    and t: "t = s\<lparr>layouts_should := (layouts_should s)(cid q \<mapsto>
           r\<lparr>top_in_viewport_inner := top_in_viewport_outer r
                + fst (calculate_alignment (allocated_outer_height r) (requested_inner_height r)
                    (effective_margin_top (attrs q)) (effective_margin_bottom (attrs q))
                    (align_y (attrs q))),
              allocated_inner_height :=
                snd (calculate_alignment (allocated_outer_height r) (requested_inner_height r)
                    (effective_margin_top (attrs q)) (effective_margin_bottom (attrs q))
                    (align_y (attrs q)))\<rparr>)\<rparr>"
    and u: "update_allocated_height t q = Inr s'"
    by (rule allocated_height_pass_split)
  have "frame i proj s t"
    using r t assms(2) by (auto simp: frame_def env_def unaffected_def)
  moreover have "frame i proj t s'"
    using u assms(3) by (rule update_allocated_height_frame)
  ultimately show ?thesis by (rule frame_trans)
qed

lemma frame_env: "frame i proj s s' \<Longrightarrow> env s' = env s"
  by (simp add: frame_def)

lemma frame_value:
  "frame i proj s s' \<Longrightarrow> layouts_should s i = Some r \<Longrightarrow>
     \<exists>r'. layouts_should s' i = Some r' \<and> proj r' = proj r"
  by (auto simp: frame_def)

lemma for_each_establish:
  assumes run: "for_each xs body s = Inr s'" and x: "x \<in> set xs"
    and est: "\<And>t t'. body t x = Inr t' \<Longrightarrow> Q t'"
    and pres: "\<And>y t t'. y \<in> set xs \<Longrightarrow> Q t \<Longrightarrow> body t y = Inr t' \<Longrightarrow> Q t'"
  shows "Q s'"
proof -
  from x obtain us vs where xs: "xs = us @ x # vs" by (meson split_list)
  from run obtain t where t: "for_each us body s = Inr t" "for_each (x # vs) body t = Inr s'"
    unfolding xs for_each_append by (auto elim!: and_then_InrE)
  from t(2) obtain t' where t': "body t x = Inr t'" "for_each vs body t' = Inr s'"
    by (auto split: sum.splits)
  have "Q t'" using est t'(1) by blast
  with t'(2) show ?thesis
    by (rule for_each_invariant) (use pres xs in auto)
qed

lemma max_natural_width_step_frame:
  assumes "max_natural_width_step q t x = Inr t'"
    and "i \<noteq> cid q \<or> unaffected proj natural_width_update"
  shows "frame i proj t t'"
proof -
  from assms(1) obtain l :: UnittestComponentLayout where "update_layout t (cid q)
       (\<lambda>layout. layout\<lparr>natural_width :=
          max (natural_width layout) (requested_outer_width l)\<rparr>) = Inr t'"
    unfolding max_natural_width_step_def by (auto elim!: and_then_InrE)
  then show ?thesis
    using assms(2) by (rule_tac update_layout_frame) (auto simp: unaffected_def)
qed

lemma max_natural_width_loop_frame:
  assumes "and_then (update_layout s (cid q) (\<lambda>layout. layout\<lparr>natural_width := 0\<rparr>))
       (for_each xs (max_natural_width_step q)) = Inr s'"
    and "i \<noteq> cid q \<or> unaffected proj natural_width_update"
  shows "frame i proj s s'"
proof -
  from assms(1) obtain t where t: "update_layout s (cid q) (\<lambda>layout. layout\<lparr>natural_width := 0\<rparr>) = Inr t"
    and l: "for_each xs (max_natural_width_step q) t = Inr s'"
    by (auto elim!: and_then_InrE)
  have "frame i proj s t"
    using t assms(2) by (rule_tac update_layout_frame) (auto simp: unaffected_def)
  moreover have "frame i proj t s'"
    using l
  proof (rule for_each_frame)
    fix x u u'
    assume "max_natural_width_step q u x = Inr u'"
    then show "frame i proj u u'"
      using assms(2) by (rule max_natural_width_step_frame)
  qed
  ultimately show ?thesis by (rule frame_trans)
qed

lemma update_natural_width_default_Inr:
  assumes "update_natural_width_default s q = Inr s'"
  obtains r a where "layouts_should s (cid q) = Some r" "layouts_are s (cid q) = Some a"
    "s' = s\<lparr>layouts_should := (layouts_should s)(cid q \<mapsto> r\<lparr>natural_width := natural_width a\<rparr>)\<rparr>"
  using assms unfolding update_natural_width_default_def
  by (auto elim!: and_then_InrE simp: getitem_def update_layout_def split: option.splits)

lemma update_natural_width_frame:
  assumes "update_natural_width s q = Inr s'"
    and "i \<noteq> cid q \<or> unaffected proj natural_width_update"
  shows "frame i proj s s'"
proof (cases "specialized q")
  case For_SingleContainer
  then show ?thesis
    using assms max_natural_width_loop_frame [of s q "iter_direct_tree_children q" s' i proj]
    by (simp add: update_natural_width_def update_natural_width_SingleContainer_def)
next
  case For_Row
  with assms(1) obtain ws where "update_layout s (cid q)
       (\<lambda>layout. layout\<lparr>natural_width :=
          linear_container_get_major_axis_natural_size ws (spacing (attrs q))\<rparr>) = Inr s'"
    by (auto simp: update_natural_width_def update_natural_width_Row_def elim!: and_then_InrE)
  then show ?thesis
    using assms(2) by (rule_tac update_layout_frame) (auto simp: unaffected_def)
next
  case For_Column
  then show ?thesis
    using assms max_natural_width_loop_frame [of s q "iter_direct_children q" s' i proj]
    by (simp add: update_natural_width_def update_natural_width_Column_def)
next
  case For_Overlay
  with assms(1) have "update_layout s (cid q) (\<lambda>layout. layout\<lparr>natural_width := 0\<rparr>) = Inr s'"
    by (simp add: update_natural_width_def update_natural_width_Overlay_def)
  then show ?thesis
    using assms(2) by (rule_tac update_layout_frame) (auto simp: unaffected_def)
next
  case Original
  with assms(1) have "update_natural_width_default s q = Inr s'"
    by (simp add: update_natural_width_def)
  then show ?thesis
    using assms(2)
    by (elim update_natural_width_default_Inr) (auto simp: frame_def env_def unaffected_def)
qed

lemma max_natural_height_step_frame:
  assumes "max_natural_height_step q t x = Inr t'"
    and "i \<noteq> cid q \<or> unaffected proj natural_height_update"
  shows "frame i proj t t'"
proof -
  from assms(1) obtain l :: UnittestComponentLayout where "update_layout t (cid q)
       (\<lambda>layout. layout\<lparr>natural_height :=
          max (natural_height layout) (requested_outer_height l)\<rparr>) = Inr t'"
    unfolding max_natural_height_step_def by (auto elim!: and_then_InrE)
  then show ?thesis
    using assms(2) by (rule_tac update_layout_frame) (auto simp: unaffected_def)
qed

lemma max_natural_height_loop_frame:
  assumes "and_then (update_layout s (cid q) (\<lambda>layout. layout\<lparr>natural_height := 0\<rparr>))
       (for_each xs (max_natural_height_step q)) = Inr s'"
    and "i \<noteq> cid q \<or> unaffected proj natural_height_update"
  shows "frame i proj s s'"
proof -
  from assms(1) obtain t where t: "update_layout s (cid q) (\<lambda>layout. layout\<lparr>natural_height := 0\<rparr>) = Inr t"
    and l: "for_each xs (max_natural_height_step q) t = Inr s'"
    by (auto elim!: and_then_InrE)
  have "frame i proj s t"
    using t assms(2) by (rule_tac update_layout_frame) (auto simp: unaffected_def)
  moreover have "frame i proj t s'"
    using l
  proof (rule for_each_frame)
    fix x u u'
    assume "max_natural_height_step q u x = Inr u'"
    then show "frame i proj u u'"
      using assms(2) by (rule max_natural_height_step_frame)
  qed
  ultimately show ?thesis by (rule frame_trans)
qed

lemma update_natural_height_default_Inr:
  assumes "update_natural_height_default s q = Inr s'"
  obtains r a where "layouts_should s (cid q) = Some r" "layouts_are s (cid q) = Some a"
    "s' = s\<lparr>layouts_should := (layouts_should s)(cid q \<mapsto> r\<lparr>natural_height := natural_height a\<rparr>)\<rparr>"
  using assms unfolding update_natural_height_default_def
  by (auto elim!: and_then_InrE simp: getitem_def update_layout_def split: option.splits)

lemma update_natural_height_frame:
  assumes "update_natural_height s q = Inr s'"
    and "i \<noteq> cid q \<or> unaffected proj natural_height_update"
  shows "frame i proj s s'"
proof (cases "specialized q")
  case For_SingleContainer
  then show ?thesis
    using assms max_natural_height_loop_frame [of s q "iter_direct_tree_children q" s' i proj]
    by (simp add: update_natural_height_def update_natural_height_SingleContainer_def)
next
  case For_Column
  with assms(1) obtain ws where "update_layout s (cid q)
       (\<lambda>layout. layout\<lparr>natural_height :=
          linear_container_get_major_axis_natural_size ws (spacing (attrs q))\<rparr>) = Inr s'"
    by (auto simp: update_natural_height_def update_natural_height_Column_def elim!: and_then_InrE)
  then show ?thesis
    using assms(2) by (rule_tac update_layout_frame) (auto simp: unaffected_def)
next
  case For_Row
  then show ?thesis
    using assms max_natural_height_loop_frame [of s q "iter_direct_children q" s' i proj]
    by (simp add: update_natural_height_def update_natural_height_Row_def)
next
  case For_Overlay
  with assms(1) have "update_layout s (cid q) (\<lambda>layout. layout\<lparr>natural_height := 0\<rparr>) = Inr s'"
    by (simp add: update_natural_height_def update_natural_height_Overlay_def)
  then show ?thesis
    using assms(2) by (rule_tac update_layout_frame) (auto simp: unaffected_def)
next
  case Original
  with assms(1) have "update_natural_height_default s q = Inr s'"
    by (simp add: update_natural_height_def)
  then show ?thesis
    using assms(2)
    by (elim update_natural_height_default_Inr) (auto simp: frame_def env_def unaffected_def)
qed

lemma natural_width_pass_Inr:
  assumes "natural_width_pass s q = Inr s'"
  obtains t u where
    "update_natural_width (s\<lparr>layouts_should := (layouts_should s)(cid q \<mapsto> new_layout)\<rparr>) q = Inr t"
    "update_layout t (cid q)
       (\<lambda>layout_should. layout_should\<lparr>requested_inner_width :=
          max (natural_width layout_should)
            (case width (attrs q) of Some w \<Rightarrow> w | None \<Rightarrow> 0)\<rparr>) = Inr u"
    "update_layout u (cid q)
       (\<lambda>layout_should. layout_should\<lparr>requested_outer_width :=
          requested_inner_width layout_should
          + effective_margin_left (attrs q)
          + effective_margin_right (attrs q)\<rparr>) = Inr s'"
  using assms unfolding natural_width_pass_def Let_def by (auto elim!: and_then_InrE)

lemma natural_width_pass_tail:
  assumes "natural_width_pass s q = Inr s'"
    and "update_natural_width (s\<lparr>layouts_should := (layouts_should s)(cid q \<mapsto> new_layout)\<rparr>) q = Inr t"
    and "i \<noteq> cid q \<or> (unaffected proj requested_inner_width_update
        \<and> unaffected proj requested_outer_width_update)"
  shows "frame i proj t s'"
proof -
  from assms(1) obtain t' u where t': "update_natural_width
      (s\<lparr>layouts_should := (layouts_should s)(cid q \<mapsto> new_layout)\<rparr>) q = Inr t'"
    and u: "update_layout t' (cid q)
       (\<lambda>layout_should. layout_should\<lparr>requested_inner_width :=
          max (natural_width layout_should)
            (case width (attrs q) of Some w \<Rightarrow> w | None \<Rightarrow> 0)\<rparr>) = Inr u"
    and v: "update_layout u (cid q)
       (\<lambda>layout_should. layout_should\<lparr>requested_outer_width :=
          requested_inner_width layout_should
          + effective_margin_left (attrs q)
          + effective_margin_right (attrs q)\<rparr>) = Inr s'"
    by (rule natural_width_pass_Inr)
  from t' assms(2) have tt: "t' = t" by simp
  have "frame i proj t u"
    using u assms(3) unfolding tt by (rule_tac update_layout_frame) (auto simp: unaffected_def)
  moreover have "frame i proj u s'"
    using v assms(3) by (rule_tac update_layout_frame) (auto simp: unaffected_def)
  ultimately show ?thesis by (rule frame_trans)
qed

lemma natural_width_pass_frame:
  assumes "natural_width_pass s q = Inr s'" and "i \<noteq> cid q"
  shows "frame i proj s s'"
proof -
  from assms(1) obtain t where t: "update_natural_width
      (s\<lparr>layouts_should := (layouts_should s)(cid q \<mapsto> new_layout)\<rparr>) q = Inr t"
    by (auto elim: natural_width_pass_Inr)
  have "frame i proj s (s\<lparr>layouts_should := (layouts_should s)(cid q \<mapsto> new_layout)\<rparr>)"
    using assms(2) by (simp add: frame_def env_def)
  moreover have "frame i proj (s\<lparr>layouts_should := (layouts_should s)(cid q \<mapsto> new_layout)\<rparr>) t"
    using t assms(2) by (intro update_natural_width_frame) auto
  moreover have "frame i proj t s'"
    using assms(1) t by (rule natural_width_pass_tail) (use assms(2) in simp)
  ultimately show ?thesis by (blast intro: frame_trans)
qed

lemma natural_width_pass_fresh:
  assumes "natural_width_pass s q = Inr s'"
    and "unaffected proj natural_width_update" "unaffected proj requested_inner_width_update"
      "unaffected proj requested_outer_width_update"
  shows "env s' = env s \<and> map_option proj (layouts_should s' (cid q)) = Some (proj new_layout)"
proof -
  let ?s0 = "s\<lparr>layouts_should := (layouts_should s)(cid q \<mapsto> new_layout)\<rparr>"
  from assms(1) obtain t where t: "update_natural_width ?s0 q = Inr t"
    by (auto elim: natural_width_pass_Inr)
  have "frame (cid q) proj ?s0 t"
    using t assms(2) by (intro update_natural_width_frame) auto
  moreover have "frame (cid q) proj t s'"
    using assms(1) t by (rule natural_width_pass_tail) (use assms(3,4) in simp)
  ultimately have "frame (cid q) proj ?s0 s'" by (rule frame_trans)
  then show ?thesis by (simp add: frame_def env_def)
qed

lemma natural_height_pass_Inr:
  assumes "natural_height_pass s q = Inr s'"
  obtains t u where
    "update_natural_height s q = Inr t"
    "update_layout t (cid q)
       (\<lambda>layout_should. layout_should\<lparr>requested_inner_height :=
          max (natural_height layout_should)
            (case height (attrs q) of Some h \<Rightarrow> h | None \<Rightarrow> 0)\<rparr>) = Inr u"
    "update_layout u (cid q)
       (\<lambda>layout_should. layout_should\<lparr>requested_outer_height :=
          requested_inner_height layout_should
          + effective_margin_top (attrs q)
          + effective_margin_bottom (attrs q)\<rparr>) = Inr s'"
  using assms unfolding natural_height_pass_def Let_def by (auto elim!: and_then_InrE)

lemma natural_height_pass_tail:
  assumes "natural_height_pass s q = Inr s'"
    and "update_natural_height s q = Inr t"
    and "i \<noteq> cid q \<or> (unaffected proj requested_inner_height_update
        \<and> unaffected proj requested_outer_height_update)"
  shows "frame i proj t s'"
proof -
  from assms(1) obtain t' u where t': "update_natural_height s q = Inr t'"
    and u: "update_layout t' (cid q)
       (\<lambda>layout_should. layout_should\<lparr>requested_inner_height :=
          max (natural_height layout_should)
            (case height (attrs q) of Some h \<Rightarrow> h | None \<Rightarrow> 0)\<rparr>) = Inr u"
    and v: "update_layout u (cid q)
       (\<lambda>layout_should. layout_should\<lparr>requested_outer_height :=
          requested_inner_height layout_should
          + effective_margin_top (attrs q)
          + effective_margin_bottom (attrs q)\<rparr>) = Inr s'"
    by (rule natural_height_pass_Inr)
  from t' assms(2) have tt: "t' = t" by simp
  have "frame i proj t u"
    using u assms(3) unfolding tt by (rule_tac update_layout_frame) (auto simp: unaffected_def)
  moreover have "frame i proj u s'"
    using v assms(3) by (rule_tac update_layout_frame) (auto simp: unaffected_def)
  ultimately show ?thesis by (rule frame_trans)
qed

lemma natural_height_pass_frame:
  assumes "natural_height_pass s q = Inr s'"
    and "i \<noteq> cid q \<or> (unaffected proj natural_height_update
        \<and> unaffected proj requested_inner_height_update
        \<and> unaffected proj requested_outer_height_update)"
  shows "frame i proj s s'"
proof -
  from assms(1) obtain t where t: "update_natural_height s q = Inr t"
    by (auto elim: natural_height_pass_Inr)
  have "frame i proj s t"
    using t assms(2) by (intro update_natural_height_frame) auto
  moreover have "frame i proj t s'"
    using assms(1) t by (rule natural_height_pass_tail) (use assms(2) in auto)
  ultimately show ?thesis by (rule frame_trans)
qed

lemma seed_root_width_frame:
  assumes "seed_root_width s = Inr s'"
    and "i \<noteq> cid (root_component (session s)) \<or> (unaffected proj left_in_viewport_outer_update
        \<and> unaffected proj allocated_outer_width_update)"
  shows "frame i proj s s'"
  using assms unfolding seed_root_width_def
  by (rule_tac update_layout_frame) (auto simp: unaffected_def)

lemma seed_root_height_frame:
  assumes "seed_root_height s = Inr s'"
    and "i \<noteq> cid (root_component (session s)) \<or> (unaffected proj top_in_viewport_outer_update
        \<and> unaffected proj allocated_outer_height_update)"
  shows "frame i proj s s'"
  using assms unfolding seed_root_height_def
  by (rule_tac update_layout_frame) (auto simp: unaffected_def)

subsection \<open>Rows and columns\<close>

lemma collect_Inr:
  "collect f xs = Inr ys \<Longrightarrow> list_all2 (\<lambda>x y. f x = Inr y) xs ys"
  by (induction xs arbitrary: ys) (auto split: sum.splits)

lemma collect_total:
  "(\<And>x. x \<in> set xs \<Longrightarrow> \<exists>y. f x = Inr y) \<Longrightarrow> \<exists>ys. collect f xs = Inr ys"
proof (induction xs)
  case Nil
  show ?case by simp
next
  case (Cons x xs)
  from Cons.prems [of x] obtain y where "f x = Inr y" by auto
  moreover from Cons.IH Cons.prems obtain ys where "collect f xs = Inr ys" by auto
  ultimately show ?case by simp
qed

lemma child_requested_outer_widths_Inr:
  assumes "child_requested_outer_widths s q = Inr ws"
  shows "list_all2 (\<lambda>child w. \<exists>l. layouts_should s (cid child) = Some l \<and> requested_outer_width l = w)
           (tree_children q) ws"
proof -
  have "list_all2 (\<lambda>child w. and_then (getitem (layouts_should s) (cid child))
                (\<lambda>child_layout. Inr (requested_outer_width child_layout)) = Inr w)
           (tree_children q) ws"
    using collect_Inr [OF assms [unfolded child_requested_outer_widths_def]]
    by (simp add: iter_direct_children_def)
  then show ?thesis
    by (rule list_all2_mono) (auto simp: and_then_def getitem_def split: option.splits)
qed

lemma child_requested_outer_widths_total:
  assumes "\<And>x. x \<in> set (tree_children q) \<Longrightarrow> layouts_should s (cid x) \<noteq> None"
  shows "\<exists>ws. child_requested_outer_widths s q = Inr ws"
  unfolding child_requested_outer_widths_def
proof (rule collect_total)
  fix x
  assume "x \<in> set (iter_direct_children q)"
  then obtain l where "layouts_should s (cid x) = Some l"
    using assms [of x] by (auto simp: iter_direct_children_def)
  then show "\<exists>y. and_then (getitem (layouts_should s) (cid x))
                (\<lambda>child_layout. Inr (requested_outer_width child_layout)) = Inr y"
    by (simp add: and_then_def getitem_def)
qed

lemma child_requested_outer_heights_Inr:
  assumes "child_requested_outer_heights s q = Inr ws"
  shows "list_all2 (\<lambda>child w. \<exists>l. layouts_should s (cid child) = Some l \<and> requested_outer_height l = w)
           (tree_children q) ws"
proof -
  have "list_all2 (\<lambda>child w. and_then (getitem (layouts_should s) (cid child))
                (\<lambda>child_layout. Inr (requested_outer_height child_layout)) = Inr w)
           (tree_children q) ws"
    using collect_Inr [OF assms [unfolded child_requested_outer_heights_def]]
    by (simp add: iter_direct_children_def)
  then show ?thesis
    by (rule list_all2_mono) (auto simp: and_then_def getitem_def split: option.splits)
qed

lemma child_requested_outer_heights_total:
  assumes "\<And>x. x \<in> set (tree_children q) \<Longrightarrow> layouts_should s (cid x) \<noteq> None"
  shows "\<exists>ws. child_requested_outer_heights s q = Inr ws"
  unfolding child_requested_outer_heights_def
proof (rule collect_total)
  fix x
  assume "x \<in> set (iter_direct_children q)"
  then obtain l where "layouts_should s (cid x) = Some l"
    using assms [of x] by (auto simp: iter_direct_children_def)
  then show "\<exists>y. and_then (getitem (layouts_should s) (cid x))
                (\<lambda>child_layout. Inr (requested_outer_height child_layout)) = Inr y"
    by (simp add: and_then_def getitem_def)
qed

lemma specialized_Row: "ctype q = Row \<Longrightarrow> specialized q = For_Row"
  by (simp add: specialized_def FULL_SIZE_SINGLE_CONTAINERS_def)

lemma specialized_Column: "ctype q = Column \<Longrightarrow> specialized q = For_Column"
  by (simp add: specialized_def FULL_SIZE_SINGLE_CONTAINERS_def)

lemma specialized_Overlay: "ctype q = Overlay \<Longrightarrow> specialized q = For_Overlay"
  by (simp add: specialized_def FULL_SIZE_SINGLE_CONTAINERS_def)

lemma specialized_Original: "specialized q = Original \<longleftrightarrow> ctype q = OtherComponent"
  by (cases "ctype q") (simp_all add: specialized_def FULL_SIZE_SINGLE_CONTAINERS_def)

lemma update_natural_width_Row_result:
  assumes "update_natural_width_Row s q = Inr s'"
  shows "\<exists>layout ws. layouts_should s' (cid q) = Some layout
     \<and> list_all2 (\<lambda>child w. \<exists>l. layouts_should s (cid child) = Some l \<and> requested_outer_width l = w)
          (tree_children q) ws
     \<and> natural_width layout = sum_list ws + spacing (attrs q) * (real (length ws) - 1)"
proof -
  from assms obtain ws where ws: "child_requested_outer_widths s q = Inr ws"
    and u: "update_layout s (cid q)
       (\<lambda>layout. layout\<lparr>natural_width :=
          linear_container_get_major_axis_natural_size ws (spacing (attrs q))\<rparr>) = Inr s'"
    unfolding update_natural_width_Row_def by (auto elim!: and_then_InrE)
  from update_layout_Inr [OF u] obtain r where
    "s' = s\<lparr>layouts_should := (layouts_should s)(cid q \<mapsto>
        r\<lparr>natural_width := linear_container_get_major_axis_natural_size ws (spacing (attrs q))\<rparr>)\<rparr>"
    by blast
  then show ?thesis
    using child_requested_outer_widths_Inr [OF ws] by (auto simp: natural_size_closed)
qed

lemma update_natural_width_Row_total:
  assumes "layouts_should s (cid q) \<noteq> None"
    and "\<And>x. x \<in> set (tree_children q) \<Longrightarrow> layouts_should s (cid x) \<noteq> None"
  shows "\<exists>s'. update_natural_width_Row s q = Inr s'"
proof -
  from child_requested_outer_widths_total [of q s] assms(2)
  obtain ws where "child_requested_outer_widths s q = Inr ws" by blast
  then show ?thesis
    using assms(1)
    by (auto simp: update_natural_width_Row_def and_then_def getitem_def update_layout_def)
qed

lemma update_natural_height_Column_result:
  assumes "update_natural_height_Column s q = Inr s'"
  shows "\<exists>layout ws. layouts_should s' (cid q) = Some layout
     \<and> list_all2 (\<lambda>child w. \<exists>l. layouts_should s (cid child) = Some l \<and> requested_outer_height l = w)
          (tree_children q) ws
     \<and> natural_height layout = sum_list ws + spacing (attrs q) * (real (length ws) - 1)"
proof -
  from assms obtain ws where ws: "child_requested_outer_heights s q = Inr ws"
    and u: "update_layout s (cid q)
       (\<lambda>layout. layout\<lparr>natural_height :=
          linear_container_get_major_axis_natural_size ws (spacing (attrs q))\<rparr>) = Inr s'"
    unfolding update_natural_height_Column_def by (auto elim!: and_then_InrE)
  from update_layout_Inr [OF u] obtain r where
    "s' = s\<lparr>layouts_should := (layouts_should s)(cid q \<mapsto>
        r\<lparr>natural_height := linear_container_get_major_axis_natural_size ws (spacing (attrs q))\<rparr>)\<rparr>"
    by blast
  then show ?thesis
    using child_requested_outer_heights_Inr [OF ws] by (auto simp: natural_size_closed)
qed

lemma update_natural_height_Column_total:
  assumes "layouts_should s (cid q) \<noteq> None"
    and "\<And>x. x \<in> set (tree_children q) \<Longrightarrow> layouts_should s (cid x) \<noteq> None"
  shows "\<exists>s'. update_natural_height_Column s q = Inr s'"
proof -
  from child_requested_outer_heights_total [of q s] assms(2)
  obtain ws where "child_requested_outer_heights s q = Inr ws" by blast
  then show ?thesis
    using assms(1)
    by (auto simp: update_natural_height_Column_def and_then_def getitem_def update_layout_def)
qed

lemma for_each_total:
  assumes "P s"
    and "\<And>x t. x \<in> set xs \<Longrightarrow> P t \<Longrightarrow> \<exists>t'. body t x = Inr t' \<and> P t'"
  shows "\<exists>s'. for_each xs body s = Inr s'"
proof -
  have "P s \<Longrightarrow> set ys \<subseteq> set xs \<Longrightarrow> \<exists>s'. for_each ys body s = Inr s'" for ys
  proof (induction ys arbitrary: s)
    case Nil
    show ?case by simp
  next
    case (Cons y ys)
    from assms(2) [of y s] Cons.prems obtain t where t: "body s y = Inr t" "P t" by auto
    from Cons.IH [OF t(2)] Cons.prems(2) obtain s' where "for_each ys body t = Inr s'" by auto
    with t(1) show ?case by simp
  qed
  then show ?thesis using assms(1) by blast
qed

lemma for_each_error:
  "for_each xs body s = Inl e \<Longrightarrow> \<exists>x\<in>set xs. \<exists>t. body t x = Inl e"
  by (induction xs arbitrary: s) (auto split: sum.splits)

lemma collect_error:
  "collect f xs = Inl e \<Longrightarrow> \<exists>x\<in>set xs. f x = Inl e"
  by (induction xs) (auto split: sum.splits)

lemma place_width_step_Inr:
  assumes "place_width_step q s (k, a, b) = Inr t"
  obtains rk l where "layouts_should s (cid k) = Some rk" "layouts_should s (cid q) = Some l"
    "t = s\<lparr>layouts_should := (layouts_should s)(cid k \<mapsto>
           rk\<lparr>left_in_viewport_outer := left_in_viewport_inner l + a, allocated_outer_width := b\<rparr>)\<rparr>"
  using assms unfolding place_width_step_def
  by (auto elim!: and_then_InrE simp: getitem_def update_layout_def split: option.splits)

lemma place_width_loop:
  assumes "for_each (zip kids ss) (place_width_step q) s = Inr s'"
    and "length ss = length kids" and "distinct (map cid kids)"
    and "layouts_should s (cid q) = Some layout"
  shows "\<forall>i<length kids. \<exists>l'. layouts_should s' (cid (kids ! i)) = Some l'
        \<and> left_in_viewport_outer l' = left_in_viewport_inner layout + fst (ss ! i)
        \<and> allocated_outer_width l' = snd (ss ! i)"
  using assms
proof (induction kids arbitrary: ss s layout)
  case Nil
  show ?case by simp
next
  case (Cons k ks)
  from Cons.prems(2) obtain a b ss' where ss: "ss = (a, b) # ss'" and len: "length ss' = length ks"
    by (cases ss) auto
  from Cons.prems(1) ss obtain t where step: "place_width_step q s (k, a, b) = Inr t"
    and rest: "for_each (zip ks ss') (place_width_step q) t = Inr s'"
    by (auto split: sum.splits)
  from step Cons.prems(4) obtain rk where rk: "layouts_should s (cid k) = Some rk"
    and t: "t = s\<lparr>layouts_should := (layouts_should s)(cid k \<mapsto>
           rk\<lparr>left_in_viewport_outer := left_in_viewport_inner layout + a, allocated_outer_width := b\<rparr>)\<rparr>"
    by (auto elim!: place_width_step_Inr)
  obtain layout' where l': "layouts_should t (cid q) = Some layout'"
    "left_in_viewport_inner layout' = left_in_viewport_inner layout"
    using t Cons.prems(4) rk by (cases "cid q = cid k") auto
  from Cons.prems(3) have dist: "distinct (map cid ks)" by simp
  have tail: "\<forall>i<length ks. \<exists>l'. layouts_should s' (cid (ks ! i)) = Some l'
        \<and> left_in_viewport_outer l' = left_in_viewport_inner layout + fst (ss' ! i)
        \<and> allocated_outer_width l' = snd (ss' ! i)"
    using Cons.IH [OF rest len dist l'(1)] l'(2) by simp
  have "frame (cid k) (\<lambda>r. r) t s'"
    using rest
  proof (rule for_each_frame)
    fix x u u'
    assume x: "x \<in> set (zip ks ss')" and u: "place_width_step q u x = Inr u'"
    obtain child a' b' where xe: "x = (child, a', b')" by (cases x) auto
    with x have "child \<in> set ks" by (auto dest: set_zip_leftD)
    with Cons.prems(3) have "cid k \<noteq> cid child" by auto
    then show "frame (cid k) (\<lambda>r. r) u u'"
      using u xe by (intro place_width_step_frame [of q u child a' b']) auto
  qed
  then have "layouts_should s' (cid k) = layouts_should t (cid k)"
    by (simp add: frame_def option.map_ident)
  then have head: "\<exists>l'. layouts_should s' (cid k) = Some l'
        \<and> left_in_viewport_outer l' = left_in_viewport_inner layout + a
        \<and> allocated_outer_width l' = b"
    using t by simp
  show ?case
  proof (intro allI impI)
    fix i
    assume "i < length (k # ks)"
    then show "\<exists>l'. layouts_should s' (cid ((k # ks) ! i)) = Some l'
        \<and> left_in_viewport_outer l' = left_in_viewport_inner layout + fst (ss ! i)
        \<and> allocated_outer_width l' = snd (ss ! i)"
      using head tail ss by (cases i) auto
  qed
qed

lemma update_allocated_width_Row_result:
  assumes "update_allocated_width_Row s q = Inr s'"
    and "distinct (map cid (tree_children q))"
  shows "\<exists>layout ws. layouts_should s (cid q) = Some layout
     \<and> list_all2 (\<lambda>child w. \<exists>l. layouts_should s (cid child) = Some l \<and> requested_outer_width l = w)
          (tree_children q) ws
     \<and> (\<forall>i<length (tree_children q). \<exists>l'. layouts_should s' (cid (tree_children q ! i)) = Some l'
          \<and> allocated_outer_width l' = ws ! i
          \<and> left_in_viewport_outer l' = left_in_viewport_inner layout
               + fst (allocated_sizes_loop (spacing (attrs q)) [] 0 ws ! i))"
proof -
  from assms(1) obtain layout ws ss where layout: "layouts_should s (cid q) = Some layout"
    and ws: "child_requested_outer_widths s q = Inr ws"
    and ss: "linear_container_get_major_axis_allocated_sizes
                 (allocated_inner_width layout) ws
                 (spacing (attrs q)) (proportions (attrs q)) = Inr ss"
    and loop: "for_each (zip (tree_children q) ss) (place_width_step q) s = Inr s'"
    unfolding update_allocated_width_Row_def iter_direct_children_def
    by (auto elim!: and_then_InrE simp: getitem_def split: option.splits)
  have all2: "list_all2 (\<lambda>child w. \<exists>l. layouts_should s (cid child) = Some l \<and> requested_outer_width l = w)
          (tree_children q) ws"
    by (rule child_requested_outer_widths_Inr [OF ws])
  then have len: "length ws = length (tree_children q)"
    by (simp add: list_all2_lengthD)
  from ss have sse: "ss = allocated_sizes_loop (spacing (attrs q)) [] 0 ws"
    by (auto simp: linear_container_get_major_axis_allocated_sizes_def split: option.splits)
  then have "length ss = length (tree_children q)"
    using len by (simp add: allocated_sizes_loop_length)
  from place_width_loop [OF loop this assms(2) layout]
  have "\<forall>i<length (tree_children q). \<exists>l'. layouts_should s' (cid (tree_children q ! i)) = Some l'
        \<and> left_in_viewport_outer l' = left_in_viewport_inner layout + fst (ss ! i)
        \<and> allocated_outer_width l' = snd (ss ! i)" .
  moreover have "snd (ss ! i) = ws ! i" if "i < length (tree_children q)" for i
    using that len sse allocated_sizes_loop_snd [of "spacing (attrs q)" 0 ws]
      allocated_sizes_loop_length [of "spacing (attrs q)" 0 ws]
    by (metis nth_map)
  ultimately have "\<forall>i<length (tree_children q). \<exists>l'. layouts_should s' (cid (tree_children q ! i)) = Some l'
          \<and> allocated_outer_width l' = ws ! i
          \<and> left_in_viewport_outer l' = left_in_viewport_inner layout
               + fst (allocated_sizes_loop (spacing (attrs q)) [] 0 ws ! i)"
    using sse by auto
  with layout all2 show ?thesis by blast
qed

lemma update_allocated_width_Row_total:
  assumes "layouts_should s (cid q) \<noteq> None"
    and "\<And>x. x \<in> set (tree_children q) \<Longrightarrow> layouts_should s (cid x) \<noteq> None"
    and "proportions (attrs q) = None"
  shows "\<exists>s'. update_allocated_width_Row s q = Inr s'"
proof -
  from child_requested_outer_widths_total [of q s] assms(2)
  obtain ws where ws: "child_requested_outer_widths s q = Inr ws" by blast
  from assms(1) obtain layout where layout: "layouts_should s (cid q) = Some layout" by auto
  define ss where "ss = allocated_sizes_loop (spacing (attrs q)) [] 0 ws"
  define P where "P t \<longleftrightarrow> (\<forall>x\<in>set (q # tree_children q). layouts_should t (cid x) \<noteq> None)" for t :: Layouter
  have "\<exists>s'. for_each (zip (tree_children q) ss) (place_width_step q) s = Inr s'"
  proof (rule for_each_total [where P = P])
    show "P s" using assms(1,2) by (simp add: P_def)
  next
    fix x t
    assume x: "x \<in> set (zip (tree_children q) ss)" and Pt: "P t"
    obtain child a b where xe: "x = (child, a, b)" by (cases x) auto
    with x have "child \<in> set (tree_children q)" by (auto dest: set_zip_leftD)
    with Pt obtain rk l where "layouts_should t (cid child) = Some rk" "layouts_should t (cid q) = Some l"
      by (auto simp: P_def)
    then show "\<exists>t'. place_width_step q t x = Inr t' \<and> P t'"
      using Pt xe by (auto simp: place_width_step_def and_then_def getitem_def update_layout_def P_def)
  qed
  then show ?thesis
    using ws layout assms(3)
    by (simp add: update_allocated_width_Row_def and_then_def getitem_def ss_def
        linear_container_get_major_axis_allocated_sizes_def iter_direct_children_def)
qed

lemma update_allocated_width_Row_error:
  assumes "update_allocated_width_Row s q = Inl e"
  shows "(\<exists>k. e = KeyError k) \<or> (e = NotImplementedError \<and> proportions (attrs q) \<noteq> None)"
proof -
  have step: "\<exists>k. e = KeyError k" if "place_width_step q t x = Inl e" for t x
    using that unfolding place_width_step_def
    by (auto simp: and_then_def getitem_def update_layout_def split: option.splits prod.splits)
  have coll: "\<exists>k. e = KeyError k" if "child_requested_outer_widths s q = Inl e"
    using collect_error [OF that [unfolded child_requested_outer_widths_def]]
    by (auto simp: and_then_def getitem_def split: option.splits)
  show ?thesis
    using assms step coll
    unfolding update_allocated_width_Row_def
    by (auto simp: and_then_def getitem_def linear_container_get_major_axis_allocated_sizes_def
        split: option.splits sum.splits dest!: for_each_error)
qed

lemma update_allocated_width_Row_unsupported:
  assumes "layouts_should s (cid q) \<noteq> None"
    and "\<And>x. x \<in> set (tree_children q) \<Longrightarrow> layouts_should s (cid x) \<noteq> None"
    and "proportions (attrs q) \<noteq> None"
  shows "update_allocated_width_Row s q = Inl NotImplementedError"
proof -
  from child_requested_outer_widths_total [of q s] assms(2)
  obtain ws where ws: "child_requested_outer_widths s q = Inr ws" by blast
  then show ?thesis
    using assms(1,3)
    by (auto simp: update_allocated_width_Row_def and_then_def getitem_def
        linear_container_get_major_axis_allocated_sizes_def)
qed

lemma place_height_step_Inr:
  assumes "place_height_step q s (k, a, b) = Inr t"
  obtains rk l where "layouts_should s (cid k) = Some rk" "layouts_should s (cid q) = Some l"
    "t = s\<lparr>layouts_should := (layouts_should s)(cid k \<mapsto>
           rk\<lparr>top_in_viewport_outer := top_in_viewport_inner l + a, allocated_outer_height := b\<rparr>)\<rparr>"
  using assms unfolding place_height_step_def
  by (auto elim!: and_then_InrE simp: getitem_def update_layout_def split: option.splits)

lemma place_height_loop:
  assumes "for_each (zip kids ss) (place_height_step q) s = Inr s'"
    and "length ss = length kids" and "distinct (map cid kids)"
    and "layouts_should s (cid q) = Some layout"
  shows "\<forall>i<length kids. \<exists>l'. layouts_should s' (cid (kids ! i)) = Some l'
        \<and> top_in_viewport_outer l' = top_in_viewport_inner layout + fst (ss ! i)
        \<and> allocated_outer_height l' = snd (ss ! i)"
  using assms
proof (induction kids arbitrary: ss s layout)
  case Nil
  show ?case by simp
next
  case (Cons k ks)
  from Cons.prems(2) obtain a b ss' where ss: "ss = (a, b) # ss'" and len: "length ss' = length ks"
    by (cases ss) auto
  from Cons.prems(1) ss obtain t where step: "place_height_step q s (k, a, b) = Inr t"
    and rest: "for_each (zip ks ss') (place_height_step q) t = Inr s'"
    by (auto split: sum.splits)
  from step Cons.prems(4) obtain rk where rk: "layouts_should s (cid k) = Some rk"
    and t: "t = s\<lparr>layouts_should := (layouts_should s)(cid k \<mapsto>
           rk\<lparr>top_in_viewport_outer := top_in_viewport_inner layout + a, allocated_outer_height := b\<rparr>)\<rparr>"
    by (auto elim!: place_height_step_Inr)
  obtain layout' where l': "layouts_should t (cid q) = Some layout'"
    "top_in_viewport_inner layout' = top_in_viewport_inner layout"
    using t Cons.prems(4) rk by (cases "cid q = cid k") auto
  from Cons.prems(3) have dist: "distinct (map cid ks)" by simp
  have tail: "\<forall>i<length ks. \<exists>l'. layouts_should s' (cid (ks ! i)) = Some l'
        \<and> top_in_viewport_outer l' = top_in_viewport_inner layout + fst (ss' ! i)
        \<and> allocated_outer_height l' = snd (ss' ! i)"
    using Cons.IH [OF rest len dist l'(1)] l'(2) by simp
  have "frame (cid k) (\<lambda>r. r) t s'"
    using rest
  proof (rule for_each_frame)
    fix x u u'
    assume x: "x \<in> set (zip ks ss')" and u: "place_height_step q u x = Inr u'"
    obtain child a' b' where xe: "x = (child, a', b')" by (cases x) auto
    with x have "child \<in> set ks" by (auto dest: set_zip_leftD)
    with Cons.prems(3) have "cid k \<noteq> cid child" by auto
    then show "frame (cid k) (\<lambda>r. r) u u'"
      using u xe by (intro place_height_step_frame [of q u child a' b']) auto
  qed
  then have "layouts_should s' (cid k) = layouts_should t (cid k)"
    by (simp add: frame_def option.map_ident)
  then have head: "\<exists>l'. layouts_should s' (cid k) = Some l'
        \<and> top_in_viewport_outer l' = top_in_viewport_inner layout + a
        \<and> allocated_outer_height l' = b"
    using t by simp
  show ?case
  proof (intro allI impI)
    fix i
    assume "i < length (k # ks)"
    then show "\<exists>l'. layouts_should s' (cid ((k # ks) ! i)) = Some l'
        \<and> top_in_viewport_outer l' = top_in_viewport_inner layout + fst (ss ! i)
        \<and> allocated_outer_height l' = snd (ss ! i)"
      using head tail ss by (cases i) auto
  qed
qed

lemma update_allocated_height_Column_result:
  assumes "update_allocated_height_Column s q = Inr s'"
    and "distinct (map cid (tree_children q))"
  shows "\<exists>layout ws. layouts_should s (cid q) = Some layout
     \<and> list_all2 (\<lambda>child w. \<exists>l. layouts_should s (cid child) = Some l \<and> requested_outer_height l = w)
          (tree_children q) ws
     \<and> (\<forall>i<length (tree_children q). \<exists>l'. layouts_should s' (cid (tree_children q ! i)) = Some l'
          \<and> allocated_outer_height l' = ws ! i
          \<and> top_in_viewport_outer l' = top_in_viewport_inner layout
               + fst (allocated_sizes_loop (spacing (attrs q)) [] 0 ws ! i))"
proof -
  from assms(1) obtain layout ws ss where layout: "layouts_should s (cid q) = Some layout"
    and ws: "child_requested_outer_heights s q = Inr ws"
    and ss: "linear_container_get_major_axis_allocated_sizes
                 (allocated_inner_height layout) ws
                 (spacing (attrs q)) (proportions (attrs q)) = Inr ss"
    and loop: "for_each (zip (tree_children q) ss) (place_height_step q) s = Inr s'"
    unfolding update_allocated_height_Column_def iter_direct_children_def
    by (auto elim!: and_then_InrE simp: getitem_def split: option.splits)
  have all2: "list_all2 (\<lambda>child w. \<exists>l. layouts_should s (cid child) = Some l \<and> requested_outer_height l = w)
          (tree_children q) ws"
    by (rule child_requested_outer_heights_Inr [OF ws])
  then have len: "length ws = length (tree_children q)"
    by (simp add: list_all2_lengthD)
  from ss have sse: "ss = allocated_sizes_loop (spacing (attrs q)) [] 0 ws"
    by (auto simp: linear_container_get_major_axis_allocated_sizes_def split: option.splits)
  then have "length ss = length (tree_children q)"
    using len by (simp add: allocated_sizes_loop_length)
  from place_height_loop [OF loop this assms(2) layout]
  have "\<forall>i<length (tree_children q). \<exists>l'. layouts_should s' (cid (tree_children q ! i)) = Some l'
        \<and> top_in_viewport_outer l' = top_in_viewport_inner layout + fst (ss ! i)
        \<and> allocated_outer_height l' = snd (ss ! i)" .
  moreover have "snd (ss ! i) = ws ! i" if "i < length (tree_children q)" for i
    using that len sse allocated_sizes_loop_snd [of "spacing (attrs q)" 0 ws]
      allocated_sizes_loop_length [of "spacing (attrs q)" 0 ws]
    by (metis nth_map)
  ultimately have "\<forall>i<length (tree_children q). \<exists>l'. layouts_should s' (cid (tree_children q ! i)) = Some l'
          \<and> allocated_outer_height l' = ws ! i
          \<and> top_in_viewport_outer l' = top_in_viewport_inner layout
               + fst (allocated_sizes_loop (spacing (attrs q)) [] 0 ws ! i)"
    using sse by auto
  with layout all2 show ?thesis by blast
qed

lemma update_allocated_height_Column_total:
  assumes "layouts_should s (cid q) \<noteq> None"
    and "\<And>x. x \<in> set (tree_children q) \<Longrightarrow> layouts_should s (cid x) \<noteq> None"
    and "proportions (attrs q) = None"
  shows "\<exists>s'. update_allocated_height_Column s q = Inr s'"
proof -
  from child_requested_outer_heights_total [of q s] assms(2)
  obtain ws where ws: "child_requested_outer_heights s q = Inr ws" by blast
  from assms(1) obtain layout where layout: "layouts_should s (cid q) = Some layout" by auto
  define ss where "ss = allocated_sizes_loop (spacing (attrs q)) [] 0 ws"
  define P where "P t \<longleftrightarrow> (\<forall>x\<in>set (q # tree_children q). layouts_should t (cid x) \<noteq> None)" for t :: Layouter
  have "\<exists>s'. for_each (zip (tree_children q) ss) (place_height_step q) s = Inr s'"
  proof (rule for_each_total [where P = P])
    show "P s" using assms(1,2) by (simp add: P_def)
  next
    fix x t
    assume x: "x \<in> set (zip (tree_children q) ss)" and Pt: "P t"
    obtain child a b where xe: "x = (child, a, b)" by (cases x) auto
    with x have "child \<in> set (tree_children q)" by (auto dest: set_zip_leftD)
    with Pt obtain rk l where "layouts_should t (cid child) = Some rk" "layouts_should t (cid q) = Some l"
      by (auto simp: P_def)
    then show "\<exists>t'. place_height_step q t x = Inr t' \<and> P t'"
      using Pt xe by (auto simp: place_height_step_def and_then_def getitem_def update_layout_def P_def)
  qed
  then show ?thesis
    using ws layout assms(3)
    by (simp add: update_allocated_height_Column_def and_then_def getitem_def ss_def
        linear_container_get_major_axis_allocated_sizes_def iter_direct_children_def)
qed

lemma update_allocated_height_Column_error:
  assumes "update_allocated_height_Column s q = Inl e"
  shows "(\<exists>k. e = KeyError k) \<or> (e = NotImplementedError \<and> proportions (attrs q) \<noteq> None)"
proof -
  have step: "\<exists>k. e = KeyError k" if "place_height_step q t x = Inl e" for t x
    using that unfolding place_height_step_def
    by (auto simp: and_then_def getitem_def update_layout_def split: option.splits prod.splits)
  have coll: "\<exists>k. e = KeyError k" if "child_requested_outer_heights s q = Inl e"
    using collect_error [OF that [unfolded child_requested_outer_heights_def]]
    by (auto simp: and_then_def getitem_def split: option.splits)
  show ?thesis
    using assms step coll
    unfolding update_allocated_height_Column_def
    by (auto simp: and_then_def getitem_def linear_container_get_major_axis_allocated_sizes_def
        split: option.splits sum.splits dest!: for_each_error)
qed

lemma update_allocated_height_Column_unsupported:
  assumes "layouts_should s (cid q) \<noteq> None"
    and "\<And>x. x \<in> set (tree_children q) \<Longrightarrow> layouts_should s (cid x) \<noteq> None"
    and "proportions (attrs q) \<noteq> None"
  shows "update_allocated_height_Column s q = Inl NotImplementedError"
proof -
  from child_requested_outer_heights_total [of q s] assms(2)
  obtain ws where ws: "child_requested_outer_heights s q = Inr ws" by blast
  then show ?thesis
    using assms(1,3)
    by (auto simp: update_allocated_height_Column_def and_then_def getitem_def
        linear_container_get_major_axis_allocated_sizes_def)
qed

lemma example_records:
  "\<forall>x\<in>set (example_row # iter_direct_children example_row).
      layouts_should (example_layouter r) (cid x) \<noteq> None"
  "\<forall>x\<in>set (example_column # iter_direct_children example_column).
      layouts_should (example_layouter r) (cid x) \<noteq> None"
  by (simp_all add: example_row_def example_column_def example_layouter_def plain_def
      iter_direct_children_def)

lemma example_widths:
  assumes "list_all2 (\<lambda>child w. \<exists>l. layouts_should (example_layouter r) (cid child) = Some l
              \<and> requested_outer_width l = w) (tree_children example_row) ws"
  shows "ws = [10, 20]"
  using assms
  by (auto simp: example_row_def example_layouter_def plain_def new_layout_def list_all2_Cons1)

lemma example_heights:
  assumes "list_all2 (\<lambda>child w. \<exists>l. layouts_should (example_layouter r) (cid child) = Some l
              \<and> requested_outer_height l = w) (tree_children example_column) ws"
  shows "ws = [10, 20]"
  using assms
  by (auto simp: example_column_def example_layouter_def plain_def new_layout_def list_all2_Cons1)

lemma allocated_sizes_shape:
  "\<exists>ss. linear_container_get_major_axis_allocated_sizes a sizes sp None = Inr ss
     \<and> length ss = length sizes \<and> map snd ss = sizes
     \<and> (sizes \<noteq> [] \<longrightarrow> fst (ss ! 0) = 0)
     \<and> (\<forall>i. Suc i < length sizes \<longrightarrow> fst (ss ! Suc i) = fst (ss ! i) + (sizes ! i + sp))"
  by (simp add: linear_container_get_major_axis_allocated_sizes_def allocated_sizes_loop_length
      allocated_sizes_loop_snd allocated_sizes_loop_first allocated_sizes_loop_next)

lemma placement_Row:
  assumes "update_allocated_width_Row s q = Inr s'" "distinct (map cid (tree_children q))"
  shows "\<exists>layout ws starts. layouts_should s (cid q) = Some layout
     \<and> list_all2 (\<lambda>child w. \<exists>l. layouts_should s (cid child) = Some l
                    \<and> requested_outer_width l = w) (tree_children q) ws
     \<and> length starts = length ws
     \<and> (ws \<noteq> [] \<longrightarrow> starts ! 0 = 0)
     \<and> (\<forall>i. Suc i < length ws \<longrightarrow> starts ! Suc i = starts ! i + (ws ! i + spacing (attrs q)))
     \<and> (\<forall>i<length (tree_children q). \<exists>l'.
           layouts_should s' (cid (tree_children q ! i)) = Some l'
           \<and> allocated_outer_width l' = ws ! i
           \<and> left_in_viewport_outer l' = left_in_viewport_inner layout + starts ! i)"
proof -
  from update_allocated_width_Row_result [OF assms] obtain layout ws where
    a: "layouts_should s (cid q) = Some layout"
    and b: "list_all2 (\<lambda>child w. \<exists>l. layouts_should s (cid child) = Some l
                    \<and> requested_outer_width l = w) (tree_children q) ws"
    and c: "\<forall>i<length (tree_children q). \<exists>l'. layouts_should s' (cid (tree_children q ! i)) = Some l'
          \<and> allocated_outer_width l' = ws ! i
          \<and> left_in_viewport_outer l' = left_in_viewport_inner layout
               + fst (allocated_sizes_loop (spacing (attrs q)) [] 0 ws ! i)"
    by blast
  define starts where "starts = map fst (allocated_sizes_loop (spacing (attrs q)) [] 0 ws)"
  have len: "length starts = length ws"
    by (simp add: starts_def allocated_sizes_loop_length)
  have l2: "length (tree_children q) = length ws"
    using b by (rule list_all2_lengthD)
  have nth: "starts ! i = fst (allocated_sizes_loop (spacing (attrs q)) [] 0 ws ! i)"
    if "i < length ws" for i
    using that by (simp add: starts_def allocated_sizes_loop_length)
  have first: "ws \<noteq> [] \<longrightarrow> starts ! 0 = 0"
    using nth [of 0] allocated_sizes_loop_first [of ws "spacing (attrs q)" 0] by auto
  have next': "\<forall>i. Suc i < length ws \<longrightarrow> starts ! Suc i = starts ! i + (ws ! i + spacing (attrs q))"
    using nth allocated_sizes_loop_next [of _ ws "spacing (attrs q)" 0] by auto
  have "\<forall>i<length (tree_children q). \<exists>l'.
           layouts_should s' (cid (tree_children q ! i)) = Some l'
           \<and> allocated_outer_width l' = ws ! i
           \<and> left_in_viewport_outer l' = left_in_viewport_inner layout + starts ! i"
    using c nth l2 by auto
  with a b len first next' show ?thesis by blast
qed

lemma placement_Column:
  assumes "update_allocated_height_Column s q = Inr s'" "distinct (map cid (tree_children q))"
  shows "\<exists>layout ws starts. layouts_should s (cid q) = Some layout
     \<and> list_all2 (\<lambda>child w. \<exists>l. layouts_should s (cid child) = Some l
                    \<and> requested_outer_height l = w) (tree_children q) ws
     \<and> length starts = length ws
     \<and> (ws \<noteq> [] \<longrightarrow> starts ! 0 = 0)
     \<and> (\<forall>i. Suc i < length ws \<longrightarrow> starts ! Suc i = starts ! i + (ws ! i + spacing (attrs q)))
     \<and> (\<forall>i<length (tree_children q). \<exists>l'.
           layouts_should s' (cid (tree_children q ! i)) = Some l'
           \<and> allocated_outer_height l' = ws ! i
           \<and> top_in_viewport_outer l' = top_in_viewport_inner layout + starts ! i)"
proof -
  from update_allocated_height_Column_result [OF assms] obtain layout ws where
    a: "layouts_should s (cid q) = Some layout"
    and b: "list_all2 (\<lambda>child w. \<exists>l. layouts_should s (cid child) = Some l
                    \<and> requested_outer_height l = w) (tree_children q) ws"
    and c: "\<forall>i<length (tree_children q). \<exists>l'. layouts_should s' (cid (tree_children q ! i)) = Some l'
          \<and> allocated_outer_height l' = ws ! i
          \<and> top_in_viewport_outer l' = top_in_viewport_inner layout
               + fst (allocated_sizes_loop (spacing (attrs q)) [] 0 ws ! i)"
    by blast
  define starts where "starts = map fst (allocated_sizes_loop (spacing (attrs q)) [] 0 ws)"
  have len: "length starts = length ws"
    by (simp add: starts_def allocated_sizes_loop_length)
  have l2: "length (tree_children q) = length ws"
    using b by (rule list_all2_lengthD)
  have nth: "starts ! i = fst (allocated_sizes_loop (spacing (attrs q)) [] 0 ws ! i)"
    if "i < length ws" for i
    using that by (simp add: starts_def allocated_sizes_loop_length)
  have first: "ws \<noteq> [] \<longrightarrow> starts ! 0 = 0"
    using nth [of 0] allocated_sizes_loop_first [of ws "spacing (attrs q)" 0] by auto
  have next': "\<forall>i. Suc i < length ws \<longrightarrow> starts ! Suc i = starts ! i + (ws ! i + spacing (attrs q))"
    using nth allocated_sizes_loop_next [of _ ws "spacing (attrs q)" 0] by auto
  have "\<forall>i<length (tree_children q). \<exists>l'.
           layouts_should s' (cid (tree_children q ! i)) = Some l'
           \<and> allocated_outer_height l' = ws ! i
           \<and> top_in_viewport_outer l' = top_in_viewport_inner layout + starts ! i"
    using c nth l2 by auto
  with a b len first next' show ?thesis by blast
qed

subsection \<open>Trees with distinct ids, and whole passes\<close>

lemma mset_subtree_children:
  "mset (subtree r) = {#r#} + mset (concat (map tree_children (subtree r)))"
proof (induction r)
  case (Component a cs)
  have "mset (concat (map subtree cs))
      = mset cs + mset (concat (map tree_children (concat (map subtree cs))))"
    using Component.IH
  proof (induction cs)
    case Nil
    show ?case by simp
  next
    case (Cons x xs)
    have "mset (subtree x) = {#x#} + mset (concat (map tree_children (subtree x)))"
      using Cons.prems [of x] by simp
    moreover have "mset (concat (map subtree xs))
      = mset xs + mset (concat (map tree_children (concat (map subtree xs))))"
      using Cons.IH Cons.prems by simp
    ultimately show ?case by simp
  qed
  then show ?case by simp
qed

lemma unique_parent_list:
  "distinct (map g (concat (map f L))) \<Longrightarrow> q1 \<in> set L \<Longrightarrow> q2 \<in> set L \<Longrightarrow>
     c1 \<in> set (f q1) \<Longrightarrow> c2 \<in> set (f q2) \<Longrightarrow> g c1 = g c2 \<Longrightarrow> q1 = q2"
proof (induction L)
  case Nil
  then show ?case by simp
next
  case (Cons q L)
  from Cons.prems(1) have d: "distinct (map g (concat (map f L)))"
    and disj: "g ` set (f q) \<inter> g ` set (concat (map f L)) = {}"
    by auto
  show ?case
  proof (cases "q1 = q")
    case True
    show ?thesis
    proof (cases "q2 = q")
      case True
      with \<open>q1 = q\<close> show ?thesis by simp
    next
      case False
      with Cons.prems(3) have "q2 \<in> set L" by simp
      with Cons.prems(5) have "g c2 \<in> g ` set (concat (map f L))" by auto
      moreover have "g c1 \<in> g ` set (f q)" using Cons.prems(4) True by auto
      ultimately show ?thesis using disj Cons.prems(6) by auto
    qed
  next
    case False
    with Cons.prems(2) have q1: "q1 \<in> set L" by simp
    show ?thesis
    proof (cases "q2 = q")
      case True
      from q1 Cons.prems(4) have "g c1 \<in> g ` set (concat (map f L))" by auto
      moreover have "g c2 \<in> g ` set (f q)" using Cons.prems(5) True by auto
      ultimately show ?thesis using disj Cons.prems(6) by auto
    next
      case False
      with Cons.prems(3) have "q2 \<in> set L" by simp
      with q1 d Cons.prems(4,5,6) Cons.IH show ?thesis by blast
    qed
  qed
qed

lemma distinct_children_ids:
  assumes "distinct (map cid (subtree r))"
  shows "distinct (map cid (r # concat (map tree_children (subtree r))))"
proof -
  have "mset (map cid (subtree r)) = mset (map cid (r # concat (map tree_children (subtree r))))"
    using mset_subtree_children [of r] by (metis mset.simps(2) add_mset_add_single union_commute mset_map)
  then show ?thesis using assms by (metis mset_eq_imp_distinct_iff)
qed

lemma unique_parent:
  assumes "distinct (map cid (subtree r))" "q1 \<in> set (subtree r)" "q2 \<in> set (subtree r)"
    "c1 \<in> set (tree_children q1)" "c2 \<in> set (tree_children q2)" "cid c1 = cid c2"
  shows "q1 = q2"
  using distinct_children_ids [OF assms(1)] assms(2-6)
  by (intro unique_parent_list [of cid tree_children "subtree r" q1 q2 c1 c2]) simp_all


lemma child_in_subtree:
  assumes "q \<in> set (subtree r)" "c \<in> set (tree_children q)"
  shows "c \<in> set (subtree r)"
proof -
  from assms have "c \<in># mset (concat (map tree_children (subtree r)))" by auto
  then have "c \<in># mset (subtree r)" by (simp add: mset_subtree_children [of r])
  then show ?thesis by simp
qed

lemma set_get_toposorted: "set (get_toposorted r) = set (subtree r)"
  using mset_walk [of r] by (metis get_toposorted_walk set_mset_mset)

lemma distinct_get_toposorted:
  "distinct (map cid (subtree r)) \<Longrightarrow> distinct (map cid (get_toposorted r))"
  by (simp add: get_toposorted_walk distinct_walk)


lemma for_each_split_at:
  assumes "for_each (us @ x # vs) body s = Inr s'"
  obtains t t' where "for_each us body s = Inr t" "body t x = Inr t'" "for_each vs body t' = Inr s'"
proof -
  from assms obtain t where t: "for_each us body s = Inr t" "for_each (x # vs) body t = Inr s'"
    unfolding for_each_append by (auto elim!: and_then_InrE)
  from t(2) obtain t' where "body t x = Inr t'" "for_each vs body t' = Inr s'"
    by (auto split: sum.splits)
  with t(1) show ?thesis by (rule that)
qed

lemma compute_layouts_should_Inr:
  assumes "compute_layouts_should s0 L = Inr s6"
  obtains s1 s2 s3 s4 s5 where
    "for_each (rev L) natural_width_pass s0 = Inr s1" "seed_root_width s1 = Inr s2"
    "for_each L allocated_width_pass s2 = Inr s3"
    "for_each (rev L) natural_height_pass s3 = Inr s4" "seed_root_height s4 = Inr s5"
    "for_each L allocated_height_pass s5 = Inr s6"
  using assms unfolding compute_layouts_should_def by (auto elim!: and_then_InrE)

lemma natural_width_loop_frame:
  assumes "for_each xs natural_width_pass s = Inr s'" and "i \<notin> cid ` set xs"
  shows "frame i proj s s'"
  using assms(1)
proof (rule for_each_frame)
  fix x t t'
  assume "x \<in> set xs" "natural_width_pass t x = Inr t'"
  then show "frame i proj t t'"
    using assms(2) by (intro natural_width_pass_frame) auto
qed


lemma allocated_width_loop_frame:
  assumes "for_each xs allocated_width_pass s = Inr s'"
    and "\<forall>q\<in>set xs. (i \<noteq> cid q \<or> (unaffected proj left_in_viewport_inner_update
           \<and> unaffected proj allocated_inner_width_update))
         \<and> (i \<notin> cid ` set (tree_children q) \<or> (unaffected proj allocated_outer_width_update
           \<and> (specialized q = Original \<or> unaffected proj left_in_viewport_outer_update)))"
  shows "frame i proj s s'"
  using assms(1)
proof (rule for_each_frame)
  fix x t t'
  assume "x \<in> set xs" "allocated_width_pass t x = Inr t'"
  then show "frame i proj t t'"
    using assms(2) by (intro allocated_width_pass_frame) auto
qed

lemma natural_height_loop_frame:
  assumes "for_each xs natural_height_pass s = Inr s'"
    and "i \<notin> cid ` set xs \<or> (unaffected proj natural_height_update
        \<and> unaffected proj requested_inner_height_update
        \<and> unaffected proj requested_outer_height_update)"
  shows "frame i proj s s'"
  using assms(1)
proof (rule for_each_frame)
  fix x t t'
  assume "x \<in> set xs" "natural_height_pass t x = Inr t'"
  then show "frame i proj t t'"
    using assms(2) by (intro natural_height_pass_frame) auto
qed

lemma allocated_height_loop_frame:
  assumes "for_each xs allocated_height_pass s = Inr s'"
    and "\<forall>q\<in>set xs. (i \<noteq> cid q \<or> (unaffected proj top_in_viewport_inner_update
           \<and> unaffected proj allocated_inner_height_update))
         \<and> (i \<notin> cid ` set (tree_children q) \<or> (unaffected proj allocated_outer_height_update
           \<and> unaffected proj top_in_viewport_outer_update
           \<and> (specialized q \<noteq> Original \<or> unaffected proj left_in_viewport_outer_update)))"
  shows "frame i proj s s'"
  using assms(1)
proof (rule for_each_frame)
  fix x t t'
  assume "x \<in> set xs" "allocated_height_pass t x = Inr t'"
  then show "frame i proj t t'"
    using assms(2) by (intro allocated_height_pass_frame) auto
qed

subsection \<open>What the steps assign\<close>

lemma env_layouts_are: "env s' = env s \<Longrightarrow> layouts_are s' = layouts_are s"
  by (simp add: env_def)

lemma env_window: "env s' = env s \<Longrightarrow> window_width s' = window_width s \<and> window_height s' = window_height s"
  by (simp add: env_def)


lemma allocated_width_pass_env_split:
  assumes "allocated_width_pass s p = Inr s'"
  obtains t where "env t = env s" "update_allocated_width t p = Inr s'"
proof -
  from assms obtain r t where
    "t = s\<lparr>layouts_should := (layouts_should s)(cid p \<mapsto>
           r\<lparr>left_in_viewport_inner := left_in_viewport_outer r
                + fst (calculate_alignment (allocated_outer_width r) (requested_inner_width r)
                    (effective_margin_left (attrs p)) (effective_margin_right (attrs p))
                    (align_x (attrs p))),
              allocated_inner_width :=
                snd (calculate_alignment (allocated_outer_width r) (requested_inner_width r)
                    (effective_margin_left (attrs p)) (effective_margin_right (attrs p))
                    (align_x (attrs p)))\<rparr>)\<rparr>"
    and u: "update_allocated_width t p = Inr s'"
    by (rule allocated_width_pass_split)
  then have "env t = env s" by (simp add: env_def)
  then show ?thesis using u by (rule that)
qed

lemma allocated_height_pass_env_split:
  assumes "allocated_height_pass s p = Inr s'"
  obtains t where "env t = env s" "update_allocated_height t p = Inr s'"
proof -
  from assms obtain r t where
    "t = s\<lparr>layouts_should := (layouts_should s)(cid p \<mapsto>
           r\<lparr>top_in_viewport_inner := top_in_viewport_outer r
                + fst (calculate_alignment (allocated_outer_height r) (requested_inner_height r)
                    (effective_margin_top (attrs p)) (effective_margin_bottom (attrs p))
                    (align_y (attrs p))),
              allocated_inner_height :=
                snd (calculate_alignment (allocated_outer_height r) (requested_inner_height r)
                    (effective_margin_top (attrs p)) (effective_margin_bottom (attrs p))
                    (align_y (attrs p)))\<rparr>)\<rparr>"
    and u: "update_allocated_height t p = Inr s'"
    by (rule allocated_height_pass_split)
  then have "env t = env s" by (simp add: env_def)
  then show ?thesis using u by (rule that)
qed

lemma natural_width_pass_default:
  assumes "natural_width_pass s p = Inr s'" "specialized p = Original"
  shows "\<exists>r a. layouts_should s' (cid p) = Some r \<and> layouts_are s (cid p) = Some a
     \<and> natural_width r = natural_width a"
proof -
  let ?s0 = "s\<lparr>layouts_should := (layouts_should s)(cid p \<mapsto> new_layout)\<rparr>"
  from assms(1) obtain t where t: "update_natural_width ?s0 p = Inr t"
    by (auto elim: natural_width_pass_Inr)
  with assms(2) have "update_natural_width_default ?s0 p = Inr t"
    by (simp add: update_natural_width_def)
  then obtain r a where a: "layouts_are ?s0 (cid p) = Some a"
    and te: "t = ?s0\<lparr>layouts_should := (layouts_should ?s0)(cid p \<mapsto> r\<lparr>natural_width := natural_width a\<rparr>)\<rparr>"
    by (rule update_natural_width_default_Inr)
  have "frame (cid p) natural_width t s'"
    using assms(1) t by (rule natural_width_pass_tail) (simp add: unaffected_def)
  then have "map_option natural_width (layouts_should s' (cid p)) = Some (natural_width a)"
    using te by (simp add: frame_def)
  then show ?thesis using a by auto
qed

lemma natural_height_pass_default:
  assumes "natural_height_pass s p = Inr s'" "specialized p = Original"
  shows "\<exists>r a. layouts_should s' (cid p) = Some r \<and> layouts_are s (cid p) = Some a
     \<and> natural_height r = natural_height a"
proof -
  from assms(1) obtain t where t: "update_natural_height s p = Inr t"
    by (auto elim: natural_height_pass_Inr)
  with assms(2) have "update_natural_height_default s p = Inr t"
    by (simp add: update_natural_height_def)
  then obtain r a where a: "layouts_are s (cid p) = Some a"
    and te: "t = s\<lparr>layouts_should := (layouts_should s)(cid p \<mapsto> r\<lparr>natural_height := natural_height a\<rparr>)\<rparr>"
    by (rule update_natural_height_default_Inr)
  have "frame (cid p) natural_height t s'"
    using assms(1) t by (rule natural_height_pass_tail) (simp add: unaffected_def)
  then have "map_option natural_height (layouts_should s' (cid p)) = Some (natural_height a)"
    using te by (simp add: frame_def)
  then show ?thesis using a by auto
qed

lemma trust_client_width_step_Inr:
  assumes "trust_client_width_step u y = Inr u'"
  obtains r a where "layouts_should u (cid y) = Some r" "layouts_are u (cid y) = Some a"
    "u' = u\<lparr>layouts_should := (layouts_should u)(cid y \<mapsto>
            r\<lparr>allocated_outer_width := allocated_outer_width a\<rparr>)\<rparr>"
  using assms unfolding trust_client_width_step_def
  by (auto elim!: and_then_InrE simp: getitem_def update_layout_def split: option.splits)

lemma trust_client_height_step_Inr:
  assumes "trust_client_height_step u y = Inr u'"
  obtains r a where "layouts_should u (cid y) = Some r" "layouts_are u (cid y) = Some a"
    "u' = u\<lparr>layouts_should := (layouts_should u)(cid y \<mapsto>
            r\<lparr>allocated_outer_height := allocated_outer_height a,
              left_in_viewport_outer := left_in_viewport_outer a,
              top_in_viewport_outer := top_in_viewport_outer a\<rparr>)\<rparr>"
  using assms unfolding trust_client_height_step_def
  by (auto elim!: and_then_InrE simp: getitem_def update_layout_def split: option.splits)

lemma allocated_width_pass_default:
  assumes "allocated_width_pass s p = Inr s'" "specialized p = Original"
    "c \<in> set (tree_children p)"
  shows "\<exists>r a. layouts_should s' (cid c) = Some r \<and> layouts_are s (cid c) = Some a
     \<and> allocated_outer_width r = allocated_outer_width a"
proof -
  define Q where "Q u \<longleftrightarrow> (\<exists>r a. layouts_should u (cid c) = Some r \<and> layouts_are u (cid c) = Some a
     \<and> allocated_outer_width r = allocated_outer_width a)" for u :: Layouter
  from assms(1) obtain t where "env t = env s"
    and u: "update_allocated_width t p = Inr s'"
    by (rule allocated_width_pass_env_split)
  then have t: "layouts_are t = layouts_are s" by (simp add: env_def)
  from u assms(2) have loop: "for_each (tree_children p) trust_client_width_step t = Inr s'"
    by (simp add: update_allocated_width_def update_allocated_width_default_def
        iter_direct_tree_children_def)
  have "Q s'"
    using loop assms(3)
  proof (rule for_each_establish)
    fix u u'
    assume "trust_client_width_step u c = Inr u'"
    then show "Q u'"
      by (elim trust_client_width_step_Inr) (simp add: Q_def)
  next
    fix y u u'
    assume "Q u" "trust_client_width_step u y = Inr u'"
    then show "Q u'"
      by (elim trust_client_width_step_Inr) (auto simp: Q_def)
  qed
  moreover have "layouts_are s' = layouts_are t"
    using update_allocated_width_frame [OF u, of "cid p" "\<lambda>r. ()"]
    by (simp add: unaffected_def frame_def env_def)
  ultimately show ?thesis using t by (simp add: Q_def)
qed

lemma allocated_height_pass_default:
  assumes "allocated_height_pass s p = Inr s'" "specialized p = Original"
    "c \<in> set (tree_children p)"
  shows "\<exists>r a. layouts_should s' (cid c) = Some r \<and> layouts_are s (cid c) = Some a
     \<and> allocated_outer_height r = allocated_outer_height a
     \<and> left_in_viewport_outer r = left_in_viewport_outer a
     \<and> top_in_viewport_outer r = top_in_viewport_outer a"
proof -
  define Q where "Q u \<longleftrightarrow> (\<exists>r a. layouts_should u (cid c) = Some r \<and> layouts_are u (cid c) = Some a
     \<and> allocated_outer_height r = allocated_outer_height a
     \<and> left_in_viewport_outer r = left_in_viewport_outer a
     \<and> top_in_viewport_outer r = top_in_viewport_outer a)" for u :: Layouter
  from assms(1) obtain t where "env t = env s"
    and u: "update_allocated_height t p = Inr s'"
    by (rule allocated_height_pass_env_split)
  then have t: "layouts_are t = layouts_are s" by (simp add: env_def)
  from u assms(2) have loop: "for_each (tree_children p) trust_client_height_step t = Inr s'"
    by (simp add: update_allocated_height_def update_allocated_height_default_def
        iter_direct_tree_children_def)
  have "Q s'"
    using loop assms(3)
  proof (rule for_each_establish)
    fix u u'
    assume "trust_client_height_step u c = Inr u'"
    then show "Q u'"
      by (elim trust_client_height_step_Inr) (simp add: Q_def)
  next
    fix y u u'
    assume "Q u" "trust_client_height_step u y = Inr u'"
    then show "Q u'"
      by (elim trust_client_height_step_Inr) (auto simp: Q_def)
  qed
  moreover have "layouts_are s' = layouts_are t"
    using update_allocated_height_frame [OF u, of "cid p" "\<lambda>r. ()"]
    by (simp add: unaffected_def frame_def env_def)
  ultimately show ?thesis using t by (simp add: Q_def)
qed

lemma allocated_width_pass_Overlay:
  assumes "allocated_width_pass s p = Inr s'" "specialized p = For_Overlay"
    "c \<in> set (tree_children p)"
  shows "\<exists>r. layouts_should s' (cid c) = Some r
     \<and> allocated_outer_width r = window_width s \<and> left_in_viewport_outer r = 0"
proof -
  from assms(1) obtain t where "env t = env s"
    and u: "update_allocated_width t p = Inr s'"
    by (rule allocated_width_pass_env_split)
  then have t: "window_width t = window_width s" by (simp add: env_def)
  from u assms(2) obtain c' where c': "content p = Inr c'"
    and up: "update_layout t (cid c')
       (\<lambda>child_layout. child_layout
          \<lparr>left_in_viewport_outer := 0, allocated_outer_width := window_width t\<rparr>) = Inr s'"
    by (auto simp: update_allocated_width_def update_allocated_width_Overlay_def
        elim!: and_then_InrE)
  from c' assms(3) have "c' = c"
    by (auto simp: content_def split: list.splits)
  with update_layout_Inr [OF up] t show ?thesis by auto
qed

lemma allocated_height_pass_Overlay:
  assumes "allocated_height_pass s p = Inr s'" "specialized p = For_Overlay"
    "c \<in> set (tree_children p)"
  shows "\<exists>r. layouts_should s' (cid c) = Some r
     \<and> allocated_outer_height r = window_height s \<and> top_in_viewport_outer r = 0"
proof -
  from assms(1) obtain t where "env t = env s"
    and u: "update_allocated_height t p = Inr s'"
    by (rule allocated_height_pass_env_split)
  then have t: "window_height t = window_height s" by (simp add: env_def)
  from u assms(2) obtain c' where c': "content p = Inr c'"
    and up: "update_layout t (cid c')
       (\<lambda>child_layout. child_layout
          \<lparr>top_in_viewport_outer := 0, allocated_outer_height := window_height t\<rparr>) = Inr s'"
    by (auto simp: update_allocated_height_def update_allocated_height_Overlay_def
        elim!: and_then_InrE)
  from c' assms(3) have "c' = c"
    by (auto simp: content_def split: list.splits)
  with update_layout_Inr [OF up] t show ?thesis by auto
qed


subsection \<open>A whole run\<close>

lemma unaffected_unit: "unaffected (\<lambda>r. ()) upd"
  by (simp add: unaffected_def)

lemma natural_width_loop_env:
  assumes "for_each xs natural_width_pass s = Inr s'"
  shows "env s' = env s"
  using assms
proof (rule for_each_invariant [where P = "\<lambda>u. env u = env s"])
  show "env s = env s" by simp
next
  fix x t t'
  assume "env t = env s" "natural_width_pass t x = Inr t'"
  then show "env t' = env s"
    using natural_width_pass_fresh [of t x t' "\<lambda>r. ()"] by (simp add: unaffected_unit)
qed

lemma run_env:
  assumes "for_each (rev L) natural_width_pass s0 = Inr s1" "seed_root_width s1 = Inr s2"
    "for_each L allocated_width_pass s2 = Inr s3"
    "for_each (rev L) natural_height_pass s3 = Inr s4" "seed_root_height s4 = Inr s5"
    "for_each L allocated_height_pass s5 = Inr s6"
  shows "env s1 = env s0" "env s2 = env s0" "env s3 = env s0" "env s4 = env s0"
    "env s5 = env s0" "env s6 = env s0"
proof -
  show 1: "env s1 = env s0" by (rule natural_width_loop_env [OF assms(1)])
  have "frame 0 (\<lambda>r. ()) s1 s2"
    using assms(2) by (rule seed_root_width_frame) (simp add: unaffected_unit)
  then show 2: "env s2 = env s0" using 1 by (simp add: frame_def)
  have "frame 0 (\<lambda>r. ()) s2 s3"
    using assms(3) by (rule allocated_width_loop_frame) (simp add: unaffected_unit)
  then show 3: "env s3 = env s0" using 2 by (simp add: frame_def)
  have "frame 0 (\<lambda>r. ()) s3 s4"
    using assms(4) by (rule natural_height_loop_frame) (simp add: unaffected_unit)
  then show 4: "env s4 = env s0" using 3 by (simp add: frame_def)
  have "frame 0 (\<lambda>r. ()) s4 s5"
    using assms(5) by (rule seed_root_height_frame) (simp add: unaffected_unit)
  then show 5: "env s5 = env s0" using 4 by (simp add: frame_def)
  have "frame 0 (\<lambda>r. ()) s5 s6"
    using assms(6) by (rule allocated_height_loop_frame) (simp add: unaffected_unit)
  then show "env s6 = env s0" using 5 by (simp add: frame_def)
qed

lemma frame_after_width:
  assumes "for_each (rev L) natural_height_pass s3 = Inr s4" "seed_root_height s4 = Inr s5"
    "for_each L allocated_height_pass s5 = Inr s6"
    and "unaffected proj natural_height_update" "unaffected proj requested_inner_height_update"
      "unaffected proj requested_outer_height_update" "unaffected proj top_in_viewport_outer_update"
      "unaffected proj allocated_outer_height_update" "unaffected proj top_in_viewport_inner_update"
      "unaffected proj allocated_inner_height_update"
    and "(\<forall>q\<in>set L. i \<notin> cid ` set (tree_children q) \<or> specialized q \<noteq> Original)
         \<or> unaffected proj left_in_viewport_outer_update"
  shows "frame i proj s3 s6"
proof -
  have "frame i proj s3 s4"
    using assms(1) by (rule natural_height_loop_frame) (simp add: assms)
  moreover have "frame i proj s4 s5"
    using assms(2) by (rule seed_root_height_frame) (simp add: assms)
  moreover have "frame i proj s5 s6"
    using assms(3) by (rule allocated_height_loop_frame) (use assms(4-11) in auto)
  ultimately show ?thesis by (blast intro: frame_trans)
qed

lemma frame_after_natural_width:
  assumes "seed_root_width s1 = Inr s2" "for_each L allocated_width_pass s2 = Inr s3"
    "for_each (rev L) natural_height_pass s3 = Inr s4" "seed_root_height s4 = Inr s5"
    "for_each L allocated_height_pass s5 = Inr s6"
    and "unaffected proj left_in_viewport_outer_update" "unaffected proj allocated_outer_width_update"
      "unaffected proj left_in_viewport_inner_update" "unaffected proj allocated_inner_width_update"
    and "unaffected proj natural_height_update" "unaffected proj requested_inner_height_update"
      "unaffected proj requested_outer_height_update" "unaffected proj top_in_viewport_outer_update"
      "unaffected proj allocated_outer_height_update" "unaffected proj top_in_viewport_inner_update"
      "unaffected proj allocated_inner_height_update"
  shows "frame i proj s1 s6"
proof -
  have "frame i proj s1 s2"
    using assms(1) by (rule seed_root_width_frame) (simp add: assms)
  moreover have "frame i proj s2 s3"
    using assms(2) by (rule allocated_width_loop_frame) (simp add: assms)
  moreover have "frame i proj s3 s6"
    using assms(3,4,5) by (rule frame_after_width) (simp_all add: assms)
  ultimately show ?thesis by (blast intro: frame_trans)
qed

text \<open>In a tree with distinct ids, only the parent of a child assigns to the child.\<close>

lemma not_child_of_other:
  assumes "distinct (map cid (subtree r))" "p \<in> set (subtree r)" "c \<in> set (tree_children p)"
    "q \<in> set (subtree r)" "q \<noteq> p"
  shows "cid c \<notin> cid ` set (tree_children q)"
proof
  assume "cid c \<in> cid ` set (tree_children q)"
  then obtain c' where "c' \<in> set (tree_children q)" "cid c' = cid c" by auto
  with unique_parent [OF assms(1) assms(4) assms(2) _ assms(3)] have "q = p" by simp
  with assms(5) show False by simp
qed

lemma split_distinct:
  assumes "distinct (map cid (us @ x # vs))"
  shows "x \<notin> set us" "x \<notin> set vs" "cid x \<notin> cid ` set us" "cid x \<notin> cid ` set vs"
  using assms by auto

lemma run_default_natural_width:
  assumes run: "for_each (rev L) natural_width_pass s0 = Inr s1" "seed_root_width s1 = Inr s2"
    "for_each L allocated_width_pass s2 = Inr s3"
    "for_each (rev L) natural_height_pass s3 = Inr s4" "seed_root_height s4 = Inr s5"
    "for_each L allocated_height_pass s5 = Inr s6"
    and d: "distinct (map cid L)" and p: "p \<in> set L" and o: "specialized p = Original"
  shows "\<exists>a. layouts_are s0 (cid p) = Some a
     \<and> map_option natural_width (layouts_should s6 (cid p)) = Some (natural_width a)"
proof -
  from p obtain us vs where split: "rev L = us @ p # vs"
    by (metis set_rev split_list)
  from d have "distinct (map cid (rev L))" by (simp add: rev_map [symmetric])
  then have nv: "cid p \<notin> cid ` set vs" unfolding split by auto
  from run(1) obtain t t' where t: "for_each us natural_width_pass s0 = Inr t"
    and step: "natural_width_pass t p = Inr t'"
    and rest: "for_each vs natural_width_pass t' = Inr s1"
    unfolding split by (rule for_each_split_at)
  from natural_width_pass_default [OF step o] obtain r a where
    r: "layouts_should t' (cid p) = Some r" "layouts_are t (cid p) = Some a"
    "natural_width r = natural_width a"
    by blast
  have "layouts_are t = layouts_are s0"
    using natural_width_loop_env [OF t] by (rule env_layouts_are)
  then have a: "layouts_are s0 (cid p) = Some a" using r(2) by simp
  have "frame (cid p) natural_width t' s1"
    using rest nv by (rule natural_width_loop_frame)
  moreover have "frame (cid p) natural_width s1 s6"
    using run(2-6) by (rule frame_after_natural_width) (simp_all add: unaffected_def)
  ultimately have "frame (cid p) natural_width t' s6" by (rule frame_trans)
  then have "map_option natural_width (layouts_should s6 (cid p)) = Some (natural_width a)"
    using r(1,3) by (simp add: frame_def)
  with a show ?thesis by blast
qed

lemma run_default_natural_height:
  assumes run: "for_each (rev L) natural_width_pass s0 = Inr s1" "seed_root_width s1 = Inr s2"
    "for_each L allocated_width_pass s2 = Inr s3"
    "for_each (rev L) natural_height_pass s3 = Inr s4" "seed_root_height s4 = Inr s5"
    "for_each L allocated_height_pass s5 = Inr s6"
    and d: "distinct (map cid L)" and p: "p \<in> set L" and o: "specialized p = Original"
  shows "\<exists>a. layouts_are s0 (cid p) = Some a
     \<and> map_option natural_height (layouts_should s6 (cid p)) = Some (natural_height a)"
proof -
  from p obtain us vs where split: "rev L = us @ p # vs"
    by (metis set_rev split_list)
  from d have "distinct (map cid (rev L))" by (simp add: rev_map [symmetric])
  then have nv: "cid p \<notin> cid ` set vs" unfolding split by auto
  from run(4) obtain t t' where t: "for_each us natural_height_pass s3 = Inr t"
    and step: "natural_height_pass t p = Inr t'"
    and rest: "for_each vs natural_height_pass t' = Inr s4"
    unfolding split by (rule for_each_split_at)
  from natural_height_pass_default [OF step o] obtain r a where
    r: "layouts_should t' (cid p) = Some r" "layouts_are t (cid p) = Some a"
    "natural_height r = natural_height a"
    by blast
  have "frame 0 (\<lambda>r. ()) s3 t"
    using t by (rule natural_height_loop_frame) (simp add: unaffected_unit)
  then have "env t = env s0" using run_env(3) [OF run] by (simp add: frame_def)
  then have "layouts_are t = layouts_are s0" by (rule env_layouts_are)
  then have a: "layouts_are s0 (cid p) = Some a" using r(2) by simp
  have "frame (cid p) natural_height t' s4"
    using rest by (rule natural_height_loop_frame) (use nv in simp)
  moreover have "frame (cid p) natural_height s4 s5"
    using run(5) by (rule seed_root_height_frame) (simp add: unaffected_def)
  moreover have "frame (cid p) natural_height s5 s6"
    using run(6) by (rule allocated_height_loop_frame) (simp add: unaffected_def)
  ultimately have "frame (cid p) natural_height t' s6" by (blast intro: frame_trans)
  then have "map_option natural_height (layouts_should s6 (cid p)) = Some (natural_height a)"
    using r(1,3) by (simp add: frame_def)
  with a show ?thesis by blast
qed

lemma run_default_child_width:
  assumes run: "for_each (rev L) natural_width_pass s0 = Inr s1" "seed_root_width s1 = Inr s2"
    "for_each L allocated_width_pass s2 = Inr s3"
    "for_each (rev L) natural_height_pass s3 = Inr s4" "seed_root_height s4 = Inr s5"
    "for_each L allocated_height_pass s5 = Inr s6"
    and dt: "distinct (map cid (subtree r))" and sub: "set L = set (subtree r)"
    and d: "distinct (map cid L)" and p: "p \<in> set L" and o: "specialized p = Original"
    and c: "c \<in> set (tree_children p)"
  shows "\<exists>a. layouts_are s0 (cid c) = Some a
     \<and> map_option allocated_outer_width (layouts_should s6 (cid c))
         = Some (allocated_outer_width a)"
proof -
  from p obtain us vs where split: "L = us @ p # vs"
    by (meson split_list)
  from d have pv: "p \<notin> set vs" unfolding split by auto
  from run(3) obtain t t' where t: "for_each us allocated_width_pass s2 = Inr t"
    and step: "allocated_width_pass t p = Inr t'"
    and rest: "for_each vs allocated_width_pass t' = Inr s3"
    unfolding split by (rule for_each_split_at)
  from allocated_width_pass_default [OF step o c] obtain rc a where
    rc: "layouts_should t' (cid c) = Some rc" "layouts_are t (cid c) = Some a"
    "allocated_outer_width rc = allocated_outer_width a"
    by blast
  have "frame 0 (\<lambda>r. ()) s2 t"
    using t by (rule allocated_width_loop_frame) (simp add: unaffected_unit)
  then have "env t = env s0" using run_env(2) [OF run] by (simp add: frame_def)
  then have "layouts_are t = layouts_are s0" by (rule env_layouts_are)
  then have a: "layouts_are s0 (cid c) = Some a" using rc(2) by simp
  have others: "cid c \<notin> cid ` set (tree_children q)" if "q \<in> set vs" for q
  proof (rule not_child_of_other [OF dt _ c])
    show "p \<in> set (subtree r)" using p sub by simp
    show "q \<in> set (subtree r)" using that sub split by auto
    show "q \<noteq> p" using that pv by auto
  qed
  have "frame (cid c) allocated_outer_width t' s3"
    using rest by (rule allocated_width_loop_frame) (use others in \<open>auto simp: unaffected_def\<close>)
  moreover have "frame (cid c) allocated_outer_width s3 s6"
    using run(4-6) by (rule frame_after_width) (simp_all add: unaffected_def)
  ultimately have "frame (cid c) allocated_outer_width t' s6" by (rule frame_trans)
  then have "map_option allocated_outer_width (layouts_should s6 (cid c))
      = Some (allocated_outer_width a)"
    using rc(1,3) by (simp add: frame_def)
  with a show ?thesis by blast
qed

lemma run_default_child_height:
  assumes run: "for_each (rev L) natural_width_pass s0 = Inr s1" "seed_root_width s1 = Inr s2"
    "for_each L allocated_width_pass s2 = Inr s3"
    "for_each (rev L) natural_height_pass s3 = Inr s4" "seed_root_height s4 = Inr s5"
    "for_each L allocated_height_pass s5 = Inr s6"
    and dt: "distinct (map cid (subtree r))" and sub: "set L = set (subtree r)"
    and d: "distinct (map cid L)" and p: "p \<in> set L" and o: "specialized p = Original"
    and c: "c \<in> set (tree_children p)"
  shows "\<exists>a. layouts_are s0 (cid c) = Some a
     \<and> map_option (\<lambda>r. (allocated_outer_height r, left_in_viewport_outer r, top_in_viewport_outer r))
          (layouts_should s6 (cid c))
         = Some (allocated_outer_height a, left_in_viewport_outer a, top_in_viewport_outer a)"
proof -
  let ?proj = "\<lambda>r. (allocated_outer_height r, left_in_viewport_outer r, top_in_viewport_outer r)"
  from p obtain us vs where split: "L = us @ p # vs"
    by (meson split_list)
  from d have pv: "p \<notin> set vs" unfolding split by auto
  from run(6) obtain t t' where t: "for_each us allocated_height_pass s5 = Inr t"
    and step: "allocated_height_pass t p = Inr t'"
    and rest: "for_each vs allocated_height_pass t' = Inr s6"
    unfolding split by (rule for_each_split_at)
  from allocated_height_pass_default [OF step o c] obtain rc a where
    rc: "layouts_should t' (cid c) = Some rc" "layouts_are t (cid c) = Some a"
    "allocated_outer_height rc = allocated_outer_height a"
    "left_in_viewport_outer rc = left_in_viewport_outer a"
    "top_in_viewport_outer rc = top_in_viewport_outer a"
    by blast
  have "frame 0 (\<lambda>r. ()) s5 t"
    using t by (rule allocated_height_loop_frame) (simp add: unaffected_unit)
  then have "env t = env s0" using run_env(5) [OF run] by (simp add: frame_def)
  then have "layouts_are t = layouts_are s0" by (rule env_layouts_are)
  then have a: "layouts_are s0 (cid c) = Some a" using rc(2) by simp
  have others: "cid c \<notin> cid ` set (tree_children q)" if "q \<in> set vs" for q
  proof (rule not_child_of_other [OF dt _ c])
    show "p \<in> set (subtree r)" using p sub by simp
    show "q \<in> set (subtree r)" using that sub split by auto
    show "q \<noteq> p" using that pv by auto
  qed
  have "frame (cid c) ?proj t' s6"
    using rest by (rule allocated_height_loop_frame) (use others in \<open>auto simp: unaffected_def\<close>)
  then have "map_option ?proj (layouts_should s6 (cid c))
      = Some (allocated_outer_height a, left_in_viewport_outer a, top_in_viewport_outer a)"
    using rc(1,3,4,5) by (simp add: frame_def)
  with a show ?thesis by blast
qed

lemma run_overlay_child_width:
  assumes run: "for_each (rev L) natural_width_pass s0 = Inr s1" "seed_root_width s1 = Inr s2"
    "for_each L allocated_width_pass s2 = Inr s3"
    "for_each (rev L) natural_height_pass s3 = Inr s4" "seed_root_height s4 = Inr s5"
    "for_each L allocated_height_pass s5 = Inr s6"
    and dt: "distinct (map cid (subtree r))" and sub: "set L = set (subtree r)"
    and d: "distinct (map cid L)" and p: "p \<in> set L" and o: "specialized p = For_Overlay"
    and c: "c \<in> set (tree_children p)"
  shows "map_option (\<lambda>r. (allocated_outer_width r, left_in_viewport_outer r))
           (layouts_should s6 (cid c)) = Some (window_width s0, 0)"
proof -
  let ?proj = "\<lambda>r. (allocated_outer_width r, left_in_viewport_outer r)"
  from p obtain us vs where split: "L = us @ p # vs"
    by (meson split_list)
  from d have pv: "p \<notin> set vs" unfolding split by auto
  from run(3) obtain t t' where t: "for_each us allocated_width_pass s2 = Inr t"
    and step: "allocated_width_pass t p = Inr t'"
    and rest: "for_each vs allocated_width_pass t' = Inr s3"
    unfolding split by (rule for_each_split_at)
  from allocated_width_pass_Overlay [OF step o c] obtain rc where
    rc: "layouts_should t' (cid c) = Some rc" "allocated_outer_width rc = window_width t"
    "left_in_viewport_outer rc = 0"
    by blast
  have "frame 0 (\<lambda>r. ()) s2 t"
    using t by (rule allocated_width_loop_frame) (simp add: unaffected_unit)
  then have "env t = env s0" using run_env(2) [OF run] by (simp add: frame_def)
  then have w: "window_width t = window_width s0" by (simp add: env_def)
  have others: "cid c \<notin> cid ` set (tree_children q)" if "q \<in> set L" "q \<noteq> p" for q
  proof (rule not_child_of_other [OF dt _ c])
    show "p \<in> set (subtree r)" using p sub by simp
    show "q \<in> set (subtree r)" using that sub by auto
    show "q \<noteq> p" using that by auto
  qed
  have "frame (cid c) ?proj t' s3"
    using rest
    by (rule allocated_width_loop_frame) (use others pv split in \<open>auto simp: unaffected_def\<close>)
  moreover have "frame (cid c) ?proj s3 s6"
    using run(4-6)
  proof (rule frame_after_width)
    show "(\<forall>q\<in>set L. cid c \<notin> cid ` set (tree_children q) \<or> specialized q \<noteq> Original)
         \<or> unaffected ?proj left_in_viewport_outer_update"
    proof (rule disjI1, rule ballI)
      fix q assume "q \<in> set L"
      then show "cid c \<notin> cid ` set (tree_children q) \<or> specialized q \<noteq> Original"
        using others [of q] o by (cases "q = p") simp_all
    qed
  qed (simp_all add: unaffected_def)
  ultimately have "frame (cid c) ?proj t' s6" by (rule frame_trans)
  then show ?thesis
    using rc w by (simp add: frame_def)
qed

lemma run_overlay_child_height:
  assumes run: "for_each (rev L) natural_width_pass s0 = Inr s1" "seed_root_width s1 = Inr s2"
    "for_each L allocated_width_pass s2 = Inr s3"
    "for_each (rev L) natural_height_pass s3 = Inr s4" "seed_root_height s4 = Inr s5"
    "for_each L allocated_height_pass s5 = Inr s6"
    and dt: "distinct (map cid (subtree r))" and sub: "set L = set (subtree r)"
    and d: "distinct (map cid L)" and p: "p \<in> set L" and o: "specialized p = For_Overlay"
    and c: "c \<in> set (tree_children p)"
  shows "map_option (\<lambda>r. (allocated_outer_height r, top_in_viewport_outer r))
           (layouts_should s6 (cid c)) = Some (window_height s0, 0)"
proof -
  let ?proj = "\<lambda>r. (allocated_outer_height r, top_in_viewport_outer r)"
  from p obtain us vs where split: "L = us @ p # vs"
    by (meson split_list)
  from d have pv: "p \<notin> set vs" unfolding split by auto
  from run(6) obtain t t' where t: "for_each us allocated_height_pass s5 = Inr t"
    and step: "allocated_height_pass t p = Inr t'"
    and rest: "for_each vs allocated_height_pass t' = Inr s6"
    unfolding split by (rule for_each_split_at)
  from allocated_height_pass_Overlay [OF step o c] obtain rc where
    rc: "layouts_should t' (cid c) = Some rc" "allocated_outer_height rc = window_height t"
    "top_in_viewport_outer rc = 0"
    by blast
  have "frame 0 (\<lambda>r. ()) s5 t"
    using t by (rule allocated_height_loop_frame) (simp add: unaffected_unit)
  then have "env t = env s0" using run_env(5) [OF run] by (simp add: frame_def)
  then have w: "window_height t = window_height s0" by (simp add: env_def)
  have others: "cid c \<notin> cid ` set (tree_children q)" if "q \<in> set vs" for q
  proof (rule not_child_of_other [OF dt _ c])
    show "p \<in> set (subtree r)" using p sub by simp
    show "q \<in> set (subtree r)" using that sub split by auto
    show "q \<noteq> p" using that pv by auto
  qed
  have "frame (cid c) ?proj t' s6"
    using rest
    by (rule allocated_height_loop_frame) (use others in \<open>auto simp: unaffected_def\<close>)
  then show ?thesis
    using rc w by (simp add: frame_def)
qed



subsection \<open>The example trees, computed\<close>

lemmas layouter_defs =
  create_def compute_layouts_should_def natural_width_pass_def allocated_width_pass_def
  natural_height_pass_def allocated_height_pass_def seed_root_width_def seed_root_height_def
  update_natural_width_def update_natural_height_def update_allocated_width_def
  update_allocated_height_def specialized_def FULL_SIZE_SINGLE_CONTAINERS_def
  update_natural_width_default_def update_natural_width_SingleContainer_def
  update_natural_width_Overlay_def
  update_natural_height_default_def update_natural_height_SingleContainer_def
  update_natural_height_Overlay_def
  update_allocated_width_default_def update_allocated_width_SingleContainer_def
  update_allocated_width_Overlay_def
  update_allocated_height_default_def update_allocated_height_SingleContainer_def
  update_allocated_height_Overlay_def
  max_natural_width_step_def max_natural_height_step_def
  trust_client_width_step_def trust_client_height_step_def
  pass_on_width_step_def pass_on_height_step_def content_def
  iter_direct_tree_children_def iter_direct_children_def
  and_then_def getitem_def update_layout_def calculate_alignment_def
  get_toposorted_walk plain_def new_layout_def

lemma example_default_run:
  "create \<lparr>root_component = example_tree OtherComponent\<rparr> example_client_info = Inr
     \<lparr>session = \<lparr>root_component = example_tree OtherComponent\<rparr>,
      window_width = 100, window_height = 50,
      layouts_should =
        [3 \<mapsto> \<lparr>natural_width = 10, natural_height = 4,
                requested_inner_width = 10, requested_inner_height = 4,
                requested_outer_width = 10, requested_outer_height = 4,
                allocated_outer_width = 30, allocated_outer_height = 8,
                allocated_inner_width = 30, allocated_inner_height = 8,
                left_in_viewport_outer = 5, top_in_viewport_outer = 6,
                left_in_viewport_inner = - 1, top_in_viewport_inner = 6,
                aux = []\<rparr>,
         2 \<mapsto> \<lparr>natural_width = 10, natural_height = 4,
                requested_inner_width = 10, requested_inner_height = 4,
                requested_outer_width = 10, requested_outer_height = 4,
                allocated_outer_width = 100, allocated_outer_height = 50,
                allocated_inner_width = 100, allocated_inner_height = 50,
                left_in_viewport_outer = 0, top_in_viewport_outer = 0,
                left_in_viewport_inner = 0, top_in_viewport_inner = 0,
                aux = []\<rparr>,
         1 \<mapsto> \<lparr>natural_width = 10, natural_height = 4,
                requested_inner_width = 10, requested_inner_height = 4,
                requested_outer_width = 10, requested_outer_height = 4,
                allocated_outer_width = 100, allocated_outer_height = 50,
                allocated_inner_width = 100, allocated_inner_height = 50,
                left_in_viewport_outer = 0, top_in_viewport_outer = 0,
                left_in_viewport_inner = 0, top_in_viewport_inner = 0,
                aux = []\<rparr>],
      layouts_are = map_of (component_layouts example_client_info)\<rparr>"
  unfolding example_tree_def example_client_info_def example_reported_def
  by (simp add: layouter_defs fun_upd_twist)

lemma example_overlay_run:
  "create \<lparr>root_component = example_overlay_tree\<rparr> example_client_info = Inr
     \<lparr>session = \<lparr>root_component = example_overlay_tree\<rparr>,
      window_width = 100, window_height = 50,
      layouts_should =
        [3 \<mapsto> \<lparr>natural_width = 10, natural_height = 4,
                requested_inner_width = 10, requested_inner_height = 4,
                requested_outer_width = 10, requested_outer_height = 4,
                allocated_outer_width = 100, allocated_outer_height = 50,
                allocated_inner_width = 100, allocated_inner_height = 50,
                left_in_viewport_outer = 0, top_in_viewport_outer = 0,
                left_in_viewport_inner = 0, top_in_viewport_inner = 0,
                aux = []\<rparr>,
         2 \<mapsto> \<lparr>natural_width = 0, natural_height = 0,
                requested_inner_width = 0, requested_inner_height = 0,
                requested_outer_width = 10, requested_outer_height = 5,
                allocated_outer_width = 100, allocated_outer_height = 50,
                allocated_inner_width = 90, allocated_inner_height = 45,
                left_in_viewport_outer = 0, top_in_viewport_outer = 0,
                left_in_viewport_inner = 10, top_in_viewport_inner = 5,
                aux = []\<rparr>,
         1 \<mapsto> \<lparr>natural_width = 10, natural_height = 5,
                requested_inner_width = 10, requested_inner_height = 5,
                requested_outer_width = 10, requested_outer_height = 5,
                allocated_outer_width = 100, allocated_outer_height = 50,
                allocated_inner_width = 100, allocated_inner_height = 50,
                left_in_viewport_outer = 0, top_in_viewport_outer = 0,
                left_in_viewport_inner = 0, top_in_viewport_inner = 0,
                aux = []\<rparr>],
      layouts_are = map_of (component_layouts example_client_info)\<rparr>"
  unfolding example_overlay_tree_def example_client_info_def example_reported_def
  by (simp add: layouter_defs fun_upd_twist)

lemma example_tree_facts:
  "distinct (map cid (subtree (example_tree t)))"
  "plain 2 t [plain 3 OtherComponent []] \<in> set (subtree (example_tree t))"
  "plain 3 OtherComponent [] \<in> set (iter_direct_tree_children (plain 2 t [plain 3 OtherComponent []]))"
  "cid (plain 3 OtherComponent []) = 3" "cid (plain 2 t [plain 3 OtherComponent []]) = 2"
  "ctype (plain 2 t [plain 3 OtherComponent []]) = t"
  "attrs (plain 3 OtherComponent [])
     = \<lparr>id' = 3, type' = OtherComponent, width = None, height = None,
       effective_margin_left = 0, effective_margin_right = 0,
       effective_margin_top = 0, effective_margin_bottom = 0,
       align_x = None, align_y = None, spacing = 0, proportions = None\<rparr>"
  by (simp_all add: example_tree_def plain_def iter_direct_tree_children_def)

lemma create_Inr:
  assumes "create session' client_info = Inr self"
  shows "compute_layouts_should
           \<lparr>session = session',
            window_width = client_window_width client_info,
            window_height = client_window_height client_info,
            layouts_should = Map.empty,
            layouts_are = map_of (component_layouts client_info)\<rparr>
           (get_toposorted (root_component session')) = Inr self"
  using assms by (simp add: create_def Let_def split: if_splits)

subsection \<open>The errors of a run\<close>

lemma and_then_Inl:
  "and_then m f = Inl e \<Longrightarrow> m = Inl e \<or> (\<exists>x. m = Inr x \<and> f x = Inl e)"
  by (cases m) (simp_all add: and_then_def)

lemma no_assert_getitem: "getitem d k = Inl e \<Longrightarrow> \<not> is_AssertionError e"
  by (auto simp: getitem_def split: option.splits)

lemma no_assert_update_layout: "update_layout s k f = Inl e \<Longrightarrow> \<not> is_AssertionError e"
  by (auto simp: update_layout_def split: option.splits)

lemma no_assert_content: "content q = Inl e \<Longrightarrow> \<not> is_AssertionError e"
  by (auto simp: content_def split: list.splits)

lemma no_assert_sizes:
  "linear_container_get_major_axis_allocated_sizes a ws sp pr = Inl e \<Longrightarrow> \<not> is_AssertionError e"
  by (auto simp: linear_container_get_major_axis_allocated_sizes_def split: option.splits)

lemma no_assert_for_each:
  assumes "for_each xs body s = Inl e"
    and "\<And>x t. body t x = Inl e \<Longrightarrow> \<not> is_AssertionError e"
  shows "\<not> is_AssertionError e"
  using for_each_error [OF assms(1)] assms(2) by blast

lemma no_assert_collect:
  assumes "collect f xs = Inl e"
    and "\<And>x. f x = Inl e \<Longrightarrow> \<not> is_AssertionError e"
  shows "\<not> is_AssertionError e"
  using collect_error [OF assms(1)] assms(2) by blast

lemmas no_assert_basic =
  no_assert_getitem no_assert_update_layout no_assert_content no_assert_sizes

lemma no_assert_child_widths:
  "child_requested_outer_widths s q = Inl e \<Longrightarrow> \<not> is_AssertionError e"
  unfolding child_requested_outer_widths_def
  by (erule no_assert_collect) (auto dest!: and_then_Inl dest: no_assert_basic)

lemma no_assert_child_heights:
  "child_requested_outer_heights s q = Inl e \<Longrightarrow> \<not> is_AssertionError e"
  unfolding child_requested_outer_heights_def
  by (erule no_assert_collect) (auto dest!: and_then_Inl dest: no_assert_basic)

lemma no_assert_steps:
  "max_natural_width_step q s x = Inl e \<Longrightarrow> \<not> is_AssertionError e"
  "max_natural_height_step q s x = Inl e \<Longrightarrow> \<not> is_AssertionError e"
  "trust_client_width_step s x = Inl e \<Longrightarrow> \<not> is_AssertionError e"
  "trust_client_height_step s x = Inl e \<Longrightarrow> \<not> is_AssertionError e"
  "pass_on_width_step q s x = Inl e \<Longrightarrow> \<not> is_AssertionError e"
  "pass_on_height_step q s x = Inl e \<Longrightarrow> \<not> is_AssertionError e"
  "place_width_step q s y = Inl e \<Longrightarrow> \<not> is_AssertionError e"
  "place_height_step q s y = Inl e \<Longrightarrow> \<not> is_AssertionError e"
  unfolding max_natural_width_step_def max_natural_height_step_def trust_client_width_step_def
    trust_client_height_step_def pass_on_width_step_def pass_on_height_step_def
    place_width_step_def place_height_step_def
  by (auto dest!: and_then_Inl dest: no_assert_basic split: prod.splits)

lemma no_assert_loops:
  "for_each xs (max_natural_width_step q) s = Inl e \<Longrightarrow> \<not> is_AssertionError e"
  "for_each xs (max_natural_height_step q) s = Inl e \<Longrightarrow> \<not> is_AssertionError e"
  "for_each xs trust_client_width_step s = Inl e \<Longrightarrow> \<not> is_AssertionError e"
  "for_each xs trust_client_height_step s = Inl e \<Longrightarrow> \<not> is_AssertionError e"
  "for_each xs (pass_on_width_step q) s = Inl e \<Longrightarrow> \<not> is_AssertionError e"
  "for_each xs (pass_on_height_step q) s = Inl e \<Longrightarrow> \<not> is_AssertionError e"
  "for_each ys (place_width_step q) s = Inl e \<Longrightarrow> \<not> is_AssertionError e"
  "for_each ys (place_height_step q) s = Inl e \<Longrightarrow> \<not> is_AssertionError e"
  by (erule no_assert_for_each, erule no_assert_steps)+

lemma no_assert_natural_width:
  "update_natural_width s q = Inl e \<Longrightarrow> \<not> is_AssertionError e"
  unfolding update_natural_width_def update_natural_width_default_def update_natural_width_Row_def
    update_natural_width_Column_def update_natural_width_Overlay_def
    update_natural_width_SingleContainer_def
  by (cases "specialized q")
    (auto dest!: and_then_Inl dest: no_assert_basic no_assert_child_widths
      no_assert_loops)

lemma no_assert_natural_height:
  "update_natural_height s q = Inl e \<Longrightarrow> \<not> is_AssertionError e"
  unfolding update_natural_height_def update_natural_height_default_def update_natural_height_Row_def
    update_natural_height_Column_def update_natural_height_Overlay_def
    update_natural_height_SingleContainer_def
  by (cases "specialized q")
    (auto dest!: and_then_Inl dest: no_assert_basic no_assert_child_heights
      no_assert_loops)

lemma no_assert_allocated_width:
  "update_allocated_width s q = Inl e \<Longrightarrow> \<not> is_AssertionError e"
  unfolding update_allocated_width_def update_allocated_width_default_def
    update_allocated_width_Row_def update_allocated_width_Column_def
    update_allocated_width_Overlay_def update_allocated_width_SingleContainer_def
  by (cases "specialized q")
    (auto dest!: and_then_Inl dest: no_assert_basic no_assert_child_widths
      no_assert_loops)

lemma no_assert_allocated_height:
  "update_allocated_height s q = Inl e \<Longrightarrow> \<not> is_AssertionError e"
  unfolding update_allocated_height_def update_allocated_height_default_def
    update_allocated_height_Row_def update_allocated_height_Column_def
    update_allocated_height_Overlay_def update_allocated_height_SingleContainer_def
  by (cases "specialized q")
    (auto dest!: and_then_Inl dest: no_assert_basic no_assert_child_heights
      no_assert_loops)

lemma no_assert_passes:
  "natural_width_pass s q = Inl e \<Longrightarrow> \<not> is_AssertionError e"
  "allocated_width_pass s q = Inl e \<Longrightarrow> \<not> is_AssertionError e"
  "natural_height_pass s q = Inl e \<Longrightarrow> \<not> is_AssertionError e"
  "allocated_height_pass s q = Inl e \<Longrightarrow> \<not> is_AssertionError e"
  "seed_root_width s = Inl e \<Longrightarrow> \<not> is_AssertionError e"
  "seed_root_height s = Inl e \<Longrightarrow> \<not> is_AssertionError e"
  unfolding natural_width_pass_def allocated_width_pass_def natural_height_pass_def
    allocated_height_pass_def seed_root_width_def seed_root_height_def Let_def
  by (auto dest!: and_then_Inl dest: no_assert_basic no_assert_natural_width
      no_assert_natural_height no_assert_allocated_width no_assert_allocated_height)

lemma no_assert_pass_loops:
  "for_each xs natural_width_pass s = Inl e \<Longrightarrow> \<not> is_AssertionError e"
  "for_each xs allocated_width_pass s = Inl e \<Longrightarrow> \<not> is_AssertionError e"
  "for_each xs natural_height_pass s = Inl e \<Longrightarrow> \<not> is_AssertionError e"
  "for_each xs allocated_height_pass s = Inl e \<Longrightarrow> \<not> is_AssertionError e"
  by (erule no_assert_for_each, erule no_assert_passes)+

lemma no_assert_compute:
  "compute_layouts_should s L = Inl e \<Longrightarrow> \<not> is_AssertionError e"
  unfolding compute_layouts_should_def
  by (auto dest!: and_then_Inl dest: no_assert_passes no_assert_pass_loops)

lemma create_missing:
  "set (map cid (get_toposorted (root_component session')))
         - set (map fst (component_layouts client_info)) \<noteq> {}
   \<Longrightarrow> create session' client_info
          = Inl (AssertionError (set (map cid (get_toposorted (root_component session')))
                                  - set (map fst (component_layouts client_info))))"
  by (simp add: create_def Let_def)

lemma create_superfluous:
  "set (map cid (get_toposorted (root_component session')))
         - set (map fst (component_layouts client_info)) = {}
   \<Longrightarrow> set (map fst (component_layouts client_info))
         - set (map cid (get_toposorted (root_component session'))) \<noteq> {}
   \<Longrightarrow> create session' client_info
          = Inl (AssertionError (set (map fst (component_layouts client_info))
                                  - set (map cid (get_toposorted (root_component session')))))"
  by (auto simp: create_def Let_def)

lemma example_desync_ids:
  "map cid (get_toposorted (root_component \<lparr>root_component = example_row\<rparr>)) = [1, 3, 2]"
  "map fst (component_layouts example_desync_info) = [1, 2, 4]"
  by (simp_all add: example_row_toposorted example_desync_info_def)
    (simp add: example_row_def plain_def)

lemma example_desync_sets:
  "set (map cid (get_toposorted (root_component \<lparr>root_component = example_row\<rparr>)))
     - set (map fst (component_layouts example_desync_info)) = {3}"
  "set (map fst (component_layouts example_desync_info))
     - set (map cid (get_toposorted (root_component \<lparr>root_component = example_row\<rparr>))) = {4}"
  unfolding example_desync_ids by auto

section \<open>The claims\<close>

text \<open>
  C2, as amended. The tree walker yields every node of the tree exactly once (as many times
  as it occurs in the tree), so with distinct ids no id twice; every parent appears before
  each of its children; and of two children of one node the one declared later appears
  first, and with it every node of its subtree appears before the child declared earlier:
  the siblings come in the reverse of the declared order, not in the declared order. With
  distinct ids the order is strict: the earlier child appears before neither the later one
  nor any node of the later one's subtree.
\<close>

theorem get_toposorted_order:
  "mset (get_toposorted r) = mset (subtree r)
   \<and> (distinct (map cid (subtree r)) \<longrightarrow> distinct (map cid (get_toposorted r)))
   \<and> (p \<in> set (get_toposorted r) \<and> c \<in> set (iter_direct_tree_children p)
        \<longrightarrow> appears_before (get_toposorted r) p c)
   \<and> (p \<in> set (get_toposorted r) \<and> iter_direct_tree_children p = xs @ a # ys @ b # zs
        \<longrightarrow> appears_before (get_toposorted r) b a)
   \<and> (distinct (map cid (subtree r)) \<and> p \<in> set (get_toposorted r)
        \<and> iter_direct_tree_children p = xs @ a # ys @ b # zs
        \<longrightarrow> \<not> appears_before (get_toposorted r) a b)
   \<and> (p \<in> set (get_toposorted r) \<and> iter_direct_tree_children p = xs @ a # ys @ b # zs
        \<and> d \<in> set (subtree b)
        \<longrightarrow> appears_before (get_toposorted r) d a)
   \<and> (distinct (map cid (subtree r)) \<and> p \<in> set (get_toposorted r)
        \<and> iter_direct_tree_children p = xs @ a # ys @ b # zs \<and> d \<in> set (subtree b)
        \<longrightarrow> \<not> appears_before (get_toposorted r) a d)"
proof -
  have 1: "mset (get_toposorted r) = mset (subtree r)"
    by (simp add: get_toposorted_walk mset_walk)
  have 2: "distinct (map cid (get_toposorted r))" if "distinct (map cid (subtree r))"
    using that by (simp add: get_toposorted_walk distinct_walk)
  have 3: "appears_before (get_toposorted r) p c"
    if "p \<in> set (get_toposorted r)" "c \<in> set (iter_direct_tree_children p)"
    using that parent_before_child [of p r c]
    by (simp add: get_toposorted_walk iter_direct_tree_children_def)
  have 4: "appears_before (get_toposorted r) b a"
    if "p \<in> set (get_toposorted r)" "iter_direct_tree_children p = xs @ a # ys @ b # zs"
    using that later_sibling_first [of p r xs a ys b zs]
    by (simp add: get_toposorted_walk iter_direct_tree_children_def)
  have 5: "\<not> appears_before (get_toposorted r) a b"
    if "distinct (map cid (subtree r))" "p \<in> set (get_toposorted r)"
      "iter_direct_tree_children p = xs @ a # ys @ b # zs"
    using appears_before_distinct [OF distinct_cid_distinct [OF 2 [OF that(1)]] 4 [OF that(2,3)]] .
  have 6: "appears_before (get_toposorted r) d a"
    if "p \<in> set (get_toposorted r)" "iter_direct_tree_children p = xs @ a # ys @ b # zs"
      "d \<in> set (subtree b)"
    using that later_subtree_first [of p r xs a ys b zs d]
    by (simp add: get_toposorted_walk iter_direct_tree_children_def)
  have 7: "\<not> appears_before (get_toposorted r) a d"
    if "distinct (map cid (subtree r))" "p \<in> set (get_toposorted r)"
      "iter_direct_tree_children p = xs @ a # ys @ b # zs" "d \<in> set (subtree b)"
    using appears_before_distinct [OF distinct_cid_distinct [OF 2 [OF that(1)]] 6 [OF that(2,3,4)]] .
  show ?thesis
    apply (intro conjI impI)
          apply (rule 1)
         apply (erule 2)
        apply (use 3 in blast)
       apply (use 4 in blast)
      apply (use 5 in blast)
     apply (use 6 in blast)
    apply (use 7 in blast)
    done
qed

theorem get_toposorted_order_witness:
  "appears_before (get_toposorted example_row) example_row (plain 2 OtherComponent [])
   \<and> appears_before (get_toposorted example_row) (plain 3 OtherComponent []) (plain 2 OtherComponent [])
   \<and> \<not> appears_before (get_toposorted example_row) (plain 2 OtherComponent []) (plain 3 OtherComponent [])
   \<and> distinct (map cid (get_toposorted example_row))
   \<and> appears_before (get_toposorted example_nested)
        (plain 4 OtherComponent []) (plain 2 OtherComponent [])
   \<and> \<not> appears_before (get_toposorted example_nested)
        (plain 2 OtherComponent []) (plain 4 OtherComponent [])"
proof -
  have d: "distinct (map cid (subtree example_row))"
    by (simp add: example_row_def plain_def)
  have p: "example_row \<in> set (get_toposorted example_row)"
    by (simp add: example_row_toposorted)
  have k: "iter_direct_tree_children example_row
      = [] @ plain 2 OtherComponent [] # [] @ plain 3 OtherComponent [] # []"
    by (simp add: iter_direct_tree_children_def example_row_def)
  have c: "plain 2 OtherComponent [] \<in> set (iter_direct_tree_children example_row)"
    by (simp add: iter_direct_tree_children_def example_row_def)
  have s: "plain 3 OtherComponent [] \<in> set (subtree (plain 3 OtherComponent []))"
    by (simp add: plain_def)
  note row = get_toposorted_order [of example_row example_row "plain 2 OtherComponent []" "[]"
        "plain 2 OtherComponent []" "[]" "plain 3 OtherComponent []" "[]"
        "plain 3 OtherComponent []"]
  have first: "appears_before (get_toposorted example_row) example_row (plain 2 OtherComponent [])
   \<and> appears_before (get_toposorted example_row) (plain 3 OtherComponent []) (plain 2 OtherComponent [])
   \<and> \<not> appears_before (get_toposorted example_row) (plain 2 OtherComponent []) (plain 3 OtherComponent [])
   \<and> distinct (map cid (get_toposorted example_row))"
    using row d p k c s by blast
  have nd: "distinct (map cid (subtree example_nested))"
    by (simp add: example_nested_def plain_def)
  have np: "example_nested \<in> set (get_toposorted example_nested)"
    by (simp add: example_nested_toposorted)
  have nk: "iter_direct_tree_children example_nested
      = [] @ plain 2 OtherComponent [] # []
          @ plain 3 OtherComponent [plain 4 OtherComponent []] # []"
    by (simp add: iter_direct_tree_children_def example_nested_def plain_def)
  have ns: "plain 4 OtherComponent []
      \<in> set (subtree (plain 3 OtherComponent [plain 4 OtherComponent []]))"
    by (simp add: plain_def)
  note nested = get_toposorted_order [of example_nested example_nested
        "plain 2 OtherComponent []" "[]" "plain 2 OtherComponent []" "[]"
        "plain 3 OtherComponent [plain 4 OtherComponent []]" "[]" "plain 4 OtherComponent []"]
  have second: "appears_before (get_toposorted example_nested)
        (plain 4 OtherComponent []) (plain 2 OtherComponent [])
   \<and> \<not> appears_before (get_toposorted example_nested)
        (plain 2 OtherComponent []) (plain 4 OtherComponent [])"
    using nested nd np nk ns by blast
  show ?thesis using first second by blast
qed

text \<open>
  C2 as stated fails: the children of the example row are declared in the order 2, 3 and
  the walker yields 3 before 2.
\<close>

theorem get_toposorted_sibling_order_counterexample:
  "map cid (iter_direct_tree_children example_row) = [2, 3]
   \<and> map cid (get_toposorted example_row) = [1, 3, 2]"
  by (simp add: example_row_toposorted iter_direct_tree_children_def)
    (simp add: example_row_def plain_def)

text \<open>
  C3, as amended. \<open>calculate_alignment\<close> equals the reference definition of section 4.4
  for all inputs; fill at outer 100 with the margins 2 and 3 gives (2, 95) for any
  requested inner size and the fraction 0.5 at the requested inner size 50 gives
  (24.5, 50). With a fractional alignment the returned size exceeds the available space
  \<open>outer - margin_start - margin_end\<close> whenever the outer size is less than the requested
  inner size plus the margins; with fill the returned size is that available space itself.
\<close>

theorem calculate_alignment_reference:
  "calculate_alignment outer requested_inner margin_start margin_end (align_of a)
     = (spec_alignment_offset outer requested_inner margin_start margin_end a,
        spec_alignment_size outer requested_inner margin_start margin_end a)
   \<and> calculate_alignment 100 requested_inner 2 3 None = (2, 95)
   \<and> calculate_alignment 100 50 2 3 (Some (1 / 2)) = (49 / 2, 50)
   \<and> (outer < requested_inner + margin_start + margin_end
        \<longrightarrow> outer - margin_start - margin_end
            < snd (calculate_alignment outer requested_inner margin_start margin_end (Some f)))
   \<and> snd (calculate_alignment outer requested_inner margin_start margin_end None)
        = outer - margin_start - margin_end"
  by (cases a) (simp_all add: calculate_alignment_def mult.commute)

theorem calculate_alignment_reference_witness:
  "(10::real) < 50 + 2 + 3
   \<and> (10::real) - 2 - 3 < snd (calculate_alignment 10 50 2 3 (Some (1 / 2)))
   \<and> calculate_alignment 10 50 2 3 (align_of (Fraction (1 / 2))) = (-41 / 2, 50)"
  using calculate_alignment_reference [of 10 50 2 3 "Fraction (1 / 2)" "1 / 2"]
  by simp

text \<open>
  C3 as stated fails in the fill branch: at outer 10, requested inner size 50 and the
  margins 2 and 3 the returned size is 5, which exceeds neither the available space 5 nor
  the outer size 10.
\<close>

theorem calculate_alignment_fill_overflow_counterexample:
  "(10::real) < 50 + 2 + 3
   \<and> \<not> (10 - 2 - 3 < snd (calculate_alignment 10 50 2 3 None))
   \<and> \<not> (10 < snd (calculate_alignment 10 50 2 3 None))"
  by (simp add: calculate_alignment_def)

text \<open>
  C4. The natural size of a linear container on its major axis is the sum of the requested
  outer sizes of the children plus the spacing times the number of children less one: for
  the function, where the sizes 10 and 20 with the spacing 5 give 35, for the natural
  width of a row and for the natural height of a column, which are computed whenever the
  layouts of the container and of its children exist.
\<close>

theorem linear_container_natural_size:
  "linear_container_get_major_axis_natural_size sizes sp
     = sum_list sizes + sp * (real (length sizes) - 1)
   \<and> linear_container_get_major_axis_natural_size [10, 20] 5 = 35
   \<and> (ctype q = Row \<and> update_natural_width s q = Inr s' \<longrightarrow>
        (\<exists>layout ws. layouts_should s' (cid q) = Some layout
           \<and> list_all2 (\<lambda>child w. \<exists>l. layouts_should s (cid child) = Some l
                          \<and> requested_outer_width l = w) (tree_children q) ws
           \<and> natural_width layout = sum_list ws + spacing (attrs q) * (real (length ws) - 1)))
   \<and> (ctype q = Column \<and> update_natural_height s q = Inr s' \<longrightarrow>
        (\<exists>layout ws. layouts_should s' (cid q) = Some layout
           \<and> list_all2 (\<lambda>child w. \<exists>l. layouts_should s (cid child) = Some l
                          \<and> requested_outer_height l = w) (tree_children q) ws
           \<and> natural_height layout = sum_list ws + spacing (attrs q) * (real (length ws) - 1)))
   \<and> (ctype q = Row \<and> (\<forall>x\<in>set (q # iter_direct_children q). layouts_should s (cid x) \<noteq> None)
        \<longrightarrow> (\<exists>s'. update_natural_width s q = Inr s'))
   \<and> (ctype q = Column \<and> (\<forall>x\<in>set (q # iter_direct_children q). layouts_should s (cid x) \<noteq> None)
        \<longrightarrow> (\<exists>s'. update_natural_height s q = Inr s'))"
proof -
  have row: "update_natural_width s q = update_natural_width_Row s q" if "ctype q = Row"
    using specialized_Row [OF that] by (simp add: update_natural_width_def)
  have col: "update_natural_height s q = update_natural_height_Column s q" if "ctype q = Column"
    using specialized_Column [OF that] by (simp add: update_natural_height_def)
  have "linear_container_get_major_axis_natural_size [10, 20] 5 = 35"
    by (simp add: natural_size_closed)
  then show ?thesis
    using natural_size_closed [of sizes sp]
      update_natural_width_Row_result [of s q s'] update_natural_height_Column_result [of s q s']
      update_natural_width_Row_total [of s q] update_natural_height_Column_total [of s q]
      row col
    by (auto simp: iter_direct_children_def)
qed

theorem linear_container_natural_size_witness:
  "(\<exists>s' layout. update_natural_width (example_layouter example_row) example_row = Inr s'
      \<and> layouts_should s' 1 = Some layout \<and> natural_width layout = 35)
   \<and> (\<exists>s' layout. update_natural_height (example_layouter example_column) example_column = Inr s'
      \<and> layouts_should s' 1 = Some layout \<and> natural_height layout = 35)"
proof -
  have r: "ctype example_row = Row" "cid example_row = 1" "spacing (attrs example_row) = 5"
    and c: "ctype example_column = Column" "cid example_column = 1"
      "spacing (attrs example_column) = 5"
    by (simp_all add: example_row_def example_column_def)
  from linear_container_natural_size [of "[]" 0 example_row "example_layouter example_row"]
    r(1) example_records(1) [of example_row]
  obtain s' where s': "update_natural_width (example_layouter example_row) example_row = Inr s'"
    by blast
  from linear_container_natural_size [of "[]" 0 example_row "example_layouter example_row" s']
    r s'
  obtain layout ws where "layouts_should s' 1 = Some layout"
    "list_all2 (\<lambda>child w. \<exists>l. layouts_should (example_layouter example_row) (cid child) = Some l
              \<and> requested_outer_width l = w) (tree_children example_row) ws"
    "natural_width layout = sum_list ws + 5 * (real (length ws) - 1)"
    by auto
  then have 1: "\<exists>layout. layouts_should s' 1 = Some layout \<and> natural_width layout = 35"
    using example_widths [of example_row ws] by auto
  from linear_container_natural_size [of "[]" 0 example_column "example_layouter example_column"]
    c(1) example_records(2) [of example_column]
  obtain t' where t': "update_natural_height (example_layouter example_column) example_column = Inr t'"
    by blast
  from linear_container_natural_size [of "[]" 0 example_column "example_layouter example_column" t']
    c t'
  obtain layout ws where "layouts_should t' 1 = Some layout"
    "list_all2 (\<lambda>child w. \<exists>l. layouts_should (example_layouter example_column) (cid child) = Some l
              \<and> requested_outer_height l = w) (tree_children example_column) ws"
    "natural_height layout = sum_list ws + 5 * (real (length ws) - 1)"
    by auto
  then have 2: "\<exists>layout. layouts_should t' 1 = Some layout \<and> natural_height layout = 35"
    using example_heights [of example_column ws] by auto
  show ?thesis using s' 1 t' 2 by blast
qed

text \<open>
  C1. With the proportions unset, the allocation of a linear container on its major axis
  places the children one behind the other: child \<open>i\<close> receives exactly its requested
  outer size, the first child starts at the offset 0, every further child starts at the
  start of the one before plus that one's size plus the spacing, and the result does not
  depend on the size allocated to the container, so what is left over stays unused. The
  requested sizes 10 and 20 with the spacing 5 in the inner size 35 give the starts 0 and
  15. For a row the children get these widths and, from the inner left edge of the row,
  these offsets; for a column the same holds of the heights and the tops; either step
  returns a result whenever the layouts of the container and of its children exist.
\<close>

theorem linear_container_placement:
  "(\<exists>ss. linear_container_get_major_axis_allocated_sizes a sizes sp None = Inr ss
      \<and> length ss = length sizes \<and> map snd ss = sizes
      \<and> (sizes \<noteq> [] \<longrightarrow> fst (ss ! 0) = 0)
      \<and> (\<forall>i. Suc i < length sizes \<longrightarrow> fst (ss ! Suc i) = fst (ss ! i) + (sizes ! i + sp)))
   \<and> linear_container_get_major_axis_allocated_sizes a sizes sp None
       = linear_container_get_major_axis_allocated_sizes a' sizes sp None
   \<and> linear_container_get_major_axis_allocated_sizes 35 [10, 20] 5 None
       = Inr [(0, 10), (15, 20)]
   \<and> (ctype q = Row \<and> distinct (map cid (iter_direct_children q))
        \<and> update_allocated_width s q = Inr s' \<longrightarrow>
        (\<exists>layout ws starts. layouts_should s (cid q) = Some layout
           \<and> list_all2 (\<lambda>child w. \<exists>l. layouts_should s (cid child) = Some l
                          \<and> requested_outer_width l = w) (tree_children q) ws
           \<and> length starts = length ws
           \<and> (ws \<noteq> [] \<longrightarrow> starts ! 0 = 0)
           \<and> (\<forall>i. Suc i < length ws
                 \<longrightarrow> starts ! Suc i = starts ! i + (ws ! i + spacing (attrs q)))
           \<and> (\<forall>i<length (tree_children q). \<exists>l'.
                 layouts_should s' (cid (tree_children q ! i)) = Some l'
                 \<and> allocated_outer_width l' = ws ! i
                 \<and> left_in_viewport_outer l' = left_in_viewport_inner layout + starts ! i)))
   \<and> (ctype q = Column \<and> distinct (map cid (iter_direct_children q))
        \<and> update_allocated_height s q = Inr s' \<longrightarrow>
        (\<exists>layout ws starts. layouts_should s (cid q) = Some layout
           \<and> list_all2 (\<lambda>child w. \<exists>l. layouts_should s (cid child) = Some l
                          \<and> requested_outer_height l = w) (tree_children q) ws
           \<and> length starts = length ws
           \<and> (ws \<noteq> [] \<longrightarrow> starts ! 0 = 0)
           \<and> (\<forall>i. Suc i < length ws
                 \<longrightarrow> starts ! Suc i = starts ! i + (ws ! i + spacing (attrs q)))
           \<and> (\<forall>i<length (tree_children q). \<exists>l'.
                 layouts_should s' (cid (tree_children q ! i)) = Some l'
                 \<and> allocated_outer_height l' = ws ! i
                 \<and> top_in_viewport_outer l' = top_in_viewport_inner layout + starts ! i)))
   \<and> (ctype q = Row \<and> proportions (attrs q) = None
        \<and> (\<forall>x\<in>set (q # iter_direct_children q). layouts_should s (cid x) \<noteq> None)
        \<longrightarrow> (\<exists>s'. update_allocated_width s q = Inr s'))
   \<and> (ctype q = Column \<and> proportions (attrs q) = None
        \<and> (\<forall>x\<in>set (q # iter_direct_children q). layouts_should s (cid x) \<noteq> None)
        \<longrightarrow> (\<exists>s'. update_allocated_height s q = Inr s'))"
proof -
  have row: "update_allocated_width s q = update_allocated_width_Row s q" if "ctype q = Row"
    using specialized_Row [OF that] by (simp add: update_allocated_width_def)
  have col: "update_allocated_height s q = update_allocated_height_Column s q"
    if "ctype q = Column"
    using specialized_Column [OF that] by (simp add: update_allocated_height_def)
  have 1: "\<exists>ss. linear_container_get_major_axis_allocated_sizes a sizes sp None = Inr ss
      \<and> length ss = length sizes \<and> map snd ss = sizes
      \<and> (sizes \<noteq> [] \<longrightarrow> fst (ss ! 0) = 0)
      \<and> (\<forall>i. Suc i < length sizes \<longrightarrow> fst (ss ! Suc i) = fst (ss ! i) + (sizes ! i + sp))"
    by (rule allocated_sizes_shape)
  have 2: "linear_container_get_major_axis_allocated_sizes a sizes sp None
       = linear_container_get_major_axis_allocated_sizes a' sizes sp None"
    by (simp add: linear_container_get_major_axis_allocated_sizes_def)
  have 3: "linear_container_get_major_axis_allocated_sizes 35 [10, 20] 5 None
       = Inr [(0, 10), (15, 20)]"
    by (simp add: linear_container_get_major_axis_allocated_sizes_def)
  note 4 = placement_Row [of s q s'] and 5 = placement_Column [of s q s']
  have 6: "\<exists>s'. update_allocated_width s q = Inr s'"
    if "ctype q = Row" "proportions (attrs q) = None"
      "\<forall>x\<in>set (q # iter_direct_children q). layouts_should s (cid x) \<noteq> None"
    using that update_allocated_width_Row_total [of s q] row
    by (simp add: iter_direct_children_def)
  have 7: "\<exists>s'. update_allocated_height s q = Inr s'"
    if "ctype q = Column" "proportions (attrs q) = None"
      "\<forall>x\<in>set (q # iter_direct_children q). layouts_should s (cid x) \<noteq> None"
    using that update_allocated_height_Column_total [of s q] col
    by (simp add: iter_direct_children_def)
  show ?thesis
    apply (intro conjI impI)
          apply (rule 1)
         apply (rule 2)
        apply (rule 3)
       apply (use 4 row in \<open>simp add: iter_direct_children_def\<close>)
      apply (use 5 col in \<open>simp add: iter_direct_children_def\<close>)
     apply (use 6 in blast)
    apply (use 7 in blast)
    done
qed

theorem linear_container_placement_witness:
  "(\<exists>s' l2 l3. update_allocated_width (example_layouter example_row) example_row = Inr s'
      \<and> layouts_should s' 2 = Some l2 \<and> allocated_outer_width l2 = 10
      \<and> left_in_viewport_outer l2 = 7 + 0
      \<and> layouts_should s' 3 = Some l3 \<and> allocated_outer_width l3 = 20
      \<and> left_in_viewport_outer l3 = 7 + 15)"
proof -
  have r: "ctype example_row = Row" "cid example_row = 1" "spacing (attrs example_row) = 5"
    "proportions (attrs example_row) = None"
    "distinct (map cid (iter_direct_children example_row))"
    "length (tree_children example_row) = 2"
    "cid (tree_children example_row ! 0) = 2" "cid (tree_children example_row ! Suc 0) = 3"
    by (simp_all add: example_row_def plain_def iter_direct_children_def)
  have one: "layouts_should (example_layouter example_row) 1 = Some layout
      \<Longrightarrow> left_in_viewport_inner layout = 7" for layout
    by (auto simp: example_layouter_def new_layout_def)
  note total = linear_container_placement
    [of 0 "[]" 0 0 example_row "example_layouter example_row",
      THEN conjunct2, THEN conjunct2, THEN conjunct2, THEN conjunct2, THEN conjunct2,
      THEN conjunct1]
  from total r(1,4) example_records(1) [of example_row]
  obtain s' where s': "update_allocated_width (example_layouter example_row) example_row = Inr s'"
    by blast
  note placed = linear_container_placement
    [of 0 "[]" 0 0 example_row "example_layouter example_row" s',
      THEN conjunct2, THEN conjunct2, THEN conjunct2, THEN conjunct1]
  from placed r(1,5) s'
  obtain layout ws starts where l: "layouts_should (example_layouter example_row) (cid example_row) = Some layout"
    and ws: "list_all2 (\<lambda>child w. \<exists>l. layouts_should (example_layouter example_row) (cid child) = Some l
              \<and> requested_outer_width l = w) (tree_children example_row) ws"
    and st: "length starts = length ws" "ws \<noteq> [] \<longrightarrow> starts ! 0 = 0"
      "\<forall>i. Suc i < length ws
         \<longrightarrow> starts ! Suc i = starts ! i + (ws ! i + spacing (attrs example_row))"
    and res: "\<forall>i<length (tree_children example_row). \<exists>l'.
                 layouts_should s' (cid (tree_children example_row ! i)) = Some l'
                 \<and> allocated_outer_width l' = ws ! i
                 \<and> left_in_viewport_outer l' = left_in_viewport_inner layout + starts ! i"
    by blast
  have wse: "ws = [10, 20]" by (rule example_widths [OF ws])
  have s0: "starts ! 0 = 0" using st(2) wse by simp
  have s1: "starts ! Suc 0 = 15" using st(3) wse s0 r(3) by simp
  have li: "left_in_viewport_inner layout = 7" using l one r(2) by simp
  from res r(6) have "\<exists>l'. layouts_should s' (cid (tree_children example_row ! 0)) = Some l'
                 \<and> allocated_outer_width l' = ws ! 0
                 \<and> left_in_viewport_outer l' = left_in_viewport_inner layout + starts ! 0"
    by simp
  then obtain l2 where l2: "layouts_should s' 2 = Some l2" "allocated_outer_width l2 = 10"
    "left_in_viewport_outer l2 = 7 + 0"
    using r(7) wse s0 li by auto
  from res r(6) have "\<exists>l'. layouts_should s' (cid (tree_children example_row ! Suc 0)) = Some l'
                 \<and> allocated_outer_width l' = ws ! Suc 0
                 \<and> left_in_viewport_outer l' = left_in_viewport_inner layout + starts ! Suc 0"
    by simp
  then obtain l3 where l3: "layouts_should s' 3 = Some l3" "allocated_outer_width l3 = 20"
    "left_in_viewport_outer l3 = 7 + 15"
    using r(8) wse s1 li by auto
  show ?thesis using s' l2 l3 by blast
qed

text \<open>
  C8. The allocated sizes of a linear container raise \<open>NotImplementedError\<close> exactly when
  the proportions are set, and raise nothing else. The allocation of the widths of a row
  (of the heights of a column) whose proportions are set raises it, the layouts it reads
  being there, and never raises it when the proportions are unset.
\<close>

theorem proportions_unsupported:
  "(linear_container_get_major_axis_allocated_sizes a sizes sp pr = Inl NotImplementedError)
     = (pr \<noteq> None)
   \<and> (linear_container_get_major_axis_allocated_sizes a sizes sp pr = Inl e
        \<longrightarrow> e = NotImplementedError)
   \<and> (ctype q = Row \<and> proportions (attrs q) \<noteq> None
        \<and> (\<forall>x\<in>set (q # iter_direct_children q). layouts_should s (cid x) \<noteq> None)
        \<longrightarrow> update_allocated_width s q = Inl NotImplementedError)
   \<and> (ctype q = Column \<and> proportions (attrs q) \<noteq> None
        \<and> (\<forall>x\<in>set (q # iter_direct_children q). layouts_should s (cid x) \<noteq> None)
        \<longrightarrow> update_allocated_height s q = Inl NotImplementedError)
   \<and> (ctype q = Row \<and> proportions (attrs q) = None
        \<longrightarrow> update_allocated_width s q \<noteq> Inl NotImplementedError)
   \<and> (ctype q = Column \<and> proportions (attrs q) = None
        \<longrightarrow> update_allocated_height s q \<noteq> Inl NotImplementedError)"
proof -
  have row: "update_allocated_width s q = update_allocated_width_Row s q" if "ctype q = Row"
    using specialized_Row [OF that] by (simp add: update_allocated_width_def)
  have col: "update_allocated_height s q = update_allocated_height_Column s q"
    if "ctype q = Column"
    using specialized_Column [OF that] by (simp add: update_allocated_height_def)
  have 1: "(linear_container_get_major_axis_allocated_sizes a sizes sp pr = Inl NotImplementedError)
     = (pr \<noteq> None)"
    by (cases pr) (simp_all add: linear_container_get_major_axis_allocated_sizes_def)
  have 2: "linear_container_get_major_axis_allocated_sizes a sizes sp pr = Inl e
        \<longrightarrow> e = NotImplementedError"
    by (cases pr) (simp_all add: linear_container_get_major_axis_allocated_sizes_def)
  have 3: "ctype q = Row \<and> proportions (attrs q) \<noteq> None
        \<and> (\<forall>x\<in>set (q # iter_direct_children q). layouts_should s (cid x) \<noteq> None)
        \<longrightarrow> update_allocated_width s q = Inl NotImplementedError"
    using update_allocated_width_Row_unsupported [of s q] row
    by (simp add: iter_direct_children_def)
  have 4: "ctype q = Column \<and> proportions (attrs q) \<noteq> None
        \<and> (\<forall>x\<in>set (q # iter_direct_children q). layouts_should s (cid x) \<noteq> None)
        \<longrightarrow> update_allocated_height s q = Inl NotImplementedError"
    using update_allocated_height_Column_unsupported [of s q] col
    by (simp add: iter_direct_children_def)
  have 5: "ctype q = Row \<and> proportions (attrs q) = None
        \<longrightarrow> update_allocated_width s q \<noteq> Inl NotImplementedError"
    using update_allocated_width_Row_error [of s q NotImplementedError] row by auto
  have 6: "ctype q = Column \<and> proportions (attrs q) = None
        \<longrightarrow> update_allocated_height s q \<noteq> Inl NotImplementedError"
    using update_allocated_height_Column_error [of s q NotImplementedError] col by auto
  show ?thesis
    by (intro conjI) (rule 1, rule 2, rule 3, rule 4, rule 5, rule 6)
qed

theorem proportions_unsupported_witness:
  "update_allocated_width (example_layouter example_row)
     (Component ((attrs example_row)\<lparr>proportions := Some Homogeneous\<rparr>) (tree_children example_row))
     = Inl NotImplementedError
   \<and> update_allocated_width (example_layouter example_row) example_row \<noteq> Inl NotImplementedError"
proof -
  let ?r = "Component ((attrs example_row)\<lparr>proportions := Some Homogeneous\<rparr>) (tree_children example_row)"
  have r1: "ctype ?r = Row"
    by (simp add: example_row_def)
  have r2: "proportions (attrs ?r) \<noteq> None"
    by simp
  have r3: "\<forall>x\<in>set (?r # iter_direct_children ?r). layouts_should (example_layouter example_row) (cid x) \<noteq> None"
    by (simp add: example_row_def example_layouter_def plain_def iter_direct_children_def)
  have r4: "ctype example_row = Row" "proportions (attrs example_row) = None"
    by (simp_all add: example_row_def)
  have a: "update_allocated_width (example_layouter example_row) ?r = Inl NotImplementedError"
    using proportions_unsupported [of 0 "[]" 0 None NotImplementedError ?r "example_layouter example_row"]
      r1 r2 r3 by blast
  have b: "update_allocated_width (example_layouter example_row) example_row \<noteq> Inl NotImplementedError"
    using proportions_unsupported [of 0 "[]" 0 None NotImplementedError example_row "example_layouter example_row"]
      r4 by blast
  show ?thesis using a b by (rule conjI)
qed

text \<open>
  C5. In a tree whose components have distinct ids, let a node have a class with no
  specialized strategy that is not in the pass-through group either (for it
  \<open>specialized\<close> gives \<open>Original\<close>). When the construction returns, the natural width and
  height in the computed layout of the node are the reported ones, and for each of its
  children the allocated outer width and height and the outer left and top position in the
  computed layout are the reported ones.
\<close>

theorem default_passthrough:
  assumes "create session' client_info = Inr self"
    and "distinct (map cid (subtree (root_component session')))"
    and "p \<in> set (subtree (root_component session'))"
    and "specialized p = Original"
  shows "(\<exists>layout reported. layouts_should self (cid p) = Some layout
            \<and> layouts_are self (cid p) = Some reported
            \<and> natural_width layout = natural_width reported
            \<and> natural_height layout = natural_height reported)
     \<and> (\<forall>c\<in>set (iter_direct_tree_children p). \<exists>layout reported.
            layouts_should self (cid c) = Some layout
            \<and> layouts_are self (cid c) = Some reported
            \<and> allocated_outer_width layout = allocated_outer_width reported
            \<and> allocated_outer_height layout = allocated_outer_height reported
            \<and> left_in_viewport_outer layout = left_in_viewport_outer reported
            \<and> top_in_viewport_outer layout = top_in_viewport_outer reported)
     \<and> layouts_are self = map_of (component_layouts client_info)"
proof -
  let ?s0 = "\<lparr>session = session',
            window_width = client_window_width client_info,
            window_height = client_window_height client_info,
            layouts_should = Map.empty,
            layouts_are = map_of (component_layouts client_info)\<rparr>"
  let ?L = "get_toposorted (root_component session')"
  from create_Inr [OF assms(1)] obtain s1 s2 s3 s4 s5 where
    run: "for_each (rev ?L) natural_width_pass ?s0 = Inr s1" "seed_root_width s1 = Inr s2"
      "for_each ?L allocated_width_pass s2 = Inr s3"
      "for_each (rev ?L) natural_height_pass s3 = Inr s4" "seed_root_height s4 = Inr s5"
      "for_each ?L allocated_height_pass s5 = Inr self"
    by (rule compute_layouts_should_Inr)
  have sub: "set ?L = set (subtree (root_component session'))"
    by (rule set_get_toposorted)
  have d: "distinct (map cid ?L)"
    using assms(2) by (rule distinct_get_toposorted)
  have p: "p \<in> set ?L" using assms(3) sub by simp
  have are: "layouts_are self = layouts_are ?s0"
    using run_env(6) [OF run] by (rule env_layouts_are)
  from run_default_natural_width [OF run d p assms(4)] obtain a where
    a: "layouts_are ?s0 (cid p) = Some a"
      "map_option natural_width (layouts_should self (cid p)) = Some (natural_width a)"
    by blast
  from run_default_natural_height [OF run d p assms(4)] a(1) have
    h: "map_option natural_height (layouts_should self (cid p)) = Some (natural_height a)"
    by auto
  have 1: "\<exists>layout reported. layouts_should self (cid p) = Some layout
            \<and> layouts_are self (cid p) = Some reported
            \<and> natural_width layout = natural_width reported
            \<and> natural_height layout = natural_height reported"
    using a h are by (cases "layouts_should self (cid p)") auto
  have 2: "\<exists>layout reported.
            layouts_should self (cid c) = Some layout
            \<and> layouts_are self (cid c) = Some reported
            \<and> allocated_outer_width layout = allocated_outer_width reported
            \<and> allocated_outer_height layout = allocated_outer_height reported
            \<and> left_in_viewport_outer layout = left_in_viewport_outer reported
            \<and> top_in_viewport_outer layout = top_in_viewport_outer reported"
    if "c \<in> set (iter_direct_tree_children p)" for c
  proof -
    from that have c: "c \<in> set (tree_children p)"
      by (simp add: iter_direct_tree_children_def)
    from run_default_child_width [OF run assms(2) sub d p assms(4) c] obtain b where
      b: "layouts_are ?s0 (cid c) = Some b"
        "map_option allocated_outer_width (layouts_should self (cid c))
           = Some (allocated_outer_width b)"
      by blast
    from run_default_child_height [OF run assms(2) sub d p assms(4) c] b(1) have
      "map_option (\<lambda>r. (allocated_outer_height r, left_in_viewport_outer r, top_in_viewport_outer r))
          (layouts_should self (cid c))
         = Some (allocated_outer_height b, left_in_viewport_outer b, top_in_viewport_outer b)"
      by auto
    with b are show ?thesis
      by (cases "layouts_should self (cid c)") auto
  qed
  from 1 2 are show ?thesis by simp
qed

theorem default_passthrough_witness:
  "\<exists>self layout child_layout.
      create \<lparr>root_component = example_tree OtherComponent\<rparr> example_client_info = Inr self
      \<and> layouts_should self 2 = Some layout
      \<and> natural_width layout = 10 \<and> natural_height layout = 4
      \<and> layouts_should self 3 = Some child_layout
      \<and> allocated_outer_width child_layout = 30 \<and> allocated_outer_height child_layout = 8
      \<and> left_in_viewport_outer child_layout = 5 \<and> top_in_viewport_outer child_layout = 6"
proof -
  obtain self where self:
    "create \<lparr>root_component = example_tree OtherComponent\<rparr> example_client_info = Inr self"
    using example_default_run by blast
  have o: "specialized (plain 2 OtherComponent [plain 3 OtherComponent []]) = Original"
    by (simp add: specialized_Original example_tree_facts)
  have d: "distinct (map cid (subtree (root_component \<lparr>root_component = example_tree OtherComponent\<rparr>)))"
    and pin: "plain 2 OtherComponent [plain 3 OtherComponent []]
      \<in> set (subtree (root_component \<lparr>root_component = example_tree OtherComponent\<rparr>))"
    by (simp_all add: example_tree_facts)
  note t = default_passthrough [OF self d pin o]
  have are: "map_of (component_layouts example_client_info) i = Some reported
      \<Longrightarrow> reported = example_reported" for i reported
    by (auto simp: example_client_info_def split: if_splits)
  have c2: "cid (plain 2 OtherComponent [plain 3 OtherComponent []]) = 2"
    and c3: "cid (plain 3 OtherComponent []) = 3"
    and kid: "plain 3 OtherComponent []
      \<in> set (iter_direct_tree_children (plain 2 OtherComponent [plain 3 OtherComponent []]))"
    by (simp_all add: plain_def iter_direct_tree_children_def)
  note t1 = t [THEN conjunct1, unfolded c2]
    and t2 = t [THEN conjunct2, THEN conjunct1, THEN bspec, OF kid, unfolded c3]
    and t3 = t [THEN conjunct2, THEN conjunct2]
  from t1 obtain layout r2 where l2: "layouts_should self 2 = Some layout"
    "layouts_are self 2 = Some r2" "natural_width layout = natural_width r2"
    "natural_height layout = natural_height r2"
    by blast
  from t2 obtain child_layout r3 where l3: "layouts_should self 3 = Some child_layout"
    "layouts_are self 3 = Some r3"
    "allocated_outer_width child_layout = allocated_outer_width r3"
    "allocated_outer_height child_layout = allocated_outer_height r3"
    "left_in_viewport_outer child_layout = left_in_viewport_outer r3"
    "top_in_viewport_outer child_layout = top_in_viewport_outer r3"
    by blast
  have "r2 = example_reported" "r3 = example_reported"
    using l2(2) l3(2) are unfolding t3 by blast+
  with l2 l3 have "layouts_should self 2 = Some layout
      \<and> natural_width layout = 10 \<and> natural_height layout = 4
      \<and> layouts_should self 3 = Some child_layout
      \<and> allocated_outer_width child_layout = 30 \<and> allocated_outer_height child_layout = 8
      \<and> left_in_viewport_outer child_layout = 5 \<and> top_in_viewport_outer child_layout = 6"
    by (simp add: example_reported_def)
  with self show ?thesis by blast
qed

text \<open>
  C6. In a tree whose components have distinct ids, when the construction returns, the
  content of every overlay has on each axis the whole window as its allocated outer size and
  0 as its outer position, whatever the overlay itself has been allocated. In the example
  the overlay has the inner size 90 by 45 at (10, 5) and its child 100 by 50 at (0, 0).
\<close>

theorem overlay_child_gets_window:
  assumes "create session' client_info = Inr self"
    and "distinct (map cid (subtree (root_component session')))"
    and "p \<in> set (subtree (root_component session'))"
    and "ctype p = Overlay"
    and "content p = Inr c"
  shows "\<exists>layout. layouts_should self (cid c) = Some layout
     \<and> allocated_outer_width layout = window_width self
     \<and> left_in_viewport_outer layout = 0
     \<and> allocated_outer_height layout = window_height self
     \<and> top_in_viewport_outer layout = 0
     \<and> window_width self = client_window_width client_info
     \<and> window_height self = client_window_height client_info"
proof -
  let ?s0 = "\<lparr>session = session',
            window_width = client_window_width client_info,
            window_height = client_window_height client_info,
            layouts_should = Map.empty,
            layouts_are = map_of (component_layouts client_info)\<rparr>"
  let ?L = "get_toposorted (root_component session')"
  from create_Inr [OF assms(1)] obtain s1 s2 s3 s4 s5 where
    run: "for_each (rev ?L) natural_width_pass ?s0 = Inr s1" "seed_root_width s1 = Inr s2"
      "for_each ?L allocated_width_pass s2 = Inr s3"
      "for_each (rev ?L) natural_height_pass s3 = Inr s4" "seed_root_height s4 = Inr s5"
      "for_each ?L allocated_height_pass s5 = Inr self"
    by (rule compute_layouts_should_Inr)
  have sub: "set ?L = set (subtree (root_component session'))"
    by (rule set_get_toposorted)
  have d: "distinct (map cid ?L)"
    using assms(2) by (rule distinct_get_toposorted)
  have p: "p \<in> set ?L" using assms(3) sub by simp
  have o: "specialized p = For_Overlay" using assms(4) by (rule specialized_Overlay)
  have c: "c \<in> set (tree_children p)"
    using assms(5) by (auto simp: content_def split: list.splits)
  have w: "window_width self = window_width ?s0" "window_height self = window_height ?s0"
    using run_env(6) [OF run] by (simp_all add: env_def)
  note run_overlay_child_width [OF run assms(2) sub d p o c]
    and run_overlay_child_height [OF run assms(2) sub d p o c]
  then show ?thesis
    using w by (cases "layouts_should self (cid c)") auto
qed

theorem overlay_child_gets_window_witness:
  "\<exists>self layout overlay_layout.
      create \<lparr>root_component = example_overlay_tree\<rparr> example_client_info = Inr self
      \<and> layouts_should self 3 = Some layout
      \<and> allocated_outer_width layout = 100 \<and> left_in_viewport_outer layout = 0
      \<and> allocated_outer_height layout = 50 \<and> top_in_viewport_outer layout = 0
      \<and> layouts_should self 2 = Some overlay_layout
      \<and> allocated_inner_width overlay_layout = 90 \<and> left_in_viewport_inner overlay_layout = 10
      \<and> allocated_inner_height overlay_layout = 45 \<and> top_in_viewport_inner overlay_layout = 5"
proof -
  let ?p = "Component \<lparr>id' = 2, type' = Overlay, width = None, height = None,
          effective_margin_left = 10, effective_margin_right = 0,
          effective_margin_top = 5, effective_margin_bottom = 0,
          align_x = None, align_y = None, spacing = 0, proportions = None\<rparr>
          [plain 3 OtherComponent []]"
  obtain self where self:
    "create \<lparr>root_component = example_overlay_tree\<rparr> example_client_info = Inr self"
    and two: "\<exists>overlay_layout. layouts_should self 2 = Some overlay_layout
      \<and> allocated_inner_width overlay_layout = 90 \<and> left_in_viewport_inner overlay_layout = 10
      \<and> allocated_inner_height overlay_layout = 45 \<and> top_in_viewport_inner overlay_layout = 5"
    using example_overlay_run by simp
  have d: "distinct (map cid (subtree (root_component \<lparr>root_component = example_overlay_tree\<rparr>)))"
    and pin: "?p \<in> set (subtree (root_component \<lparr>root_component = example_overlay_tree\<rparr>))"
    and o: "ctype ?p = Overlay"
    and c: "content ?p = Inr (plain 3 OtherComponent [])"
    and c3: "cid (plain 3 OtherComponent []) = 3"
    and w: "client_window_width example_client_info = 100"
      "client_window_height example_client_info = 50"
    by (simp_all add: example_overlay_tree_def plain_def content_def example_client_info_def)
  from overlay_child_gets_window [OF self d pin o c, unfolded c3 w]
  obtain layout where "layouts_should self 3 = Some layout"
      "allocated_outer_width layout = 100" "left_in_viewport_outer layout = 0"
      "allocated_outer_height layout = 50" "top_in_viewport_outer layout = 0"
    by auto
  with self two show ?thesis by blast
qed



text \<open>
  C9, which the code breaks. In the example tree the middle component uses the default
  allocation. After the width allocation pass the layout of its child still has the
  initial -1 as its outer left position, and the inner left position derived from it is
  -1 too; when the construction returns, the outer left position is the reported 5 and
  the inner left position is still -1.
\<close>

theorem default_child_left_edge_unset:
  "\<exists>self s0 s1 s2 s3 after_width layout.
      create \<lparr>root_component = example_tree OtherComponent\<rparr> example_client_info = Inr self
      \<and> for_each (rev (get_toposorted (example_tree OtherComponent))) natural_width_pass s0 = Inr s1
      \<and> layouts_should s0 = Map.empty
      \<and> seed_root_width s1 = Inr s2
      \<and> for_each (get_toposorted (example_tree OtherComponent)) allocated_width_pass s2 = Inr s3
      \<and> layouts_should s3 3 = Some after_width
      \<and> left_in_viewport_outer after_width = - 1
      \<and> left_in_viewport_inner after_width = - 1
      \<and> layouts_should self 3 = Some layout
      \<and> left_in_viewport_inner layout = - 1
      \<and> left_in_viewport_outer layout = 5"
proof -
  let ?s0 = "\<lparr>session = \<lparr>root_component = example_tree OtherComponent\<rparr>,
            window_width = client_window_width example_client_info,
            window_height = client_window_height example_client_info,
            layouts_should = Map.empty,
            layouts_are = map_of (component_layouts example_client_info)\<rparr>"
  let ?L = "get_toposorted (example_tree OtherComponent)"
  have "\<exists>s1 s2 s3 after_width.
      for_each (rev ?L) natural_width_pass ?s0 = Inr s1
      \<and> seed_root_width s1 = Inr s2
      \<and> for_each ?L allocated_width_pass s2 = Inr s3
      \<and> layouts_should s3 3 = Some after_width
      \<and> left_in_viewport_outer after_width = - 1
      \<and> left_in_viewport_inner after_width = - 1"
    unfolding example_tree_def example_client_info_def example_reported_def
    by (simp add: layouter_defs)
  moreover have "\<exists>self layout.
      create \<lparr>root_component = example_tree OtherComponent\<rparr> example_client_info = Inr self
      \<and> layouts_should self 3 = Some layout
      \<and> left_in_viewport_inner layout = - 1
      \<and> left_in_viewport_outer layout = 5"
    using example_default_run by simp
  moreover have "layouts_should ?s0 = Map.empty" by simp
  ultimately show ?thesis by blast
qed

text \<open>
  C7, as amended. The ids the walker finds are those of the nodes of the tree. When some of
  them are missing from the reported layouts, the construction fails with the set of the
  missing ids, and no layout is computed; when none is missing and the reported layouts
  hold further ids, it fails with the set of these superfluous ids. So whenever the two
  sets differ the construction fails with a set that is not empty, and when they are equal
  no \<open>assert\<close> fails, in the construction or in the computation behind it.
\<close>

theorem create_desync:
  "set (map cid (get_toposorted (root_component session')))
     = cid ` set (subtree (root_component session'))
   \<and> (set (map cid (get_toposorted (root_component session')))
         - set (map fst (component_layouts client_info)) \<noteq> {}
        \<longrightarrow> create session' client_info
          = Inl (AssertionError (set (map cid (get_toposorted (root_component session')))
                                  - set (map fst (component_layouts client_info)))))
   \<and> (set (map cid (get_toposorted (root_component session')))
         - set (map fst (component_layouts client_info)) = {}
        \<and> set (map fst (component_layouts client_info))
         - set (map cid (get_toposorted (root_component session'))) \<noteq> {}
        \<longrightarrow> create session' client_info
          = Inl (AssertionError (set (map fst (component_layouts client_info))
                                  - set (map cid (get_toposorted (root_component session'))))))
   \<and> (set (map cid (get_toposorted (root_component session')))
         \<noteq> set (map fst (component_layouts client_info))
        \<longrightarrow> (\<exists>ids. ids \<noteq> {} \<and> create session' client_info = Inl (AssertionError ids)))
   \<and> (set (map cid (get_toposorted (root_component session')))
         = set (map fst (component_layouts client_info))
        \<longrightarrow> \<not> (\<exists>e. create session' client_info = Inl e \<and> is_AssertionError e))"
proof -
  let ?server = "set (map cid (get_toposorted (root_component session')))"
  let ?client = "set (map fst (component_layouts client_info))"
  have 1: "?server = cid ` set (subtree (root_component session'))"
    by (simp add: set_get_toposorted)
  have 2: "?server - ?client \<noteq> {}
      \<longrightarrow> create session' client_info = Inl (AssertionError (?server - ?client))"
    using create_missing by blast
  have 3: "?server - ?client = {} \<and> ?client - ?server \<noteq> {}
      \<longrightarrow> create session' client_info = Inl (AssertionError (?client - ?server))"
    using create_superfluous by blast
  have 4: "?server \<noteq> ?client
      \<longrightarrow> (\<exists>ids. ids \<noteq> {} \<and> create session' client_info = Inl (AssertionError ids))"
  proof
    assume "?server \<noteq> ?client"
    then have "?server - ?client \<noteq> {} \<or> (?server - ?client = {} \<and> ?client - ?server \<noteq> {})"
      by blast
    then show "\<exists>ids. ids \<noteq> {} \<and> create session' client_info = Inl (AssertionError ids)"
      using 2 3 by metis
  qed
  have 5: "?server = ?client
      \<longrightarrow> \<not> (\<exists>e. create session' client_info = Inl e \<and> is_AssertionError e)"
  proof (intro impI notI)
    assume eq: "?server = ?client"
    assume "\<exists>e. create session' client_info = Inl e \<and> is_AssertionError e"
    then obtain e where e: "create session' client_info = Inl e" "is_AssertionError e" by blast
    from e(1) eq have "compute_layouts_should
           \<lparr>session = session',
            window_width = client_window_width client_info,
            window_height = client_window_height client_info,
            layouts_should = Map.empty,
            layouts_are = map_of (component_layouts client_info)\<rparr>
           (get_toposorted (root_component session')) = Inl e"
      by (simp add: create_def Let_def)
    from no_assert_compute [OF this] e(2) show False by simp
  qed
  show ?thesis
    by (intro conjI) (rule 1, rule 2, rule 3, rule 4, rule 5)
qed

theorem create_desync_witness:
  "create \<lparr>root_component = example_row\<rparr> example_desync_info = Inl (AssertionError {3})
   \<and> (\<exists>self. create \<lparr>root_component = example_tree OtherComponent\<rparr> example_client_info
         = Inr self)"
proof -
  have ne: "set (map cid (get_toposorted (root_component \<lparr>root_component = example_row\<rparr>)))
     - set (map fst (component_layouts example_desync_info)) \<noteq> {}"
    unfolding example_desync_sets by simp
  have eq: "set (map cid (get_toposorted (root_component
        \<lparr>root_component = example_tree OtherComponent\<rparr>)))
     = set (map fst (component_layouts example_client_info))"
    by (auto simp: get_toposorted_walk example_tree_def example_client_info_def plain_def)
  note miss = create_desync [of "\<lparr>root_component = example_row\<rparr>" example_desync_info,
      THEN conjunct2, THEN conjunct1, rule_format, OF ne, unfolded example_desync_sets]
  note same = create_desync [of "\<lparr>root_component = example_tree OtherComponent\<rparr>"
      example_client_info, THEN conjunct2, THEN conjunct2, THEN conjunct2, THEN conjunct2,
      rule_format, OF eq]
  have "\<exists>self. create \<lparr>root_component = example_tree OtherComponent\<rparr> example_client_info
         = Inr self"
    using example_default_run by blast
  with miss show ?thesis by simp
qed

text \<open>
  C7 as stated fails: with the ids 1, 2, 3 in the tree and 1, 2, 4 reported, the failure
  carries the missing set alone; the superfluous id 4 is reported nowhere.
\<close>

theorem create_superfluous_unreported_counterexample:
  "create \<lparr>root_component = example_row\<rparr> example_desync_info = Inl (AssertionError {3})
   \<and> set (map fst (component_layouts example_desync_info))
       - set (map cid (get_toposorted (root_component \<lparr>root_component = example_row\<rparr>))) = {4}"
proof -
  have "set (map cid (get_toposorted (root_component \<lparr>root_component = example_row\<rparr>)))
     - set (map fst (component_layouts example_desync_info)) \<noteq> {}"
    unfolding example_desync_sets by simp
  from create_missing [OF this] show ?thesis
    unfolding example_desync_sets by simp
qed

end
